(* ===== verification/Rust_Prelude.thy ===== *)
theory Rust_Prelude
  imports Main "HOL-Library.Word"
begin

unbundle bit_operations_syntax

text \<open>
  Shared vocabulary of the development: how an execution of a Rust function is
  represented, what indexing, slicing and copying do (with their panics), the
  arithmetic of the checked integer operators of the build the repository's cargo
  aliases use (the \<^verbatim>\<open>dev\<close> profile, where \<open>+\<close>, \<open>-\<close> and \<open>*\<close> panic on overflow), and
  the big-endian byte conversions of \<^verbatim>\<open>u16\<close> and \<^verbatim>\<open>u32\<close>.

  A function that returns \<^verbatim>\<open>T\<close> is modelled by a value of type \<open>'t exec\<close>: it returns or
  it panics, with the reason. A \<^verbatim>\<open>Result<T, ()>\<close> is an \<open>'t option\<close> inside it (\<open>None\<close> is
  \<^verbatim>\<open>Err(())\<close>), so that an error value and a panic are never confused.
\<close>

named_theorems rust_simps \<open>unfolding rules of the execution model\<close>
named_theorems word_codec \<open>round trips of byte and word conversions\<close>

type_synonym u8 = "8 word"
type_synonym u16 = "16 word"
type_synonym u32 = "32 word"
type_synonym u64 = "64 word"
type_synonym bytes = "u8 list"

section \<open>Executions that return or panic\<close>

datatype panic =
    IndexOutOfRange
  | LengthMismatch
  | ArithOverflow
  | UnwrapFailed
  | AssertionFailed
  | NotImplemented
  | ExplicitPanic

datatype 'a exec = Ret 'a | Panic panic

primrec xbind :: "'a exec \<Rightarrow> ('a \<Rightarrow> 'b exec) \<Rightarrow> 'b exec" where
  "xbind (Ret x) f = f x"
| "xbind (Panic p) f = Panic p"

primrec panics :: "'a exec \<Rightarrow> bool" where
  "panics (Ret x) = False"
| "panics (Panic p) = True"

text \<open>The \<^verbatim>\<open>?\<close> operator: an \<^verbatim>\<open>Err\<close> leaves the function, an \<^verbatim>\<open>Ok\<close> continues with its value.\<close>

definition try_bind :: "'a option \<Rightarrow> ('a \<Rightarrow> 'b option exec) \<Rightarrow> 'b option exec" where
  "try_bind r f = (case r of None \<Rightarrow> Ret None | Some x \<Rightarrow> f x)"

text \<open>\<^verbatim>\<open>unwrap\<close> and \<^verbatim>\<open>expect\<close> on an \<^verbatim>\<open>Option\<close> or a \<^verbatim>\<open>Result\<close>.\<close>

definition unwrap :: "'a option \<Rightarrow> 'a exec" where
  "unwrap r = (case r of None \<Rightarrow> Panic UnwrapFailed | Some x \<Rightarrow> Ret x)"

definition assert_x :: "bool \<Rightarrow> unit exec" where
  "assert_x b = (if b then Ret () else Panic AssertionFailed)"

lemma xbind_assoc: "xbind (xbind m f) g = xbind m (\<lambda>x. xbind (f x) g)"
  by (cases m) simp_all

lemma xbind_Ret_iff: "xbind m f = Ret y \<longleftrightarrow> (\<exists>x. m = Ret x \<and> f x = Ret y)"
  by (cases m) simp_all

lemma xbind_Panic_iff:
  "xbind m f = Panic p \<longleftrightarrow> m = Panic p \<or> (\<exists>x. m = Ret x \<and> f x = Panic p)"
  by (cases m) auto

lemma xbind_eq_RetE [elim]:
  assumes "xbind m f = Ret y"
  obtains x where "m = Ret x" and "f x = Ret y"
  using assms by (auto simp: xbind_Ret_iff)

lemma xbind_cong:
  "m = m' \<Longrightarrow> (\<And>x. m' = Ret x \<Longrightarrow> f x = g x) \<Longrightarrow> xbind m f = xbind m' g"
  by (cases m') simp_all

lemma not_panics_iff: "\<not> panics m \<longleftrightarrow> (\<exists>x. m = Ret x)"
  by (cases m) simp_all

lemma panics_iff: "panics m \<longleftrightarrow> (\<exists>p. m = Panic p)"
  by (cases m) simp_all

text \<open>
  Code with a loop that may not end has values of type \<open>'a exec option\<close>: \<open>None\<close> is not returning.
  \<open>lbind\<close> sequences them, \<open>lift_x\<close> is a step that always comes back.
\<close>

definition lbind :: "'a exec option \<Rightarrow> ('a \<Rightarrow> 'b exec option) \<Rightarrow> 'b exec option" where
  "lbind m f = (case m of None \<Rightarrow> None | Some (Panic p) \<Rightarrow> Some (Panic p) | Some (Ret x) \<Rightarrow> f x)"

abbreviation (input) lift_x :: "'a exec \<Rightarrow> 'a exec option" where
  "lift_x \<equiv> Some"

lemma lbind_simps [simp]:
  "lbind None f = None" "lbind (Some (Panic p)) f = Some (Panic p)" "lbind (Some (Ret x)) f = f x"
  by (simp_all add: lbind_def)

lemma lbind_Ret_iff: "lbind m f = Some (Ret y) \<longleftrightarrow> (\<exists>x. m = Some (Ret x) \<and> f x = Some (Ret y))"
  by (auto simp: lbind_def split: option.splits exec.splits)

lemma lbind_Some_iff:
  "lbind m f = Some r \<longleftrightarrow>
     (\<exists>p. m = Some (Panic p) \<and> r = Panic p) \<or> (\<exists>x. m = Some (Ret x) \<and> f x = Some r)"
  by (auto simp: lbind_def split: option.splits exec.splits)

lemma try_bind_simps [simp]:
  "try_bind None f = Ret None"
  "try_bind (Some x) f = f x"
  by (simp_all add: try_bind_def)

lemma unwrap_simps [simp]:
  "unwrap None = Panic UnwrapFailed"
  "unwrap (Some x) = Ret x"
  by (simp_all add: unwrap_def)

lemma unwrap_eq_Ret_iff [simp]: "unwrap r = Ret x \<longleftrightarrow> r = Some x"
  by (cases r) simp_all

lemma assert_x_simps [simp]:
  "assert_x True = Ret ()"
  "assert_x False = Panic AssertionFailed"
  by (simp_all add: assert_x_def)

section \<open>Indexing, slicing and copying\<close>

definition index_at :: "'a list \<Rightarrow> nat \<Rightarrow> 'a exec" where
  "index_at xs i = (if i < length xs then Ret (xs ! i) else Panic IndexOutOfRange)"

text \<open>\<^verbatim>\<open>&xs[a..b]\<close> and \<^verbatim>\<open>&xs[a..]\<close>.\<close>

definition slice_range :: "'a list \<Rightarrow> nat \<Rightarrow> nat \<Rightarrow> 'a list exec" where
  "slice_range xs a b =
     (if a \<le> b \<and> b \<le> length xs then Ret (take (b - a) (drop a xs)) else Panic IndexOutOfRange)"

definition slice_from :: "'a list \<Rightarrow> nat \<Rightarrow> 'a list exec" where
  "slice_from xs a = slice_range xs a (length xs)"

text \<open>\<^verbatim>\<open>xs[i] = v\<close> and \<^verbatim>\<open>(&mut xs[a..b]).copy_from_slice(src)\<close>.\<close>

definition set_at :: "'a list \<Rightarrow> nat \<Rightarrow> 'a \<Rightarrow> 'a list exec" where
  "set_at xs i v = (if i < length xs then Ret (xs[i := v]) else Panic IndexOutOfRange)"

definition copy_into :: "'a list \<Rightarrow> nat \<Rightarrow> nat \<Rightarrow> 'a list \<Rightarrow> 'a list exec" where
  "copy_into xs a b src =
     (if \<not> (a \<le> b \<and> b \<le> length xs) then Panic IndexOutOfRange
      else if length src \<noteq> b - a then Panic LengthMismatch
      else Ret (take a xs @ src @ drop b xs))"

text \<open>
  A call \<^verbatim>\<open>f(&mut xs[a..b])\<close>: the callee works on the sub-slice and hands it back with its
  own result; the rest of \<open>xs\<close> is untouched.
\<close>

definition on_slice :: "'a list \<Rightarrow> nat \<Rightarrow> nat \<Rightarrow> ('a list \<Rightarrow> ('a list \<times> 'r) exec) \<Rightarrow> ('a list \<times> 'r) exec" where
  "on_slice xs a b f =
     (if a \<le> b \<and> b \<le> length xs
      then xbind (f (take (b - a) (drop a xs))) (\<lambda>(ys, r). Ret (take a xs @ ys @ drop b xs, r))
      else Panic IndexOutOfRange)"

definition on_slice_from :: "'a list \<Rightarrow> nat \<Rightarrow> ('a list \<Rightarrow> ('a list \<times> 'r) exec) \<Rightarrow> ('a list \<times> 'r) exec" where
  "on_slice_from xs a f = on_slice xs a (length xs) f"

lemma index_at_Ret [rust_simps]: "i < length xs \<Longrightarrow> index_at xs i = Ret (xs ! i)"
  by (simp add: index_at_def)

lemma slice_range_Ret [rust_simps]:
  "a \<le> b \<Longrightarrow> b \<le> length xs \<Longrightarrow> slice_range xs a b = Ret (take (b - a) (drop a xs))"
  by (simp add: slice_range_def)

lemma slice_range_panics_iff [simp]: "panics (slice_range xs a b) \<longleftrightarrow> \<not> (a \<le> b \<and> b \<le> length xs)"
  by (simp add: slice_range_def)

lemma slice_from_Ret [rust_simps]: "a \<le> length xs \<Longrightarrow> slice_from xs a = Ret (drop a xs)"
  by (simp add: slice_from_def slice_range_def)

lemma slice_from_panics_iff [simp]: "panics (slice_from xs a) \<longleftrightarrow> length xs < a"
  by (simp add: slice_from_def not_le)

lemma set_at_Ret [rust_simps]:
  "i < length xs \<Longrightarrow> set_at xs i v = Ret (take i xs @ v # drop (i + 1) xs)"
  by (simp add: set_at_def upd_conv_take_nth_drop)

lemma copy_into_Ret [rust_simps]:
  "a \<le> b \<Longrightarrow> b \<le> length xs \<Longrightarrow> length src = b - a \<Longrightarrow>
     copy_into xs a b src = Ret (take a xs @ src @ drop b xs)"
  by (simp add: copy_into_def)

lemma copy_into_length:
  "copy_into xs a b src = Ret ys \<Longrightarrow> length ys = length xs"
  by (auto simp: copy_into_def split: if_splits)

lemma set_at_length: "set_at xs i v = Ret ys \<Longrightarrow> length ys = length xs"
  by (auto simp: set_at_def split: if_splits)

lemma on_slice_from_eq [rust_simps]:
  "a \<le> length xs \<Longrightarrow>
     on_slice_from xs a f = xbind (f (drop a xs)) (\<lambda>(ys, r). Ret (take a xs @ ys, r))"
  by (simp add: on_slice_from_def on_slice_def)

lemma on_slice_eq [rust_simps]:
  "a \<le> b \<Longrightarrow> b \<le> length xs \<Longrightarrow>
     on_slice xs a b f =
       xbind (f (take (b - a) (drop a xs))) (\<lambda>(ys, r). Ret (take a xs @ ys @ drop b xs, r))"
  by (simp add: on_slice_def)

section \<open>Checked arithmetic\<close>

definition add_w :: "'a::len word \<Rightarrow> 'a word \<Rightarrow> 'a word exec" where
  "add_w x y = (if unat x + unat y < 2 ^ LENGTH('a) then Ret (x + y) else Panic ArithOverflow)"

definition sub_w :: "'a::len word \<Rightarrow> 'a word \<Rightarrow> 'a word exec" where
  "sub_w x y = (if y \<le> x then Ret (x - y) else Panic ArithOverflow)"

text \<open>
  \<^verbatim>\<open>usize\<close> values that count bytes are natural numbers below \<open>2 ^ 64\<close>; additions on them are
  checked against that bound.
\<close>

definition add_usize :: "nat \<Rightarrow> nat \<Rightarrow> nat exec" where
  "add_usize m n = (if m + n < 2 ^ 64 then Ret (m + n) else Panic ArithOverflow)"

definition sub_usize :: "nat \<Rightarrow> nat \<Rightarrow> nat exec" where
  "sub_usize m n = (if n \<le> m then Ret (m - n) else Panic ArithOverflow)"

lemma add_w_eq_Ret_iff: "add_w x y = Ret z \<longleftrightarrow> unat x + unat y < 2 ^ LENGTH('a) \<and> z = x + y"
  for x y z :: "'a::len word"
  by (auto simp: add_w_def)

lemma add_w_unat: "add_w x y = Ret z \<Longrightarrow> unat z = unat x + unat y"
  for x y z :: "'a::len word"
  by (auto simp: add_w_def unat_word_ariths split: if_splits)

lemma sub_w_unat: "sub_w x y = Ret z \<Longrightarrow> unat z = unat x - unat y"
  by (auto simp: sub_w_def unat_sub split: if_splits)

lemma add_usize_Ret [rust_simps]: "m + n < 2 ^ 64 \<Longrightarrow> add_usize m n = Ret (m + n)"
  by (simp add: add_usize_def)

section \<open>Big-endian conversions\<close>

definition u16_from_be :: "u8 \<Rightarrow> u8 \<Rightarrow> u16" where
  "u16_from_be a b = push_bit 8 (ucast a) OR ucast b"

definition u16_to_be :: "u16 \<Rightarrow> bytes" where
  "u16_to_be w = [ucast (drop_bit 8 w), ucast w]"

definition u32_from_be :: "u8 \<Rightarrow> u8 \<Rightarrow> u8 \<Rightarrow> u8 \<Rightarrow> u32" where
  "u32_from_be a b c d =
     push_bit 24 (ucast a) OR push_bit 16 (ucast b) OR push_bit 8 (ucast c) OR ucast d"

definition u32_to_be :: "u32 \<Rightarrow> bytes" where
  "u32_to_be w = [ucast (drop_bit 24 w), ucast (drop_bit 16 w), ucast (drop_bit 8 w), ucast w]"

text \<open>
  \<^verbatim>\<open>u16::from_be_bytes(s.try_into().unwrap())\<close> on a slice: the conversion to a fixed-size
  array fails on any other length.
\<close>

definition be_u16 :: "bytes \<Rightarrow> u16 exec" where
  "be_u16 s = (case s of [a, b] \<Rightarrow> Ret (u16_from_be a b) | _ \<Rightarrow> Panic UnwrapFailed)"

definition be_u32 :: "bytes \<Rightarrow> u32 exec" where
  "be_u32 s = (case s of [a, b, c, d] \<Rightarrow> Ret (u32_from_be a b c d) | _ \<Rightarrow> Panic UnwrapFailed)"

lemma u16_be_roundtrip [word_codec, simp]:
  "u16_from_be (ucast (drop_bit 8 w)) (ucast w) = w"
  by (rule bit_word_eqI) (auto simp: u16_from_be_def bit_simps)

lemma u16_be_high [word_codec, simp]: "ucast (drop_bit 8 (u16_from_be a b)) = a"
  by (rule bit_word_eqI) (auto simp: u16_from_be_def bit_simps dest: bit_imp_le_length)

lemma u16_be_low [word_codec, simp]: "ucast (u16_from_be a b) = b"
  by (rule bit_word_eqI) (auto simp: u16_from_be_def bit_simps)

lemma u32_be_roundtrip [word_codec, simp]:
  "u32_from_be (ucast (drop_bit 24 w)) (ucast (drop_bit 16 w)) (ucast (drop_bit 8 w)) (ucast w) = w"
proof (rule bit_word_eqI)
  fix n assume "n < LENGTH(32)"
  then consider "n < 8" | "8 \<le> n \<and> n < 16" | "16 \<le> n \<and> n < 24" | "24 \<le> n \<and> n < 32"
    by fastforce
  then show "bit (u32_from_be (ucast (drop_bit 24 w)) (ucast (drop_bit 16 w))
      (ucast (drop_bit 8 w)) (ucast w)) n = bit w n"
    by cases (auto simp: u32_from_be_def bit_simps)
qed

lemma u16_to_be_length [simp]: "length (u16_to_be w) = 2"
  by (simp add: u16_to_be_def)

lemma u32_to_be_length [simp]: "length (u32_to_be w) = 4"
  by (simp add: u32_to_be_def)

lemma be_u16_to_be [word_codec, simp]: "be_u16 (u16_to_be w) = Ret w"
  by (simp add: be_u16_def u16_to_be_def)

lemma be_u32_to_be [word_codec, simp]: "be_u32 (u32_to_be w) = Ret w"
  by (simp add: be_u32_def u32_to_be_def)

lemma be_u16_pair [simp]: "be_u16 [a, b] = Ret (u16_from_be a b)"
  by (simp add: be_u16_def)

lemma be_u32_quad [simp]: "be_u32 [a, b, c, d] = Ret (u32_from_be a b c d)"
  by (simp add: be_u32_def)

lemma be_u32_length:
  "length s = 4 \<Longrightarrow> be_u32 s = Ret (u32_from_be (s ! 0) (s ! 1) (s ! 2) (s ! 3))"
  by (auto simp: be_u32_def numeral_eq_Suc length_Suc_conv)

lemma be_u16_length: "length s = 2 \<Longrightarrow> be_u16 s = Ret (u16_from_be (s ! 0) (s ! 1))"
  by (auto simp: be_u16_def numeral_2_eq_2 length_Suc_conv)

lemma unat_lt_u8: "unat w < 256" for w :: u8
  using unsigned_less [of w, where ?'a = nat] by simp

lemma unat_lt_u16: "unat w < 65536" for w :: u16
  using unsigned_less [of w, where ?'a = nat] by simp

lemma unat_ucast_up: "LENGTH('a) \<le> LENGTH('b) \<Longrightarrow> unat (ucast w :: 'b::len word) = unat w"
  for w :: "'a::len word"
proof -
  assume "LENGTH('a) \<le> LENGTH('b)"
  then have "(2::nat) ^ LENGTH('a) \<le> 2 ^ LENGTH('b)"
    by (rule power_increasing) simp
  with unsigned_less [of w, where ?'a = nat] have "unat w < 2 ^ LENGTH('b)"
    by linarith
  then show ?thesis
    by (simp add: unsigned_ucast_eq take_bit_nat_eq_self)
qed

lemma unat_u16_from_be: "unat (u16_from_be a b) = unat a * 256 + unat b"
proof -
  have "u16_from_be a b = push_bit 8 (ucast a) + ucast b"
    unfolding u16_from_be_def
    by (rule disjunctive_add [symmetric]) (auto simp: bit_simps dest: bit_imp_le_length)
  moreover have "unat a * 256 + unat b < 65536"
    using unat_lt_u8 [of a] unat_lt_u8 [of b] by simp
  ultimately show ?thesis
    by (simp add: unat_word_ariths push_bit_eq_mult unat_ucast_up)
qed

section \<open>Single bits of a word\<close>

lemma shifted_and_one: "(drop_bit n w AND 1 \<noteq> 0) \<longleftrightarrow> bit w n"
  for w :: "'a::len word"
  by (simp add: and_one_eq bit_iff_odd_drop_bit mod_2_eq_odd)

section \<open>Enumerations with a wire value\<close>

text \<open>
  The contract shared by the \<^verbatim>\<open>From\<close>/\<^verbatim>\<open>Into\<close> pairs of the protocol enumerations: decoding a raw
  value and encoding it again gives the raw value back. A value with an \<^verbatim>\<open>Unknown\<close> constructor
  may alias a named one, so the converse holds exactly on the values that decoding produces.
\<close>

locale wire_enum =
  fixes from_raw :: "'raw \<Rightarrow> 'enum"
    and into_raw :: "'enum \<Rightarrow> 'raw"
  assumes into_from: "into_raw (from_raw r) = r"
begin

lemma from_inject: "from_raw r = from_raw s \<longleftrightarrow> r = s"
  by (metis into_from)

lemma from_into_iff: "from_raw (into_raw e) = e \<longleftrightarrow> e \<in> range from_raw"
  by (metis into_from rangeE rangeI)

lemma from_into_from: "from_raw (into_raw (from_raw r)) = from_raw r"
  by (simp add: into_from)

end

end
