(* ===== verification/Net_Buffer.thy ===== *)
theory Net_Buffer
  imports Rust_Prelude
begin

text \<open>
  The packet buffer of \<^verbatim>\<open>extensions/networking/protocols/buffer.rs\<close>, the address cache of
  \<^verbatim>\<open>protocols.rs\<close> and the fixed-size address types \<^verbatim>\<open>[u8; 6]\<close> and \<^verbatim>\<open>[u8; 4]\<close>.
\<close>

section \<open>Fixed-size address arrays\<close>

datatype mac = Mac u8 u8 u8 u8 u8 u8

datatype ip4 = Ip4 u8 u8 u8 u8

primrec mac_bytes :: "mac \<Rightarrow> bytes" where
  "mac_bytes (Mac a b c d e f) = [a, b, c, d, e, f]"

primrec ip_bytes :: "ip4 \<Rightarrow> bytes" where
  "ip_bytes (Ip4 a b c d) = [a, b, c, d]"

definition pair_bytes :: "u8 \<times> u8 \<Rightarrow> bytes" where
  "pair_bytes p = [fst p, snd p]"

text \<open>\<^verbatim>\<open>slice.try_into().unwrap()\<close> to an array type.\<close>

definition mac_of_slice :: "bytes \<Rightarrow> mac exec" where
  "mac_of_slice s =
     (case s of [a, b, c, d, e, f] \<Rightarrow> Ret (Mac a b c d e f) | _ \<Rightarrow> Panic UnwrapFailed)"

definition ip_of_slice :: "bytes \<Rightarrow> ip4 exec" where
  "ip_of_slice s = (case s of [a, b, c, d] \<Rightarrow> Ret (Ip4 a b c d) | _ \<Rightarrow> Panic UnwrapFailed)"

definition pair_of_slice :: "bytes \<Rightarrow> (u8 \<times> u8) exec" where
  "pair_of_slice s = (case s of [a, b] \<Rightarrow> Ret (a, b) | _ \<Rightarrow> Panic UnwrapFailed)"

definition broadcast_mac :: mac where
  "broadcast_mac = Mac 0xff 0xff 0xff 0xff 0xff 0xff"

lemma mac_bytes_length [simp]: "length (mac_bytes m) = 6"
  by (cases m) simp

lemma ip_bytes_length [simp]: "length (ip_bytes i) = 4"
  by (cases i) simp

lemma pair_bytes_length [simp]: "length (pair_bytes p) = 2"
  by (simp add: pair_bytes_def)

lemma mac_of_slice_bytes [word_codec, simp]: "mac_of_slice (mac_bytes m) = Ret m"
  by (cases m) (simp add: mac_of_slice_def)

lemma ip_of_slice_bytes [word_codec, simp]: "ip_of_slice (ip_bytes i) = Ret i"
  by (cases i) (simp add: ip_of_slice_def)

lemma pair_of_slice_bytes [word_codec, simp]: "pair_of_slice (pair_bytes p) = Ret p"
  by (cases p) (simp add: pair_of_slice_def pair_bytes_def)

lemma mac_of_slice_length: "length s = 6 \<Longrightarrow> \<exists>m. mac_of_slice s = Ret m \<and> mac_bytes m = s"
  by (auto simp: mac_of_slice_def eval_nat_numeral length_Suc_conv)

lemma ip_of_slice_length: "length s = 4 \<Longrightarrow> \<exists>i. ip_of_slice s = Ret i \<and> ip_bytes i = s"
  by (auto simp: ip_of_slice_def eval_nat_numeral length_Suc_conv)

lemma pair_of_slice_length: "length s = 2 \<Longrightarrow> \<exists>p. pair_of_slice s = Ret p \<and> pair_bytes p = s"
  by (auto simp: pair_of_slice_def pair_bytes_def eval_nat_numeral length_Suc_conv)

lemma mac_bytes_inject [simp]: "mac_bytes m = mac_bytes n \<longleftrightarrow> m = n"
  by (cases m; cases n) simp

lemma ip_bytes_inject [simp]: "ip_bytes i = ip_bytes j \<longleftrightarrow> i = j"
  by (cases i; cases j) simp

section \<open>Buffer\<close>

record buffer =
  buf_data :: bytes
  buf_len :: nat

text \<open>The loop \<^verbatim>\<open>for (target, src) in target_data.iter_mut().zip(data.iter())\<close>.\<close>

fun zip_copy :: "'a list \<Rightarrow> 'a list \<Rightarrow> 'a list" where
  "zip_copy (t # ts) (s # ss) = s # zip_copy ts ss"
| "zip_copy ts _ = ts"

definition buffer_new :: "bytes \<Rightarrow> buffer" where
  "buffer_new data = \<lparr>buf_data = zip_copy (replicate 2048 0) data, buf_len = length data\<rparr>"

definition buffer_as_ref :: "buffer \<Rightarrow> bytes" where
  "buffer_as_ref b = buf_data b"

text \<open>The entries the \<^verbatim>\<open>Debug\<close> implementation lists.\<close>

definition buffer_debug_entries :: "buffer \<Rightarrow> bytes" where
  "buffer_debug_entries b = take (buf_len b) (buf_data b)"

definition buffer_wf :: "buffer \<Rightarrow> bool" where
  "buffer_wf b \<longleftrightarrow> length (buf_data b) = 2048"

lemma zip_copy_eq: "zip_copy ts ss = take (length ts) ss @ drop (length ss) ts"
  by (induction ts ss rule: zip_copy.induct) auto

lemma zip_copy_length [simp]: "length (zip_copy ts ss) = length ts"
  by (simp add: zip_copy_eq)

lemma buffer_new_wf [simp]: "buffer_wf (buffer_new data)"
  by (simp add: buffer_wf_def buffer_new_def)

lemma buffer_new_sel [simp]:
  "buf_len (buffer_new data) = length data"
  "length data \<le> 2048 \<Longrightarrow> buf_data (buffer_new data) = data @ replicate (2048 - length data) 0"
  "buffer_as_ref (buffer_new data) = buf_data (buffer_new data)"
  by (simp_all add: buffer_new_def zip_copy_eq buffer_as_ref_def)

text \<open>
  Beyond 2048 bytes the copy stops but the recorded length does not: the contents are the
  first 2048 bytes and the length is larger than the array.
\<close>

lemma buffer_new_truncates:
  "2048 < length data \<Longrightarrow>
     buf_data (buffer_new data) = take 2048 data \<and> length (buf_data (buffer_new data)) < buf_len (buffer_new data)"
  by (simp add: buffer_new_def zip_copy_eq)

lemma buffer_debug_entries_new: "length data \<le> 2048 \<Longrightarrow> buffer_debug_entries (buffer_new data) = data"
  by (simp add: buffer_debug_entries_def)

section \<open>IpMap\<close>

text \<open>
  The cache behind \<^verbatim>\<open>Arc<Mutex<BTreeMap<..>>>\<close>. Both operations run with interrupts disabled
  and under the lock, so each is one atomic step on the map.
\<close>

type_synonym ip_map = "ip4 \<rightharpoonup> mac"

definition ip_map_new :: ip_map where
  "ip_map_new = Map.empty"

definition ip_map_try_get :: "ip_map \<Rightarrow> ip4 \<Rightarrow> mac option" where
  "ip_map_try_get m ip = m ip"

definition ip_map_set :: "ip_map \<Rightarrow> ip4 \<Rightarrow> mac \<Rightarrow> ip_map" where
  "ip_map_set m ip mac = m(ip \<mapsto> mac)"

text \<open>What a client of the cache relies on: the laws of a map with update and lookup.\<close>

locale address_cache =
  fixes cache_new :: 'm
    and cache_get :: "'m \<Rightarrow> 'k \<Rightarrow> 'v option"
    and cache_set :: "'m \<Rightarrow> 'k \<Rightarrow> 'v \<Rightarrow> 'm"
  assumes get_new: "cache_get cache_new k = None"
    and get_set: "cache_get (cache_set m k v) k' = (if k' = k then Some v else cache_get m k')"
begin

lemma get_set_same: "cache_get (cache_set m k v) k = Some v"
  by (simp add: get_set)

lemma get_set_latest: "cache_get (cache_set (cache_set m k v) k w) k' = cache_get (cache_set m k w) k'"
  by (simp add: get_set)

lemma get_fold_set:
  "cache_get (fold (\<lambda>(k, v) m. cache_set m k v) kvs m) k =
     (case map_of (rev kvs) k of None \<Rightarrow> cache_get m k | Some v \<Rightarrow> Some v)"
proof (induction kvs arbitrary: m)
  case Nil
  then show ?case by simp
next
  case (Cons kv kvs)
  show ?case
    by (cases kv) (auto simp: Cons.IH get_set map_add_def split: option.split)
qed

end

interpretation ip_cache: address_cache ip_map_new ip_map_try_get ip_map_set
  by unfold_locales (simp_all add: ip_map_new_def ip_map_try_get_def ip_map_set_def)

end
