(* ===== verification/Ethernet.thy ===== *)
theory Ethernet
  imports Net_Buffer
begin

text \<open>
  \<^verbatim>\<open>extensions/networking/protocols/ethernet.rs\<close>: the frame type tag, the accessors of a
  received frame and the typestate builder that lays a frame out. \<open>eth_frame\<close> is the
  reference layout of a frame; the builder is shown to produce it and the accessors to
  read it back.
\<close>

section \<open>EthType\<close>

datatype eth_type =
    Eth_Ipv4
  | Eth_Ipv6
  | Eth_Arp
  | Eth_WakeOnLan
  | Eth_Unknown "u8 \<times> u8"

definition eth_type_from :: "u8 \<times> u8 \<Rightarrow> eth_type" where
  "eth_type_from raw =
     (if raw = (0x08, 0x00) then Eth_Ipv4
      else if raw = (0x08, 0x06) then Eth_Arp
      else if raw = (0x08, 0x42) then Eth_WakeOnLan
      else if raw = (0x86, 0xdd) then Eth_Ipv6
      else Eth_Unknown raw)"

primrec eth_type_into :: "eth_type \<Rightarrow> u8 \<times> u8" where
  "eth_type_into Eth_Ipv4 = (0x08, 0x00)"
| "eth_type_into Eth_Arp = (0x08, 0x06)"
| "eth_type_into Eth_WakeOnLan = (0x08, 0x42)"
| "eth_type_into Eth_Ipv6 = (0x86, 0xdd)"
| "eth_type_into (Eth_Unknown u) = u"

interpretation eth_type_wire: wire_enum eth_type_from eth_type_into
  by unfold_locales (simp add: eth_type_from_def)

lemma eth_type_from_into_named [simp]:
  "eth_type_from (eth_type_into Eth_Ipv4) = Eth_Ipv4"
  "eth_type_from (eth_type_into Eth_Ipv6) = Eth_Ipv6"
  "eth_type_from (eth_type_into Eth_Arp) = Eth_Arp"
  "eth_type_from (eth_type_into Eth_WakeOnLan) = Eth_WakeOnLan"
  by (simp_all add: eth_type_from_def)

section \<open>Packet\<close>

record eth_packet =
  eth_buffer :: buffer

definition eth_packet_new :: "buffer \<Rightarrow> eth_packet" where
  "eth_packet_new b = \<lparr>eth_buffer = b\<rparr>"

definition eth_destination_mac :: "eth_packet \<Rightarrow> mac exec" where
  "eth_destination_mac p = xbind (slice_range (buffer_as_ref (eth_buffer p)) 0 6) mac_of_slice"

definition eth_source_mac :: "eth_packet \<Rightarrow> mac exec" where
  "eth_source_mac p = xbind (slice_range (buffer_as_ref (eth_buffer p)) 6 12) mac_of_slice"

definition eth_ether_type :: "eth_packet \<Rightarrow> eth_type exec" where
  "eth_ether_type p =
     xbind (xbind (slice_range (buffer_as_ref (eth_buffer p)) 12 14) pair_of_slice)
       (\<lambda>raw. Ret (eth_type_from raw))"

definition eth_content :: "eth_packet \<Rightarrow> bytes exec" where
  "eth_content p = slice_range (buffer_as_ref (eth_buffer p)) 14 (buf_len (eth_buffer p))"

definition eth_into_buffer :: "eth_packet \<Rightarrow> buffer" where
  "eth_into_buffer p = eth_buffer p"

section \<open>PacketBuilder\<close>

text \<open>The builder's states; \<^verbatim>\<open>InitialState\<close> has no fields and is the unit type.\<close>

record eth_source_state =
  ess_source :: mac

record eth_destination_state =
  eds_source :: mac
  eds_destination :: mac

record eth_ether_type_state =
  ets_source :: mac
  ets_destination :: mac
  ets_ether_ty :: "u8 \<times> u8"

definition eth_builder_new :: unit where
  "eth_builder_new = ()"

definition eth_builder_source :: "unit \<Rightarrow> mac \<Rightarrow> eth_source_state" where
  "eth_builder_source b m = \<lparr>ess_source = m\<rparr>"

definition eth_builder_destination :: "eth_source_state \<Rightarrow> mac \<Rightarrow> eth_destination_state" where
  "eth_builder_destination s m = \<lparr>eds_source = ess_source s, eds_destination = m\<rparr>"

definition eth_builder_ether_ty :: "eth_destination_state \<Rightarrow> u8 \<times> u8 \<Rightarrow> eth_ether_type_state" where
  "eth_builder_ether_ty s ty =
     \<lparr>ets_source = eds_source s, ets_destination = eds_destination s, ets_ether_ty = ty\<rparr>"

text \<open>
  A payload closure \<^verbatim>\<open>FnOnce(&mut [u8]) -> Result<usize, ()>\<close>: it hands back the slice it
  filled in and its result.
\<close>

type_synonym payload_fn = "bytes \<Rightarrow> (bytes \<times> nat option) exec"

definition eth_finish :: "eth_ether_type_state \<Rightarrow> payload_fn \<Rightarrow> eth_packet option exec" where
  "eth_finish s payload =
     xbind (copy_into (replicate 1500 0) 0 6 (mac_bytes (ets_destination s))) (\<lambda>content.
     xbind (copy_into content 6 12 (mac_bytes (ets_source s))) (\<lambda>content.
     xbind (copy_into content 12 14 (pair_bytes (ets_ether_ty s))) (\<lambda>content.
     xbind (on_slice_from content 14 payload) (\<lambda>(content, written).
     try_bind written (\<lambda>written_len.
     let len = max written_len 46 in
     xbind (add_usize len 14) (\<lambda>stop.
     xbind (slice_range content 0 stop) (\<lambda>frame.
     Ret (Some (eth_packet_new (buffer_new frame))))))))))"

section \<open>The frame layout\<close>

definition eth_frame :: "mac \<Rightarrow> mac \<Rightarrow> u8 \<times> u8 \<Rightarrow> bytes \<Rightarrow> bytes" where
  "eth_frame dst src ty body = mac_bytes dst @ mac_bytes src @ pair_bytes ty @ body"

definition eth_packet_of :: "bytes \<Rightarrow> eth_packet" where
  "eth_packet_of frame = eth_packet_new (buffer_new frame)"

lemma eth_frame_length [simp]: "length (eth_frame dst src ty body) = 14 + length body"
  by (simp add: eth_frame_def)

lemma eth_header_writes:
  "xbind (copy_into (replicate 1500 0) 0 6 (mac_bytes d)) (\<lambda>c.
   xbind (copy_into c 6 12 (mac_bytes s)) (\<lambda>c.
   xbind (copy_into c 12 14 (pair_bytes t)) k)) =
   k (eth_frame d s t (replicate 1486 0))"
  by (simp add: eth_frame_def rust_simps)

lemma eth_finish_payload:
  "eth_finish s payload =
     xbind (payload (replicate 1486 0)) (\<lambda>(body, written).
     try_bind written (\<lambda>n.
     xbind (add_usize (max n 46) 14) (\<lambda>stop.
     xbind (slice_range (eth_frame (ets_destination s) (ets_source s) (ets_ether_ty s) body) 0 stop)
       (\<lambda>frame. Ret (Some (eth_packet_of frame))))))"
proof -
  have "on_slice_from (eth_frame d s t (replicate 1486 0)) 14 payload =
      xbind (payload (replicate 1486 0)) (\<lambda>(body, r). Ret (eth_frame d s t body, r))" for d s t
    by (simp add: rust_simps) (simp add: eth_frame_def)
  then show ?thesis
    unfolding eth_finish_def eth_header_writes
    by (simp add: xbind_assoc Let_def eth_packet_of_def split_def)
qed

lemma eth_finish_ok:
  assumes "payload (replicate 1486 0) = Ret (body, Some n)" and "length body = 1486" and "n \<le> 1486"
  shows "eth_finish s payload =
    Ret (Some (eth_packet_of
      (eth_frame (ets_destination s) (ets_source s) (ets_ether_ty s) (take (max n 46) body))))"
  using assms
  by (simp add: eth_finish_payload rust_simps) (simp add: eth_frame_def)

lemma eth_finish_too_long:
  assumes "payload (replicate 1486 0) = Ret (body, Some n)" and "length body = 1486"
    and "1486 < n" and "n < 2 ^ 63"
  shows "eth_finish s payload = Panic IndexOutOfRange"
  using assms by (simp add: eth_finish_payload rust_simps slice_range_def)

lemma eth_finish_err:
  assumes "payload (replicate 1486 0) = Ret (body, None)"
  shows "eth_finish s payload = Ret None"
  using assms by (simp add: eth_finish_payload)

lemma eth_finish_panic:
  assumes "payload (replicate 1486 0) = Panic p"
  shows "eth_finish s payload = Panic p"
  using assms by (simp add: eth_finish_payload)

text \<open>The accessors read the layout back.\<close>

lemma eth_accessors_frame:
  assumes "length body \<le> 2034"
  shows "eth_destination_mac (eth_packet_of (eth_frame d s t body)) = Ret d"
    and "eth_source_mac (eth_packet_of (eth_frame d s t body)) = Ret s"
    and "eth_ether_type (eth_packet_of (eth_frame d s t body)) = Ret (eth_type_from t)"
    and "eth_content (eth_packet_of (eth_frame d s t body)) = Ret body"
proof -
  let ?p = "eth_packet_of (eth_frame d s t body)"
  have ref: "buffer_as_ref (eth_buffer ?p) = eth_frame d s t body @ replicate (2034 - length body) 0"
    using assms by (simp add: eth_packet_of_def eth_packet_new_def)
  have len: "buf_len (eth_buffer ?p) = 14 + length body"
    by (simp add: eth_packet_of_def eth_packet_new_def)
  show "eth_destination_mac ?p = Ret d" "eth_source_mac ?p = Ret s"
    "eth_ether_type ?p = Ret (eth_type_from t)" "eth_content ?p = Ret body"
    unfolding eth_destination_mac_def eth_source_mac_def eth_ether_type_def eth_content_def ref len
    by (simp_all add: rust_simps) (simp_all add: eth_frame_def)
qed

text \<open>
  On a received frame (any contents, any recorded length) the address and type accessors
  never panic, and the payload accessor panics exactly on a recorded length outside 14..2048.
\<close>

lemma eth_accessors_total:
  assumes "buffer_wf (eth_buffer p)"
  shows "\<not> panics (eth_destination_mac p)"
    and "\<not> panics (eth_source_mac p)"
    and "\<not> panics (eth_ether_type p)"
    and "panics (eth_content p) \<longleftrightarrow> \<not> (14 \<le> buf_len (eth_buffer p) \<and> buf_len (eth_buffer p) \<le> 2048)"
proof -
  let ?d = "buffer_as_ref (eth_buffer p)"
  have len: "length ?d = 2048"
    using assms by (simp add: buffer_as_ref_def buffer_wf_def)
  show "\<not> panics (eth_destination_mac p)"
    using mac_of_slice_length [of "take 6 ?d"] len
    by (auto simp: eth_destination_mac_def rust_simps not_panics_iff)
  show "\<not> panics (eth_source_mac p)"
    using mac_of_slice_length [of "take 6 (drop 6 ?d)"] len
    by (auto simp: eth_source_mac_def rust_simps not_panics_iff)
  show "\<not> panics (eth_ether_type p)"
    using pair_of_slice_length [of "take 2 (drop 12 ?d)"] len
    by (auto simp: eth_ether_type_def rust_simps not_panics_iff)
  show "panics (eth_content p) \<longleftrightarrow> \<not> (14 \<le> buf_len (eth_buffer p) \<and> buf_len (eth_buffer p) \<le> 2048)"
    by (simp add: eth_content_def len)
qed

section \<open>Payload closures\<close>

text \<open>
  Every layer gives the one below a closure that writes into a zeroed slice and reports a
  size. The contract of such a closure: given at least \<open>cap\<close> zero bytes it leaves \<open>image\<close>
  followed by zeros and reports \<open>count\<close>. The layers' closures are shown to keep it, so that a
  builder's frame is read off the contracts of the layers above it.
\<close>

definition fill :: "nat \<Rightarrow> bytes \<Rightarrow> bytes" where
  "fill n bs = take n (bs @ replicate n 0)"

lemma fill_length [simp]: "length (fill n bs) = n"
  by (simp add: fill_def)

lemma fill_short: "length bs \<le> n \<Longrightarrow> fill n bs = bs @ replicate (n - length bs) 0"
  by (simp add: fill_def)

lemma fill_take_zeros:
  "n \<le> m \<Longrightarrow> length bs \<le> m \<Longrightarrow> take n (bs @ replicate (m - length bs) 0) = fill n bs"
  by (auto simp: fill_def min_def)

lemma fill_append: "length xs \<le> n \<Longrightarrow> fill n (xs @ ys) = xs @ fill (n - length xs) ys"
  by (auto simp: fill_def min_def)

lemma take_fill: "k \<le> n \<Longrightarrow> take k (fill n bs) = fill k bs"
  by (auto simp: fill_def min_def)

locale payload_writer =
  fixes writer :: payload_fn
    and cap :: nat
    and image :: bytes
    and count :: nat
  assumes write_zeros:
      "cap \<le> m \<Longrightarrow> writer (replicate m 0) = Ret (image @ replicate (m - length image) 0, Some count)"
    and image_fits: "length image \<le> cap"
    and count_fits: "count \<le> cap"
begin

lemma eth_finish_frame:
  assumes "cap \<le> 1486"
  shows "eth_finish s writer =
    Ret (Some (eth_packet_of
      (eth_frame (ets_destination s) (ets_source s) (ets_ether_ty s) (fill (max count 46) image))))"
proof -
  have w: "writer (replicate 1486 0) = Ret (image @ replicate (1486 - length image) 0, Some count)"
    using assms by (rule write_zeros)
  have "length image \<le> 1486" "count \<le> 1486"
    using assms image_fits count_fits by simp_all
  then show ?thesis
    using eth_finish_ok [where payload = writer, OF w] by (simp add: fill_take_zeros del: take_append)
qed

end

text \<open>The closure of a caller that has its payload at hand: copy it to the front and report its length.\<close>

definition copy_payload :: "bytes \<Rightarrow> payload_fn" where
  "copy_payload bs buf = xbind (copy_into buf 0 (length bs) bs) (\<lambda>buf. Ret (buf, Some (length bs)))"

interpretation copy_writer: payload_writer "copy_payload bs" "length bs" bs "length bs" for bs
  by unfold_locales (simp_all add: copy_payload_def rust_simps)

section \<open>Properties\<close>

text \<open>
  C15: a frame built by the frame builder is read back by the accessors: both addresses, the type
  and the payload, which is padded with zeros to the 46 bytes Ethernet asks for.
\<close>

theorem eth_build_parse:
  assumes "payload_writer w cap img n" and "cap \<le> 1486"
  shows "\<exists>p. eth_finish (eth_builder_ether_ty (eth_builder_destination
        (eth_builder_source eth_builder_new sm) dm) ty) w = Ret (Some p) \<and>
      eth_destination_mac p = Ret dm \<and> eth_source_mac p = Ret sm \<and>
      eth_ether_type p = Ret (eth_type_from ty) \<and> eth_content p = Ret (fill (max n 46) img) \<and>
      buf_len (eth_buffer p) = 14 + max n 46"
proof -
  have "n \<le> 1486"
    using payload_writer.count_fits [OF assms(1)] assms(2) by simp
  then show ?thesis
    using payload_writer.eth_finish_frame [OF assms]
    by (simp add: eth_builder_ether_ty_def eth_builder_destination_def eth_builder_source_def
        eth_accessors_frame) (simp add: eth_packet_of_def eth_packet_new_def)
qed

theorem eth_build_parse_witness:
  "\<exists>p. eth_finish (eth_builder_ether_ty (eth_builder_destination
        (eth_builder_source eth_builder_new (Mac 1 2 3 4 5 6)) broadcast_mac) (8, 6)) (copy_payload [7, 9]) =
        Ret (Some p) \<and>
      eth_destination_mac p = Ret broadcast_mac \<and> eth_source_mac p = Ret (Mac 1 2 3 4 5 6) \<and>
      eth_ether_type p = Ret Eth_Arp \<and> eth_content p = Ret ([7, 9] @ replicate 44 0) \<and>
      buf_len (eth_buffer p) = 60"
  using eth_build_parse [OF copy_writer.payload_writer_axioms, of "[7, 9]" "Mac 1 2 3 4 5 6" broadcast_mac "(8, 6)"]
  by (simp add: eth_type_from_def fill_short)

text \<open>
  C16: on whatever bytes the card delivers, the address and type accessors do not panic; the
  payload accessor panics exactly when the frame is shorter than its header or longer than
  the buffer, and otherwise delivers the bytes after the header.
\<close>

theorem eth_received_total:
  "\<not> panics (eth_destination_mac (eth_packet_new (buffer_new frame))) \<and>
   \<not> panics (eth_source_mac (eth_packet_new (buffer_new frame))) \<and>
   \<not> panics (eth_ether_type (eth_packet_new (buffer_new frame))) \<and>
   eth_content (eth_packet_new (buffer_new frame)) =
     (if 14 \<le> length frame \<and> length frame \<le> 2048 then Ret (drop 14 frame) else Panic IndexOutOfRange)"
proof -
  let ?p = "eth_packet_new (buffer_new frame)"
  have wf: "buffer_wf (eth_buffer ?p)"
    by (simp add: eth_packet_new_def)
  have "eth_content ?p = (if 14 \<le> length frame \<and> length frame \<le> 2048
      then Ret (drop 14 frame) else Panic IndexOutOfRange)"
    using buffer_new_wf [of frame, unfolded buffer_wf_def]
    by (simp add: eth_content_def eth_packet_new_def slice_range_def)
  then show ?thesis
    using eth_accessors_total [OF wf] by simp
qed

end
