(* ===== verification/Checksum.thy ===== *)
theory Checksum
  imports Rust_Prelude
begin

text \<open>
  The 16-bit sums of \<^verbatim>\<open>ipv4.rs\<close> and \<^verbatim>\<open>icmp.rs\<close> (\<^verbatim>\<open>chunks_exact(2)\<close>, big-endian words, a
  32-bit accumulator, one fold of the carries) and the ones'-complement sum of RFC 1071 as
  the reference they are compared with.
\<close>

fun be_words :: "bytes \<Rightarrow> u16 list" where
  "be_words (a # b # bs) = u16_from_be a b # be_words bs"
| "be_words _ = []"

text \<open>\<^verbatim>\<open>fold(0u32, |acc, elem| acc + elem as u32)\<close>, and the equivalent \<^verbatim>\<open>sum()\<close>.\<close>

fun sum_words :: "u32 \<Rightarrow> u16 list \<Rightarrow> u32 exec" where
  "sum_words acc [] = Ret acc"
| "sum_words acc (w # ws) = xbind (add_w acc (ucast w)) (\<lambda>acc. sum_words acc ws)"

definition fold_carries :: "u32 \<Rightarrow> u16 exec" where
  "fold_carries raw =
     (let overflows = ucast (drop_bit 16 raw); raw_checksum = ucast (raw AND 0xffff)
      in xbind (add_w raw_checksum overflows) (\<lambda>s. Ret (NOT s)))"

section \<open>The reference: ones'-complement addition\<close>

definition oc_add :: "u16 \<Rightarrow> u16 \<Rightarrow> u16" where
  "oc_add a b =
     (if unat a + unat b < 65536 then a + b else of_nat (unat a + unat b - 65535))"

definition oc_sum :: "u16 list \<Rightarrow> u16" where
  "oc_sum ws = foldl oc_add 0 ws"

definition word_total :: "u16 list \<Rightarrow> nat" where
  "word_total ws = sum_list (map unat ws)"

text \<open>A block of words with its checksum in place is accepted when the sum is all ones.\<close>

definition inet_valid :: "u16 list \<Rightarrow> bool" where
  "inet_valid ws \<longleftrightarrow> oc_sum ws = 0xffff"

lemma word_total_simps [simp]:
  "word_total [] = 0"
  "word_total (w # ws) = unat w + word_total ws"
  "word_total (xs @ ys) = word_total xs + word_total ys"
  by (simp_all add: word_total_def)

text \<open>The representative of a sum in the range \<open>1..65535\<close>, or \<open>0\<close> for an empty sum.\<close>

definition oc_rep :: "nat \<Rightarrow> nat" where
  "oc_rep n = (if n = 0 then 0 else (n - 1) mod 65535 + 1)"

lemma oc_rep_le: "oc_rep n \<le> 65535"
proof -
  have "(n - 1) mod 65535 < 65535"
    by simp
  then have "(n - 1) mod 65535 + 1 \<le> 65535"
    by linarith
  then show ?thesis
    by (simp add: oc_rep_def del: One_nat_def)
qed

lemma oc_add_rep:
  assumes "unat a = oc_rep n"
  shows "unat (oc_add a b) = oc_rep (n + unat b)"
proof (cases "n = 0")
  case True
  then have "a = 0"
    using assms by (simp add: oc_rep_def unsigned_eq_0_iff)
  moreover have "unat b < 65536"
    by (rule unat_lt_u16)
  ultimately show ?thesis
    using True by (auto simp: oc_add_def oc_rep_def)
next
  case False
  define r where "r = (n - 1) mod 65535"
  have r: "r < 65535" "unat a = r + 1"
    using assms False by (simp_all add: r_def oc_rep_def)
  have b: "unat b < 65536"
    by (rule unat_lt_u16)
  have n: "(n + unat b - 1) mod 65535 = (r + unat b) mod 65535"
  proof -
    have "n + unat b - 1 = (n - 1) + unat b"
      using False by simp
    then show ?thesis
      by (simp add: r_def mod_add_left_eq)
  qed
  show ?thesis
  proof (cases "r + 1 + unat b < 65536")
    case True
    then have "(r + unat b) mod 65535 = r + unat b"
      by simp
    with True r n False show ?thesis
      by (simp add: oc_add_def oc_rep_def unat_word_ariths)
  next
    case over: False
    have "r + unat b - 65535 < 65535"
      using r b by simp
    then have "(r + unat b) mod 65535 = r + unat b - 65535"
      using over r b by (simp add: le_mod_geq)
    moreover have "unat (oc_add a b) = r + 1 + unat b - 65535"
      using over r b by (simp add: oc_add_def unat_of_nat del: of_nat_add of_nat_diff)
    ultimately show ?thesis
      using over n False by (simp add: oc_rep_def)
  qed
qed

lemma oc_foldl_rep: "unat acc = oc_rep n \<Longrightarrow> unat (foldl oc_add acc ws) = oc_rep (n + word_total ws)"
proof (induction ws arbitrary: acc n)
  case Nil
  then show ?case by simp
next
  case (Cons w ws)
  from Cons.prems have "unat (oc_add acc w) = oc_rep (n + unat w)"
    by (rule oc_add_rep)
  then have "unat (foldl oc_add (oc_add acc w) ws) = oc_rep (n + unat w + word_total ws)"
    by (rule Cons.IH)
  then show ?case
    by (simp add: add.assoc)
qed

lemma unat_oc_sum: "unat (oc_sum ws) = oc_rep (word_total ws)"
  using oc_foldl_rep [of 0 0 ws] by (simp add: oc_sum_def oc_rep_def)

lemma inet_valid_iff: "inet_valid ws \<longleftrightarrow> 0 < word_total ws \<and> 65535 dvd word_total ws"
proof -
  have "inet_valid ws \<longleftrightarrow> oc_rep (word_total ws) = 65535"
    by (simp add: inet_valid_def word_unat_eq_iff unat_oc_sum)
  also have "\<dots> \<longleftrightarrow> 0 < word_total ws \<and> 65535 dvd word_total ws"
    by (cases "word_total ws") (auto simp: oc_rep_def dvd_eq_mod_eq_0 mod_Suc)
  finally show ?thesis .
qed

section \<open>The code's sum against the reference\<close>

lemma sum_words_Ret:
  "unat acc + word_total ws < 2 ^ 32 \<Longrightarrow>
     \<exists>s. sum_words acc ws = Ret s \<and> unat s = unat acc + word_total ws"
proof (induction ws arbitrary: acc)
  case Nil
  then show ?case by simp
next
  case (Cons w ws)
  have w: "unat (ucast w :: u32) = unat w"
    by (simp add: unat_ucast_up)
  from Cons.prems w have add: "add_w acc (ucast w) = Ret (acc + ucast w)"
    by (simp add: add_w_def)
  from add_w_unat [OF add] w have "unat (acc + ucast w) = unat acc + unat w"
    by simp
  with Cons.IH [of "acc + ucast w"] Cons.prems add show ?case
    by (simp add: add.assoc)
qed

lemma word_total_le: "word_total ws \<le> 65535 * length ws"
proof (induction ws)
  case (Cons w ws)
  then show ?case
    using unat_lt_u16 [of w] by simp
qed simp

lemma sum_words_total:
  assumes "length ws \<le> 65536"
  shows "\<exists>s. sum_words 0 ws = Ret s \<and> unat s = word_total ws"
proof -
  have "word_total ws \<le> 65535 * 65536"
    using word_total_le [of ws] assms by (meson le_trans mult_le_mono2)
  then show ?thesis
    using sum_words_Ret [of 0 ws] by simp
qed

lemma halves_unat:
  "unat (ucast (raw AND 0xffff) :: u16) = unat raw mod 65536"
  "unat (ucast (drop_bit 16 raw) :: u16) = unat raw div 65536"
  for raw :: u32
proof -
  have "(0xffff :: u32) = mask 16"
    by (simp add: mask_eq_exp_minus_1)
  moreover have "(ucast (raw AND mask 16) :: u16) = ucast raw"
    by (rule bit_word_eqI) (auto simp: bit_simps)
  ultimately have "(ucast (raw AND 0xffff) :: u16) = ucast raw"
    by simp
  then show "unat (ucast (raw AND 0xffff) :: u16) = unat raw mod 65536"
    by (simp add: unsigned_ucast_eq take_bit_eq_mod)
  have "unat raw < 65536 * 65536"
    using unsigned_less [of raw, where ?'a = nat] by simp
  then have "unat raw div 65536 < 65536"
    by (simp add: div_less_iff_less_mult)
  then show "unat (ucast (drop_bit 16 raw) :: u16) = unat raw div 65536"
    by (simp add: unsigned_ucast_eq unat_drop_bit_eq drop_bit_eq_div take_bit_eq_mod unat_div)
qed

lemma fold_carries_eq:
  "fold_carries raw =
     (if unat raw mod 65536 + unat raw div 65536 < 65536
      then Ret (NOT (of_nat (unat raw mod 65536 + unat raw div 65536)))
      else Panic ArithOverflow)"
proof -
  let ?lo = "ucast (raw AND 0xffff) :: u16" and ?hi = "ucast (drop_bit 16 raw) :: u16"
  have "?lo = of_nat (unat raw mod 65536)" "?hi = of_nat (unat raw div 65536)"
    by (simp_all flip: halves_unat)
  then have "?lo + ?hi = of_nat (unat raw mod 65536 + unat raw div 65536)"
    by simp
  then show ?thesis
    by (simp add: fold_carries_def add_w_def halves_unat)
qed

lemma unat_not_u16: "unat (NOT w) = 65535 - unat w" for w :: u16
proof -
  have "NOT w = - 1 - w"
    by (simp add: not_eq_complement)
  then show ?thesis
    by (simp add: unat_sub unsigned_minus_1_eq_mask mask_eq_exp_minus_1)
qed

text \<open>
  Putting the complement of the folded sum into the block makes the block valid, whenever
  the fold does not overflow.
\<close>

lemma fold_carries_valid:
  assumes "unat raw = n" and "fold_carries raw = Ret c"
  shows "0 < n + unat c \<and> 65535 dvd n + unat c"
proof -
  let ?s = "n mod 65536 + n div 65536"
  from assms have s: "?s < 65536" and c: "c = NOT (of_nat ?s)"
    by (auto simp: fold_carries_eq split: if_splits)
  from s c have uc: "unat c = 65535 - ?s"
    by (simp add: unat_not_u16 unat_of_nat del: of_nat_add)
  define q r where "q = n div 65536" and "r = n mod 65536"
  have "n = 65536 * q + r"
    by (simp add: q_def r_def)
  moreover from s uc have "r + q < 65536" "unat c = 65535 - (r + q)"
    by (simp_all add: q_def r_def)
  ultimately have "n + unat c = 65535 * (q + 1)"
    by simp
  then show ?thesis
    by simp
qed

end
