(* ===== verification/Ipv4.thy ===== *)
theory Ipv4
  imports Ethernet Checksum
begin

text \<open>
  \<^verbatim>\<open>extensions/networking/protocols/ipv4.rs\<close>: address classes, the protocol tag, the packet
  header with its checksum, the accessors of a received packet and the typestate builder.
\<close>

section \<open>Addresses\<close>

datatype address_type = Lan | Wan | Loopback

definition address_from :: "ip4 \<Rightarrow> ip4" where
  "address_from raw = raw"

definition address_into :: "ip4 \<Rightarrow> ip4" where
  "address_into a = a"

primrec address_ty :: "ip4 \<Rightarrow> address_type" where
  "address_ty (Ip4 a b c d) =
     (if a = 127 then Loopback
      else if a = 10 \<or> (a = 192 \<and> b = 0 \<and> c = 0) \<or> (a = 192 \<and> b = 168) then Lan
      else Wan)"

section \<open>Protocol\<close>

datatype protocol = Icmp | Udp | Tcp | Proto_Unknown u8

primrec protocol_into :: "protocol \<Rightarrow> u8" where
  "protocol_into Icmp = 1"
| "protocol_into Udp = 17"
| "protocol_into Tcp = 6"
| "protocol_into (Proto_Unknown p) = p"

definition protocol_from :: "u8 \<Rightarrow> protocol" where
  "protocol_from raw =
     (if raw = 1 then Icmp else if raw = 6 then Tcp else if raw = 17 then Udp
      else Proto_Unknown raw)"

interpretation protocol_wire: wire_enum protocol_from protocol_into
  by unfold_locales (simp add: protocol_from_def)

lemma protocol_from_into_named [simp]:
  "protocol_from 1 = Icmp" "protocol_from 6 = Tcp" "protocol_from 17 = Udp"
  by (simp_all add: protocol_from_def)

section \<open>PacketHeader\<close>

record ipv4_header =
  ih_version :: u8
  ih_ihl :: u8
  ih_dscp :: u8
  ih_ecn :: u8
  ih_total_length :: u16
  ih_identification :: u16
  ih_flags :: u8
  ih_fragment_offset :: u16
  ih_ttl :: u8
  ih_protocol :: protocol
  ih_header_checksum :: u16
  ih_source_ip :: ip4
  ih_destination_ip :: ip4

definition ipv4_to_bytes :: "ipv4_header \<Rightarrow> bytes \<Rightarrow> (bytes \<times> unit option) exec" where
  "ipv4_to_bytes h target =
     (if length target < 20 then Ret (target, None)
      else
        xbind (set_at target 0 (0 OR push_bit 4 (ih_version h) OR (ih_ihl h AND 0x0f))) (\<lambda>target.
        xbind (set_at target 1 (0 OR push_bit 1 (ih_dscp h) OR (ih_ecn h AND 0x01))) (\<lambda>target.
        xbind (copy_into target 2 4 (u16_to_be (ih_total_length h))) (\<lambda>target.
        xbind (copy_into target 4 6 (u16_to_be (ih_identification h))) (\<lambda>target.
        xbind (copy_into target 6 8 (u16_to_be (ih_fragment_offset h))) (\<lambda>target.
        xbind (index_at target 6) (\<lambda>t6.
        xbind (set_at target 6 (t6 OR push_bit 5 (ih_flags h))) (\<lambda>target.
        xbind (set_at target 8 (ih_ttl h)) (\<lambda>target.
        xbind (set_at target 9 (protocol_into (ih_protocol h))) (\<lambda>target.
        xbind (copy_into target 10 12 (u16_to_be (ih_header_checksum h))) (\<lambda>target.
        xbind (copy_into target 12 16 (ip_bytes (ih_source_ip h))) (\<lambda>target.
        xbind (copy_into target 16 20 (ip_bytes (ih_destination_ip h))) (\<lambda>target.
        Ret (target, Some ()))))))))))))))"

definition ipv4_set_checksum :: "ipv4_header \<Rightarrow> ipv4_header exec" where
  "ipv4_set_checksum h =
     (let h = h\<lparr>ih_header_checksum := 0\<rparr> in
      xbind (ipv4_to_bytes h (replicate 20 0)) (\<lambda>(raw_bytes, _).
      xbind (sum_words 0 (be_words raw_bytes)) (\<lambda>raw_result.
      xbind (fold_carries raw_result) (\<lambda>c.
      Ret (h\<lparr>ih_header_checksum := c\<rparr>)))))"

section \<open>Packet\<close>

record ipv4_packet =
  ip_eth_packet :: eth_packet

definition ipv4_packet_new :: "eth_packet \<Rightarrow> ipv4_packet" where
  "ipv4_packet_new raw = \<lparr>ip_eth_packet = raw\<rparr>"

text \<open>The struct expression of \<^verbatim>\<open>header()\<close>, read from the bytes of the header.\<close>

definition ipv4_header_of :: "bytes \<Rightarrow> ipv4_header exec" where
  "ipv4_header_of header_data =
     xbind (index_at header_data 0) (\<lambda>b0.
     xbind (index_at header_data 1) (\<lambda>b1.
     xbind (xbind (slice_range header_data 2 4) be_u16) (\<lambda>total_length.
     xbind (xbind (slice_range header_data 4 6) be_u16) (\<lambda>identification.
     xbind (index_at header_data 7) (\<lambda>b7.
     xbind (index_at header_data 8) (\<lambda>b8.
     xbind (index_at header_data 9) (\<lambda>b9.
     xbind (xbind (slice_range header_data 10 12) be_u16) (\<lambda>header_checksum.
     xbind (xbind (slice_range header_data 12 16) ip_of_slice) (\<lambda>source_ip.
     xbind (xbind (slice_range header_data 16 20) ip_of_slice) (\<lambda>destination_ip.
     Ret \<lparr>ih_version = drop_bit 4 b0,
          ih_ihl = b0 AND 0x0f,
          ih_dscp = drop_bit 2 b1,
          ih_ecn = b1 AND 0x03,
          ih_total_length = total_length,
          ih_identification = identification,
          ih_flags = drop_bit 5 b7,
          ih_fragment_offset = u16_from_be (b7 AND 0x1f) b8,
          ih_ttl = b8,
          ih_protocol = protocol_from b9,
          ih_header_checksum = header_checksum,
          ih_source_ip = source_ip,
          ih_destination_ip = destination_ip\<rparr>))))))))))"

definition ipv4_packet_header :: "ipv4_packet \<Rightarrow> ipv4_header exec" where
  "ipv4_packet_header p =
     xbind (eth_content (ip_eth_packet p)) (\<lambda>raw_data.
     xbind (index_at raw_data 0) (\<lambda>first.
     let ihl = unat (first AND 0x0f); header_size = ihl * 4 in
     xbind (slice_range raw_data 0 header_size) ipv4_header_of))"

definition ipv4_packet_eth :: "ipv4_packet \<Rightarrow> eth_packet" where
  "ipv4_packet_eth p = ip_eth_packet p"

definition ipv4_packet_payload :: "ipv4_packet \<Rightarrow> bytes exec" where
  "ipv4_packet_payload p =
     xbind (eth_content (ip_eth_packet p)) (\<lambda>raw_data.
     xbind (index_at raw_data 0) (\<lambda>first.
     let ihl = unat (first AND 0x0f); header_size = ihl * 4 in
     slice_from raw_data header_size))"

section \<open>PacketBuilder\<close>

record ipv4_dscp_state =
  i1_dscp :: u8

record ipv4_identification_state =
  i2_dscp :: u8
  i2_ident :: u16

record ipv4_ttl_state =
  i3_dscp :: u8
  i3_ident :: u16
  i3_ttl :: u8

record ipv4_protocol_state =
  i4_dscp :: u8
  i4_ident :: u16
  i4_ttl :: u8
  i4_protocol :: protocol

record ipv4_source_state =
  i5_dscp :: u8
  i5_ident :: u16
  i5_ttl :: u8
  i5_protocol :: protocol
  i5_source :: ip4
  i5_source_mac :: mac

record ipv4_destination_state =
  ids_dscp :: u8
  ids_ident :: u16
  ids_ttl :: u8
  ids_protocol :: protocol
  ids_source :: ip4
  ids_source_mac :: mac
  ids_destination :: ip4
  ids_destination_mac :: mac

definition ipv4_builder_new :: unit where
  "ipv4_builder_new = ()"

definition ipv4_builder_dscp :: "unit \<Rightarrow> u8 \<Rightarrow> ipv4_dscp_state" where
  "ipv4_builder_dscp b dscp = \<lparr>i1_dscp = dscp\<rparr>"

definition ipv4_builder_identification :: "ipv4_dscp_state \<Rightarrow> u16 \<Rightarrow> ipv4_identification_state" where
  "ipv4_builder_identification s ident = \<lparr>i2_dscp = i1_dscp s, i2_ident = ident\<rparr>"

definition ipv4_builder_ttl :: "ipv4_identification_state \<Rightarrow> u8 \<Rightarrow> ipv4_ttl_state" where
  "ipv4_builder_ttl s ttl = \<lparr>i3_dscp = i2_dscp s, i3_ident = i2_ident s, i3_ttl = ttl\<rparr>"

definition ipv4_builder_protocol :: "ipv4_ttl_state \<Rightarrow> protocol \<Rightarrow> ipv4_protocol_state" where
  "ipv4_builder_protocol s p =
     \<lparr>i4_dscp = i3_dscp s, i4_ident = i3_ident s, i4_ttl = i3_ttl s, i4_protocol = p\<rparr>"

definition ipv4_builder_source :: "ipv4_protocol_state \<Rightarrow> ip4 \<Rightarrow> mac \<Rightarrow> ipv4_source_state" where
  "ipv4_builder_source s source source_mac =
     \<lparr>i5_dscp = i4_dscp s, i5_ident = i4_ident s, i5_ttl = i4_ttl s, i5_protocol = i4_protocol s,
      i5_source = source, i5_source_mac = source_mac\<rparr>"

definition ipv4_builder_destination :: "ipv4_source_state \<Rightarrow> ip4 \<Rightarrow> mac \<Rightarrow> ipv4_destination_state" where
  "ipv4_builder_destination s destination destination_mac =
     \<lparr>ids_dscp = i5_dscp s, ids_ident = i5_ident s, ids_ttl = i5_ttl s, ids_protocol = i5_protocol s,
      ids_source = i5_source s, ids_source_mac = i5_source_mac s,
      ids_destination = destination, ids_destination_mac = destination_mac\<rparr>"

text \<open>
  The closure \<^verbatim>\<open>finish\<close> gives to the Ethernet builder. \<open>payload_size\<close> is the value of the
  closure of that name, which every caller passes as a constant.
\<close>

definition ipv4_builder_header :: "ipv4_destination_state \<Rightarrow> nat \<Rightarrow> ipv4_header" where
  "ipv4_builder_header s total_len =
     \<lparr>ih_version = 4, ih_ihl = 5, ih_dscp = ids_dscp s, ih_ecn = 0,
      ih_total_length = of_nat total_len, ih_identification = ids_ident s, ih_flags = 0,
      ih_fragment_offset = 0, ih_ttl = ids_ttl s, ih_protocol = ids_protocol s,
      ih_header_checksum = 0, ih_source_ip = ids_source s, ih_destination_ip = ids_destination s\<rparr>"

definition ipv4_eth_payload :: "ipv4_destination_state \<Rightarrow> payload_fn \<Rightarrow> nat \<Rightarrow> payload_fn" where
  "ipv4_eth_payload s payload payload_size eth_payload =
     xbind (add_usize 20 payload_size) (\<lambda>total_len.
     xbind (ipv4_set_checksum (ipv4_builder_header s total_len)) (\<lambda>header.
     xbind (on_slice eth_payload 0 20 (ipv4_to_bytes header)) (\<lambda>(eth_payload, r).
     xbind (unwrap r) (\<lambda>_.
     xbind (on_slice_from eth_payload 20 payload) (\<lambda>(eth_payload, res).
     case res of
       None \<Rightarrow> Ret (eth_payload, None)
     | Some written \<Rightarrow>
         xbind (assert_x (written = payload_size)) (\<lambda>_.
         xbind (add_usize 20 payload_size) (\<lambda>n.
         Ret (eth_payload, Some n))))))))"

definition ipv4_finish :: "ipv4_destination_state \<Rightarrow> payload_fn \<Rightarrow> nat \<Rightarrow> eth_packet option exec" where
  "ipv4_finish s payload payload_size =
     eth_finish
       (eth_builder_ether_ty
         (eth_builder_destination
           (eth_builder_source eth_builder_new (ids_source_mac s))
           (ids_destination_mac s))
         (eth_type_into Eth_Ipv4))
       (ipv4_eth_payload s payload payload_size)"

section \<open>The header layout\<close>

definition ipv4_header_bytes :: "ipv4_header \<Rightarrow> bytes" where
  "ipv4_header_bytes h =
     [push_bit 4 (ih_version h) OR (ih_ihl h AND 0x0f), push_bit 1 (ih_dscp h) OR (ih_ecn h AND 0x01)] @
     u16_to_be (ih_total_length h) @ u16_to_be (ih_identification h) @
     [ucast (drop_bit 8 (ih_fragment_offset h)) OR push_bit 5 (ih_flags h), ucast (ih_fragment_offset h),
      ih_ttl h, protocol_into (ih_protocol h)] @
     u16_to_be (ih_header_checksum h) @ ip_bytes (ih_source_ip h) @ ip_bytes (ih_destination_ip h)"

lemma ipv4_header_bytes_length [simp]: "length (ipv4_header_bytes h) = 20"
  by (simp add: ipv4_header_bytes_def)

lemma ipv4_to_bytes_short: "length t < 20 \<Longrightarrow> ipv4_to_bytes h t = Ret (t, None)"
  by (simp add: ipv4_to_bytes_def)

lemma ipv4_to_bytes_eq:
  assumes "20 \<le> length t"
  shows "ipv4_to_bytes h t = Ret (ipv4_header_bytes h @ drop 20 t, Some ())"
proof -
  have "t \<noteq> []"
    using assms by auto
  then show ?thesis
    using assms
    by (simp add: ipv4_to_bytes_def ipv4_header_bytes_def rust_simps u16_to_be_def)
qed

lemma be_words_header:
  "word_total (be_words (ipv4_header_bytes (h\<lparr>ih_header_checksum := c\<rparr>))) =
     word_total (be_words (ipv4_header_bytes (h\<lparr>ih_header_checksum := 0\<rparr>))) + unat c"
proof -
  obtain a1 a2 a3 a4 where s: "ih_source_ip h = Ip4 a1 a2 a3 a4"
    by (cases "ih_source_ip h")
  obtain b1 b2 b3 b4 where d: "ih_destination_ip h = Ip4 b1 b2 b3 b4"
    by (cases "ih_destination_ip h")
  have z: "u16_from_be 0 0 = 0"
    by (simp add: u16_from_be_def)
  show ?thesis
    by (simp add: ipv4_header_bytes_def u16_to_be_def s d z)
qed

lemma be_words_length: "length (be_words bs) = length bs div 2"
  by (induction bs rule: be_words.induct) simp_all

definition ipv4_header_total :: "ipv4_header \<Rightarrow> nat" where
  "ipv4_header_total h = word_total (be_words (ipv4_header_bytes (h\<lparr>ih_header_checksum := 0\<rparr>)))"

lemma ipv4_set_checksum_eq:
  "ipv4_set_checksum h =
     (let n = ipv4_header_total h in
      if n mod 65536 + n div 65536 < 65536
      then Ret (h\<lparr>ih_header_checksum := NOT (of_nat (n mod 65536 + n div 65536))\<rparr>)
      else Panic ArithOverflow)"
proof -
  let ?h = "h\<lparr>ih_header_checksum := 0\<rparr>"
  let ?ws = "be_words (ipv4_header_bytes ?h)"
  obtain s where s: "sum_words 0 ?ws = Ret s" "unat s = word_total ?ws"
    using sum_words_total [of ?ws] by (auto simp: be_words_length)
  then show ?thesis
    by (simp add: ipv4_set_checksum_def ipv4_to_bytes_eq fold_carries_eq ipv4_header_total_def Let_def)
qed

lemma ipv4_set_checksum_valid:
  assumes "ipv4_set_checksum h = Ret h'"
  shows "inet_valid (be_words (ipv4_header_bytes h'))"
    and "h' = h\<lparr>ih_header_checksum := ih_header_checksum h'\<rparr>"
proof -
  let ?n = "ipv4_header_total h"
  let ?c = "NOT (of_nat (?n mod 65536 + ?n div 65536)) :: u16"
  from assms have small: "?n mod 65536 + ?n div 65536 < 65536" and h': "h' = h\<lparr>ih_header_checksum := ?c\<rparr>"
    by (auto simp: ipv4_set_checksum_eq Let_def split: if_splits)
  show "h' = h\<lparr>ih_header_checksum := ih_header_checksum h'\<rparr>"
    by (simp add: h')
  have "?n < 2 ^ 32"
    using word_total_le [of "be_words (ipv4_header_bytes (h\<lparr>ih_header_checksum := 0\<rparr>))"]
    by (simp add: ipv4_header_total_def be_words_length)
  then have n: "unat (of_nat ?n :: u32) = ?n"
    by (simp add: unat_of_nat)
  then have "fold_carries (of_nat ?n) = Ret ?c"
    using small by (simp add: fold_carries_eq)
  from fold_carries_valid [OF n this] show "inet_valid (be_words (ipv4_header_bytes h'))"
    by (simp only: inet_valid_iff h' be_words_header [where h = h and c = ?c]
        ipv4_header_total_def [symmetric])
qed

section \<open>Reading a written header back\<close>

lemma nibble_mask: "(0x0f :: u8) = mask 4"
  by (simp add: mask_eq_exp_minus_1)

lemma low_nibble_version_byte: "(push_bit 4 v OR (i AND 0x0f)) AND 0x0f = i AND 0x0f" for v i :: u8
  unfolding nibble_mask by (rule bit_word_eqI) (auto simp: bit_simps)

lemma high_nibble_version_byte: "drop_bit 4 (push_bit 4 v) = take_bit 4 v" for v :: u8
  by (rule bit_word_eqI) (auto simp: bit_simps)

text \<open>
  What the parser makes of the 20 bytes the writer produced: every field but four comes
  back. The second byte is written with a shift of one and read with a shift of two, and
  flags and fragment offset are read one byte too late.
\<close>

definition ipv4_reread :: "ipv4_header \<Rightarrow> ipv4_header" where
  "ipv4_reread h =
     \<lparr>ih_version = take_bit 4 (ih_version h),
      ih_ihl = ih_ihl h AND 0x0f,
      ih_dscp = drop_bit 2 (push_bit 1 (ih_dscp h) OR (ih_ecn h AND 1)),
      ih_ecn = (push_bit 1 (ih_dscp h) OR (ih_ecn h AND 1)) AND 3,
      ih_total_length = ih_total_length h,
      ih_identification = ih_identification h,
      ih_flags = drop_bit 5 (ucast (ih_fragment_offset h)),
      ih_fragment_offset = u16_from_be (ucast (ih_fragment_offset h) AND 0x1f) (ih_ttl h),
      ih_ttl = ih_ttl h,
      ih_protocol = protocol_from (protocol_into (ih_protocol h)),
      ih_header_checksum = ih_header_checksum h,
      ih_source_ip = ih_source_ip h,
      ih_destination_ip = ih_destination_ip h\<rparr>"

lemma ipv4_packet_header_bytes:
  assumes "eth_content (ip_eth_packet p) = Ret (ipv4_header_bytes h @ rest)"
    and "ih_ihl h AND 0x0f = 5"
  shows "ipv4_packet_header p = Ret (ipv4_reread h)"
    and "ipv4_packet_payload p = Ret rest"
proof -
  let ?c = "ipv4_header_bytes h @ rest"
  have first: "index_at ?c 0 = Ret (push_bit 4 (ih_version h) OR (ih_ihl h AND 0x0f))"
    by (simp add: index_at_def ipv4_header_bytes_def)
  have size: "unat ((push_bit 4 (ih_version h) OR (ih_ihl h AND 0x0f)) AND 0x0f) * 4 = 20"
    unfolding low_nibble_version_byte by (simp add: assms(2))
  have hd: "slice_range ?c 0 20 = Ret (ipv4_header_bytes h)"
    by (simp add: rust_simps)
  show "ipv4_packet_payload p = Ret rest"
    unfolding ipv4_packet_payload_def assms(1) xbind.simps first Let_def size
    by (simp add: rust_simps)
  show "ipv4_packet_header p = Ret (ipv4_reread h)"
    unfolding ipv4_packet_header_def assms(1) xbind.simps first Let_def size hd
    by (simp add: rust_simps ipv4_header_of_def, simp add: ipv4_header_bytes_def u16_to_be_def low_nibble_version_byte
        high_nibble_version_byte ipv4_reread_def)
qed

section \<open>Building a packet\<close>

lemma ipv4_eth_payload_eq:
  assumes "20 + n < 2 ^ 64"
  shows "ipv4_eth_payload s payload n (replicate 1486 0) =
    xbind (ipv4_set_checksum (ipv4_builder_header s (20 + n))) (\<lambda>h.
    xbind (payload (replicate 1466 0)) (\<lambda>(body, res).
    case res of
      None \<Rightarrow> Ret (ipv4_header_bytes h @ body, None)
    | Some m \<Rightarrow> xbind (assert_x (m = n)) (\<lambda>_. Ret (ipv4_header_bytes h @ body, Some (20 + n)))))"
proof -
  have hdr: "on_slice (replicate 1486 0) 0 20 (ipv4_to_bytes h) =
      Ret (ipv4_header_bytes h @ replicate 1466 0, Some ())" for h
    by (simp add: rust_simps ipv4_to_bytes_eq)
  have body: "on_slice_from (ipv4_header_bytes h @ replicate 1466 0) 20 payload =
      xbind (payload (replicate 1466 0)) (\<lambda>(ys, r). Ret (ipv4_header_bytes h @ ys, r))" for h
    by (simp add: rust_simps)
  show ?thesis
    using assms
    by (simp add: ipv4_eth_payload_def rust_simps hdr body xbind_assoc split_def cong: option.case_cong)
qed

lemma ipv4_finish_ok:
  assumes "payload (replicate 1466 0) = Ret (body, Some n)" and "length body = 1466" and "n \<le> 1466"
    and "ipv4_set_checksum (ipv4_builder_header s (20 + n)) = Ret h"
  shows "ipv4_finish s payload n =
    Ret (Some (eth_packet_of
      (eth_frame (ids_destination_mac s) (ids_source_mac s) (eth_type_into Eth_Ipv4)
         (ipv4_header_bytes h @ take (max n 26) body))))"
proof -
  have pay: "ipv4_eth_payload s payload n (replicate 1486 0) =
      Ret (ipv4_header_bytes h @ body, Some (20 + n))"
    using assms by (simp add: ipv4_eth_payload_eq)
  have "max (20 + n) 46 = 20 + max n 26"
    by simp
  then show ?thesis
    unfolding ipv4_finish_def
    using assms
    by (subst eth_finish_ok [where payload = "ipv4_eth_payload s payload n", OF pay])
       (simp_all add: eth_builder_ether_ty_def eth_builder_destination_def eth_builder_source_def)
qed

context payload_writer
begin

lemma ipv4_finish_frame:
  assumes "cap \<le> 1466" and h: "ipv4_set_checksum (ipv4_builder_header s (20 + count)) = Ret h"
  shows "ipv4_finish s writer count =
    Ret (Some (eth_packet_of
      (eth_frame (ids_destination_mac s) (ids_source_mac s) (eth_type_into Eth_Ipv4)
         (ipv4_header_bytes h @ fill (max count 26) image))))"
proof -
  have w: "writer (replicate 1466 0) = Ret (image @ replicate (1466 - length image) 0, Some count)"
    using assms(1) by (rule write_zeros)
  have "length image \<le> 1466" "count \<le> 1466"
    using assms(1) image_fits count_fits by simp_all
  then show ?thesis
    using ipv4_finish_ok [where payload = writer, OF w _ _ h] by (simp add: fill_take_zeros del: take_append)
qed

end

lemma ipv4_finish_checksum_panic:
  assumes "20 + n < 2 ^ 64" and "ipv4_set_checksum (ipv4_builder_header s (20 + n)) = Panic p"
  shows "ipv4_finish s payload n = Panic p"
  unfolding ipv4_finish_def
  using assms by (intro eth_finish_panic) (simp add: ipv4_eth_payload_eq)

lemma ipv4_finish_size_mismatch:
  assumes "payload (replicate 1466 0) = Ret (body, Some m)" and "m \<noteq> n" and "20 + n < 2 ^ 64"
    and "ipv4_set_checksum (ipv4_builder_header s (20 + n)) = Ret h"
  shows "ipv4_finish s payload n = Panic AssertionFailed"
  unfolding ipv4_finish_def
  using assms by (intro eth_finish_panic) (simp add: ipv4_eth_payload_eq)

text \<open>The header of a built packet after its checksum is set: one field differs.\<close>

lemma ipv4_built_header:
  assumes "ipv4_set_checksum (ipv4_builder_header s total_len) = Ret h"
  shows "h = (ipv4_builder_header s total_len)\<lparr>ih_header_checksum := ih_header_checksum h\<rparr>"
  using ipv4_set_checksum_valid(2) [OF assms] .

lemma ipv4_built_accessors:
  assumes h: "ipv4_set_checksum (ipv4_builder_header s total_len) = Ret h"
    and len: "length rest \<le> 2014"
    and p: "p = ipv4_packet_new (eth_packet_of (eth_frame d sm t (ipv4_header_bytes h @ rest)))"
  shows "ipv4_packet_header p = Ret (ipv4_reread h)"
    and "ipv4_packet_payload p = Ret rest"
proof -
  have "ih_ihl h = 5"
    using ipv4_built_header [OF h] by (metis (no_types, lifting) ipv4_builder_header_def ipv4_header.select_convs(2) ipv4_header.update_convs(11))
  then have ihl: "ih_ihl h AND 0x0f = 5"
    by simp
  have content: "eth_content (ip_eth_packet p) = Ret (ipv4_header_bytes h @ rest)"
    using len unfolding p ipv4_packet_new_def by (simp add: eth_accessors_frame)
  show "ipv4_packet_header p = Ret (ipv4_reread h)" "ipv4_packet_payload p = Ret rest"
    using ipv4_packet_header_bytes [OF content ihl] by simp_all
qed

section \<open>Received packets\<close>

text \<open>
  On any payload the frame accessor delivers, the header parser succeeds exactly when the
  length nibble announces at least 20 bytes and no more than are there.
\<close>

lemma ipv4_header_of_total: "panics (ipv4_header_of hdr) \<longleftrightarrow> length hdr < 20"
proof (cases "length hdr < 20")
  case True
  then have "slice_range hdr 16 20 = Panic IndexOutOfRange"
    by (simp add: slice_range_def)
  then have "\<not> (\<exists>h. ipv4_header_of hdr = Ret h)"
    by (auto simp: ipv4_header_of_def elim!: xbind_eq_RetE)
  with True show ?thesis
    using not_panics_iff by blast
next
  case False
  obtain si where si: "ip_of_slice (take 4 (drop 12 hdr)) = Ret si"
    using ip_of_slice_length [of "take 4 (drop 12 hdr)"] False by auto
  obtain di where di: "ip_of_slice (take 4 (drop 16 hdr)) = Ret di"
    using ip_of_slice_length [of "take 4 (drop 16 hdr)"] False by auto
  have "hdr \<noteq> []"
    using False by auto
  then have "\<not> panics (ipv4_header_of hdr)"
    using False si di by (simp add: ipv4_header_of_def rust_simps be_u16_length)
  with False show ?thesis
    by simp
qed

lemma ipv4_packet_header_total:
  assumes c: "eth_content (ip_eth_packet p) = Ret c"
  shows "panics (ipv4_packet_header p) \<longleftrightarrow>
    c = [] \<or> unat (c ! 0 AND 0x0f) < 5 \<or> length c < unat (c ! 0 AND 0x0f) * 4"
proof (cases "c = [] \<or> length c < unat (c ! 0 AND 0x0f) * 4")
  case True
  then show ?thesis
    by (auto simp: ipv4_packet_header_def c index_at_def slice_range_def Let_def)
next
  case False
  then have "ipv4_packet_header p = ipv4_header_of (take (unat (c ! 0 AND 0x0f) * 4) c)"
    by (simp add: ipv4_packet_header_def c index_at_def slice_range_def Let_def)
  with False show ?thesis
    by (auto simp: ipv4_header_of_total)
qed

section \<open>Properties\<close>

lemmas ipv4_builder_defs = ipv4_builder_new_def ipv4_builder_dscp_def ipv4_builder_identification_def
  ipv4_builder_ttl_def ipv4_builder_protocol_def ipv4_builder_source_def ipv4_builder_destination_def

text \<open>The fields a receiver relies on, as the builder was given them.\<close>

definition ipv4_delivered :: "ipv4_destination_state \<Rightarrow> nat \<Rightarrow> ipv4_header \<Rightarrow> bool" where
  "ipv4_delivered s n h \<longleftrightarrow>
     ih_version h = 4 \<and> ih_ihl h = 5 \<and> ih_total_length h = of_nat (20 + n) \<and>
     ih_identification h = ids_ident s \<and> ih_ttl h = ids_ttl s \<and>
     ih_protocol h = protocol_from (protocol_into (ids_protocol s)) \<and>
     ih_source_ip h = ids_source s \<and> ih_destination_ip h = ids_destination s"

lemma ipv4_reread_delivered:
  assumes "ipv4_set_checksum (ipv4_builder_header s (20 + n)) = Ret h"
  shows "ipv4_delivered s n (ipv4_reread h)"
    and "ih_fragment_offset (ipv4_reread h) = ucast (ids_ttl s)"
proof -
  obtain c where h: "h = (ipv4_builder_header s (20 + n))\<lparr>ih_header_checksum := c\<rparr>"
    using ipv4_built_header [OF assms] by blast
  show "ipv4_delivered s n (ipv4_reread h)"
    by (simp add: h ipv4_delivered_def ipv4_reread_def ipv4_builder_header_def)
  show "ih_fragment_offset (ipv4_reread h) = ucast (ids_ttl s)"
    by (simp add: h ipv4_reread_def ipv4_builder_header_def u16_from_be_def)
qed

lemma ipv4_built_total_length:
  "payload_writer w cap img n \<Longrightarrow> cap \<le> 1466 \<Longrightarrow> n \<le> 1466"
  by (drule payload_writer.count_fits) simp

text \<open>
  C18: building an IPv4 packet around any payload closure of at most 1466 bytes has two outcomes. If
  the sum of the header words needs only one fold of its carries, the packet is built, its
  header verifies under the Internet checksum, the parser returns the fields the builder was
  given and the payload accessor returns the closure's bytes. Otherwise the addition in the fold overflows
  and panics.
\<close>

theorem ipv4_build_checked:
  assumes w: "payload_writer w cap img n" and cap: "cap \<le> 1466"
  shows "let t = ipv4_header_total (ipv4_builder_header s (20 + n)) in
    if t mod 65536 + t div 65536 < 65536
    then \<exists>p c h. ipv4_finish s w n = Ret (Some p) \<and> eth_content p = Ret c \<and>
      inet_valid (be_words (take 20 c)) \<and>
      ipv4_packet_header (ipv4_packet_new p) = Ret h \<and> ipv4_delivered s n h \<and>
      ipv4_packet_payload (ipv4_packet_new p) = Ret (fill (max n 26) img)
    else ipv4_finish s w n = Panic ArithOverflow"
proof (cases "ipv4_set_checksum (ipv4_builder_header s (20 + n))")
  case (Ret h)
  let ?rest = "fill (max n 26) img"
  have n: "n \<le> 1466"
    using ipv4_built_total_length [OF w cap] .
  then have "length ?rest \<le> 2014"
    by simp
  note acc = ipv4_built_accessors [OF Ret this refl] and valid = ipv4_set_checksum_valid(1) [OF Ret]
  have "eth_content (eth_packet_of (eth_frame d sm t (ipv4_header_bytes h @ ?rest))) =
      Ret (ipv4_header_bytes h @ ?rest)" for d sm t
    using n by (simp add: eth_accessors_frame)
  then show ?thesis
    using Ret acc valid payload_writer.ipv4_finish_frame [OF w cap Ret]
      ipv4_reread_delivered(1) [OF Ret]
    by (auto simp: ipv4_set_checksum_eq Let_def split: if_splits)
next
  case (Panic p)
  have "20 + n < 2 ^ 64"
    using ipv4_built_total_length [OF w cap] by simp
  from ipv4_finish_checksum_panic [OF this Panic] show ?thesis
    using Panic by (auto simp: ipv4_set_checksum_eq Let_def split: if_splits)
qed

text \<open>A concrete packet: 192.168.0.2 to 192.168.0.1.\<close>

definition ipv4_sample :: ipv4_destination_state where
  "ipv4_sample =
     ipv4_builder_destination
       (ipv4_builder_source
         (ipv4_builder_protocol
           (ipv4_builder_ttl (ipv4_builder_identification (ipv4_builder_dscp ipv4_builder_new 0) 7) 20) Udp)
         (Ip4 192 168 0 2) (Mac 1 2 3 4 5 6))
       (Ip4 192 168 0 1) (Mac 6 5 4 3 2 1)"

lemma ipv4_sample_total:
  assumes "n < 65536"
  shows "ipv4_header_total (ipv4_builder_header ipv4_sample n) = 121451 + n"
proof -
  have words: "u16_from_be 69 0 = 0x4500" "u16_from_be 0 7 = 7" "u16_from_be 0 0 = 0"
    "u16_from_be 20 17 = 0x1411" "u16_from_be 192 168 = 0xc0a8" "u16_from_be 0 2 = 2" "u16_from_be 0 1 = 1"
    by (simp_all add: u16_from_be_def)
  show ?thesis
    using assms
    by (simp add: words ipv4_header_total_def ipv4_builder_header_def ipv4_sample_def
        ipv4_header_bytes_def ipv4_builder_defs u16_to_be_def unat_of_nat)
qed

lemma copy_pair_writer: "payload_writer (copy_payload [a, b]) 2 [a, b] 2"
  using copy_writer.payload_writer_axioms [of "[a, b]"] by (simp add: numeral_2_eq_2)

theorem ipv4_build_checked_witness:
  "\<exists>p c h. ipv4_finish ipv4_sample (copy_payload [7, 9]) 2 = Ret (Some p) \<and> eth_content p = Ret c \<and>
      inet_valid (be_words (take 20 c)) \<and>
      ipv4_packet_header (ipv4_packet_new p) = Ret h \<and> ipv4_delivered ipv4_sample 2 h \<and>
      ipv4_packet_payload (ipv4_packet_new p) = Ret ([7, 9] @ replicate 24 0)"
  using ipv4_build_checked [OF copy_pair_writer [of 7 9], of ipv4_sample]
  by (simp add: ipv4_sample_total fill_short)

text \<open>
  The fragment offset the parser reports for a packet this stack has built (never fragmented)
  is the packet's time to live: offset and flags are read one byte behind where they are written.
\<close>

lemma ipv4_offset_is_ttl:
  assumes w: "payload_writer w cap img n" and cap: "cap \<le> 1466"
    and built: "ipv4_finish s w n = Ret (Some p)"
  shows "\<exists>h. ipv4_packet_header (ipv4_packet_new p) = Ret h \<and> ih_fragment_offset h = ucast (ids_ttl s)"
proof (cases "ipv4_set_checksum (ipv4_builder_header s (20 + n))")
  case (Ret h)
  have "length (fill (max n 26) img) \<le> 2014"
    using ipv4_built_total_length [OF w cap] by simp
  from ipv4_built_accessors(1) [OF Ret this refl] show ?thesis
    using built payload_writer.ipv4_finish_frame [OF w cap Ret] ipv4_reread_delivered(2) [OF Ret] by auto
next
  case (Panic e)
  have "20 + n < 2 ^ 64"
    using ipv4_built_total_length [OF w cap] by simp
  from ipv4_finish_checksum_panic [OF this Panic] show ?thesis
    using built by simp
qed

text \<open>
  C19: on every received frame the buffer can hold, the header parser panics exactly when the
  payload is empty, its length nibble announces less than 20 bytes, or more bytes than were
  received.
\<close>

theorem ipv4_parse_total:
  assumes "14 \<le> length frame" and "length frame \<le> 2048"
  shows "panics (ipv4_packet_header (ipv4_packet_new (eth_packet_new (buffer_new frame)))) \<longleftrightarrow>
    length frame = 14 \<or> unat (frame ! 14 AND 0x0f) < 5 \<or>
    length frame < 14 + unat (frame ! 14 AND 0x0f) * 4"
proof -
  have "eth_content (ip_eth_packet (ipv4_packet_new (eth_packet_new (buffer_new frame)))) =
      Ret (drop 14 frame)"
    using assms by (simp add: ipv4_packet_new_def eth_content_def eth_packet_new_def rust_simps)
  from ipv4_packet_header_total [OF this] show ?thesis
    using assms by auto
qed

theorem ipv4_parse_total_witness:
  "panics (ipv4_packet_header (ipv4_packet_new (eth_packet_new (buffer_new (replicate 60 0)))))"
  using ipv4_parse_total [of "replicate 60 0"] by simp

end
