(* ===== verification/Udp.thy ===== *)
theory Udp
  imports Ipv4
begin

text \<open>
  \<^verbatim>\<open>extensions/networking/protocols/udp.rs\<close>: the datagram header, its parser and writer, the
  accessors of a received datagram and the builder on top of the IPv4 builder.
\<close>

section \<open>PacketHeader\<close>

record udp_header =
  uh_source_port :: u16
  uh_destination_port :: u16
  uh_length :: u16
  uh_checksum :: u16

definition udp_header_try_from :: "bytes \<Rightarrow> udp_header option exec" where
  "udp_header_try_from value =
     (if length value < 8 then Ret None
      else
        xbind (xbind (slice_range value 0 2) be_u16) (\<lambda>source_port.
        xbind (xbind (slice_range value 2 4) be_u16) (\<lambda>destination_port.
        xbind (xbind (slice_range value 4 6) be_u16) (\<lambda>len.
        xbind (xbind (slice_range value 6 8) be_u16) (\<lambda>checksum.
        Ret (Some \<lparr>uh_source_port = source_port, uh_destination_port = destination_port,
                   uh_length = len, uh_checksum = checksum\<rparr>))))))"

definition udp_header_to_bytes :: "udp_header \<Rightarrow> bytes \<Rightarrow> (bytes \<times> unit option) exec" where
  "udp_header_to_bytes h buffer =
     (if length buffer < 8 then Ret (buffer, None)
      else
        xbind (copy_into buffer 0 2 (u16_to_be (uh_source_port h))) (\<lambda>buffer.
        xbind (copy_into buffer 2 4 (u16_to_be (uh_destination_port h))) (\<lambda>buffer.
        xbind (copy_into buffer 4 6 (u16_to_be (uh_length h))) (\<lambda>buffer.
        xbind (copy_into buffer 6 8 (u16_to_be (uh_checksum h))) (\<lambda>buffer.
        Ret (buffer, Some ()))))))"

section \<open>Packet\<close>

record udp_packet =
  udp_ip :: ipv4_packet

definition udp_packet_new :: "ipv4_packet \<Rightarrow> udp_packet" where
  "udp_packet_new p = \<lparr>udp_ip = p\<rparr>"

definition udp_packet_header :: "udp_packet \<Rightarrow> udp_header exec" where
  "udp_packet_header p =
     xbind (ipv4_packet_payload (udp_ip p)) (\<lambda>payload.
     xbind (slice_range payload 0 8) (\<lambda>s.
     xbind (udp_header_try_from s) unwrap))"

definition udp_packet_payload :: "udp_packet \<Rightarrow> bytes exec" where
  "udp_packet_payload p = xbind (ipv4_packet_payload (udp_ip p)) (\<lambda>payload. slice_from payload 8)"

definition udp_packet_ip_packet :: "udp_packet \<Rightarrow> ipv4_packet" where
  "udp_packet_ip_packet p = udp_ip p"

section \<open>PacketBuilder\<close>

record udp_source_port_state =
  usp_source_port :: u16

record udp_destination_port_state =
  udp_source_port :: u16
  udp_destination_port :: u16

definition udp_builder_new :: unit where
  "udp_builder_new = ()"

definition udp_builder_source_port :: "unit \<Rightarrow> u16 \<Rightarrow> udp_source_port_state" where
  "udp_builder_source_port b port = \<lparr>usp_source_port = port\<rparr>"

definition udp_builder_destination_port :: "udp_source_port_state \<Rightarrow> u16 \<Rightarrow> udp_destination_port_state" where
  "udp_builder_destination_port s port =
     \<lparr>udp_source_port = usp_source_port s, udp_destination_port = port\<rparr>"

text \<open>The closure \<^verbatim>\<open>finish\<close> gives to the IPv4 builder.\<close>

definition udp_ip_payload :: "udp_destination_port_state \<Rightarrow> payload_fn \<Rightarrow> nat \<Rightarrow> payload_fn" where
  "udp_ip_payload s payload payload_size ip_payload =
     xbind (add_usize 8 payload_size) (\<lambda>len.
     let header = \<lparr>uh_source_port = udp_source_port s, uh_destination_port = udp_destination_port s,
                   uh_length = of_nat len, uh_checksum = 0\<rparr> in
     xbind (on_slice ip_payload 0 8 (udp_header_to_bytes header)) (\<lambda>(ip_payload, _).
     xbind (on_slice_from ip_payload 8 payload) (\<lambda>(ip_payload, res).
     case res of
       None \<Rightarrow> Ret (ip_payload, None)
     | Some written \<Rightarrow>
         xbind (assert_x (written = payload_size)) (\<lambda>_.
         xbind (add_usize 8 payload_size) (\<lambda>n.
         Ret (ip_payload, Some n))))))"

definition udp_finish ::
  "udp_destination_port_state \<Rightarrow> ipv4_destination_state \<Rightarrow> payload_fn \<Rightarrow> nat \<Rightarrow> eth_packet option exec" where
  "udp_finish s ip_packet_builder payload payload_size =
     xbind (add_usize 8 payload_size) (\<lambda>ip_payload_size.
     ipv4_finish ip_packet_builder (udp_ip_payload s payload payload_size) ip_payload_size)"

section \<open>Header layout and round trip\<close>

definition udp_header_bytes :: "udp_header \<Rightarrow> bytes" where
  "udp_header_bytes h =
     u16_to_be (uh_source_port h) @ u16_to_be (uh_destination_port h) @
     u16_to_be (uh_length h) @ u16_to_be (uh_checksum h)"

lemma udp_header_bytes_length [simp]: "length (udp_header_bytes h) = 8"
  by (simp add: udp_header_bytes_def)

lemma udp_header_to_bytes_eq:
  "8 \<le> length t \<Longrightarrow> udp_header_to_bytes h t = Ret (udp_header_bytes h @ drop 8 t, Some ())"
  by (simp add: udp_header_to_bytes_def udp_header_bytes_def rust_simps)

lemma udp_header_try_from_bytes: "udp_header_try_from (udp_header_bytes h @ rest) = Ret (Some h)"
  by (simp add: udp_header_try_from_def udp_header_bytes_def rust_simps)

lemma udp_header_try_from_total:
  "length v < 8 \<Longrightarrow> udp_header_try_from v = Ret None"
  "8 \<le> length v \<Longrightarrow> \<exists>h. udp_header_try_from v = Ret (Some h) \<and> udp_header_bytes h = take 8 v"
proof -
  show "length v < 8 \<Longrightarrow> udp_header_try_from v = Ret None"
    by (simp add: udp_header_try_from_def)
  assume len: "8 \<le> length v"
  obtain a b c d e f g h r where v: "v = a # b # c # d # e # f # g # h # r"
    using len by (auto simp: numeral_eq_Suc Suc_le_length_iff)
  show "\<exists>h. udp_header_try_from v = Ret (Some h) \<and> udp_header_bytes h = take 8 v"
    by (simp add: v udp_header_try_from_def udp_header_bytes_def rust_simps u16_to_be_def)
qed

section \<open>Building a datagram\<close>

definition udp_built_header :: "udp_destination_port_state \<Rightarrow> nat \<Rightarrow> udp_header" where
  "udp_built_header s n =
     \<lparr>uh_source_port = udp_source_port s, uh_destination_port = udp_destination_port s,
      uh_length = of_nat (8 + n), uh_checksum = 0\<rparr>"

context payload_writer
begin

text \<open>The UDP layer turns a payload closure into a payload closure for the IPv4 layer.\<close>

lemma udp_layer:
  assumes "cap \<le> 4096"
  shows "payload_writer (udp_ip_payload s writer count) (8 + cap)
    (udp_header_bytes (udp_built_header s count) @ image) (8 + count)"
proof
  show "length (udp_header_bytes (udp_built_header s count) @ image) \<le> 8 + cap"
    using image_fits by simp
  show "8 + count \<le> 8 + cap"
    using count_fits by simp
next
  fix m assume m: "8 + cap \<le> m"
  let ?h = "udp_built_header s count"
  have hdr: "on_slice (replicate m 0) 0 8 (udp_header_to_bytes ?h) =
      Ret (udp_header_bytes ?h @ replicate (m - 8) 0, Some ())"
    using m by (simp add: rust_simps udp_header_to_bytes_eq)
  have pay: "on_slice_from (udp_header_bytes ?h @ replicate (m - 8) 0) 8 writer =
      Ret (udp_header_bytes ?h @ image @ replicate (m - 8 - length image) 0, Some count)"
    using m write_zeros [of "m - 8"] by (simp add: rust_simps)
  have small: "8 + count < 2 ^ 64"
    using assms count_fits by simp
  show "udp_ip_payload s writer count (replicate m 0) =
      Ret ((udp_header_bytes ?h @ image) @
        replicate (m - length (udp_header_bytes ?h @ image)) 0, Some (8 + count))"
    using hdr pay small
    by (simp add: udp_ip_payload_def udp_built_header_def rust_simps diff_diff_left)
qed

lemma udp_finish_frame:
  assumes cap: "cap \<le> 1458"
    and h: "ipv4_set_checksum (ipv4_builder_header ip (28 + count)) = Ret h"
  shows "udp_finish s ip writer count =
    Ret (Some (eth_packet_of
      (eth_frame (ids_destination_mac ip) (ids_source_mac ip) (eth_type_into Eth_Ipv4)
         (ipv4_header_bytes h @ udp_header_bytes (udp_built_header s count) @
          fill (max count 18) image))))"
proof -
  have w: "payload_writer (udp_ip_payload s writer count) (8 + cap)
      (udp_header_bytes (udp_built_header s count) @ image) (8 + count)"
    using cap by (intro udp_layer) simp
  have h': "ipv4_set_checksum (ipv4_builder_header ip (20 + (8 + count))) = Ret h"
    using h by (simp add: add.assoc)
  have "max (8 + count) 26 - 8 = max count 18"
    by simp
  then show ?thesis
    using payload_writer.ipv4_finish_frame [OF w _ h'] cap count_fits
    by (simp add: udp_finish_def rust_simps fill_append)
qed

end

text \<open>Reading a built datagram back through the accessors.\<close>

lemma udp_built_accessors:
  assumes h: "ipv4_set_checksum (ipv4_builder_header ip total_len) = Ret h"
    and len: "length rest \<le> 2006"
    and p: "p = udp_packet_new (ipv4_packet_new
      (eth_packet_of (eth_frame d sm t (ipv4_header_bytes h @ udp_header_bytes uh @ rest))))"
  shows "udp_packet_header p = Ret uh"
    and "udp_packet_payload p = Ret rest"
    and "ipv4_packet_header (udp_ip p) = Ret (ipv4_reread h)"
proof -
  have ip: "ipv4_packet_payload (udp_ip p) = Ret (udp_header_bytes uh @ rest)"
    "ipv4_packet_header (udp_ip p) = Ret (ipv4_reread h)"
    using ipv4_built_accessors [OF h, of "udp_header_bytes uh @ rest" "udp_ip p" d sm t] len
    by (simp_all add: p udp_packet_new_def)
  have "udp_header_try_from (udp_header_bytes uh) = Ret (Some uh)"
    using udp_header_try_from_bytes [of uh "[]"] by simp
  then show "udp_packet_header p = Ret uh"
    by (simp add: udp_packet_header_def ip rust_simps)
  show "udp_packet_payload p = Ret rest"
    by (simp add: udp_packet_payload_def ip rust_simps)
  show "ipv4_packet_header (udp_ip p) = Ret (ipv4_reread h)"
    by (fact ip(2))
qed

section \<open>Properties\<close>

text \<open>
  C20: a datagram built around a payload closure of at most 1458 bytes, in an IPv4 packet whose
  header sum folds, is read back by the accessors: the ports, the length field covering
  header and payload, and the payload (up to the zero padding of a short frame).
\<close>

theorem udp_build_parse:
  assumes w: "payload_writer w cap img n" and cap: "cap \<le> 1458"
    and h: "ipv4_set_checksum (ipv4_builder_header ip (28 + n)) = Ret h"
  shows "\<exists>p hd. udp_finish (udp_builder_destination_port
        (udp_builder_source_port udp_builder_new sp) dp) ip w n = Ret (Some p) \<and>
      udp_packet_header (udp_packet_new (ipv4_packet_new p)) = Ret hd \<and>
      uh_source_port hd = sp \<and> uh_destination_port hd = dp \<and> unat (uh_length hd) = 8 + n \<and>
      udp_packet_payload (udp_packet_new (ipv4_packet_new p)) = Ret (fill (max n 18) img)"
proof -
  have n: "n \<le> 1458"
    using payload_writer.count_fits [OF w] cap by simp
  then have "length (fill (max n 18) img) \<le> 2006"
    by simp
  note acc = udp_built_accessors [OF h this refl]
  have "unat (of_nat (8 + n) :: u16) = 8 + n"
    using n by (simp add: unat_of_nat del: of_nat_add)
  then show ?thesis
    using payload_writer.udp_finish_frame [OF w cap h] acc(1,2)
    by (simp add: udp_built_header_def udp_builder_destination_port_def udp_builder_source_port_def)
qed

theorem udp_build_parse_witness:
  "\<exists>p hd. udp_finish (udp_builder_destination_port
        (udp_builder_source_port udp_builder_new 68) 67) ipv4_sample (copy_payload [7, 9]) 2 = Ret (Some p) \<and>
      udp_packet_header (udp_packet_new (ipv4_packet_new p)) = Ret hd \<and>
      uh_source_port hd = 68 \<and> uh_destination_port hd = 67 \<and> unat (uh_length hd) = 10 \<and>
      udp_packet_payload (udp_packet_new (ipv4_packet_new p)) = Ret ([7, 9] @ replicate 16 0)"
proof -
  obtain h where h: "ipv4_set_checksum (ipv4_builder_header ipv4_sample 30) = Ret h"
    by (simp add: ipv4_set_checksum_eq ipv4_sample_total)
  show ?thesis
    using udp_build_parse [OF copy_pair_writer [of 7 9], of ipv4_sample h 68 67] h
    by (simp add: fill_short)
qed

text \<open>
  The datagram header's parser and writer are inverse: it rejects slices below 8 bytes, and
  from 8 bytes on returns a header whose encoding is the slice's first 8 bytes.
\<close>

lemma udp_header_codec:
  "(length v < 8 \<longrightarrow> udp_header_try_from v = Ret None) \<and>
   (8 \<le> length v \<longrightarrow> (\<exists>h. udp_header_try_from v = Ret (Some h) \<and>
      udp_header_to_bytes h (replicate 8 0) = Ret (take 8 v, Some ())))"
  using udp_header_try_from_total [of v] by (auto simp: udp_header_to_bytes_eq)

end
