(* ===== verification/Net_Device.thy ===== *)
theory Net_Device
  imports Udp
begin

text \<open>
  \<^verbatim>\<open>hardware/device.rs\<close> (without the driver, see \<open>E1000_Card\<close>) and the message types of
  \<^verbatim>\<open>extensions/networking.rs\<close>: the device record the handler works on, its DHCP state, the
  packet queue and the messages the handler receives.

  The queues come from the crate \<^verbatim>\<open>nolock\<close> and the wakers from the executor that polls the
  handler. Both are parameters: a queue or a waker is a handle (a number), the operations on
  handles are the fields of \<open>net_ops\<close> and act on a world \<open>'w\<close> the model knows nothing else
  about.
\<close>

section \<open>Messages\<close>

record raw_packet =
  rp_id :: nat
  rp_buffer :: buffer

text \<open>\<^verbatim>\<open>Arc<AtomicBool>\<close> values are addresses in a store of flags; wakers and queues are handles.\<close>

datatype action_request =
    SendArpRequest (ar_ip: ip4) (ar_ret_queue: nat)
  | PingRequest (ar_waker: nat) (ar_ip: ip4) (ar_mac: mac) (ar_result: nat)

datatype handler_message =
    Msg_Packet raw_packet
  | Msg_Action action_request

section \<open>Operations of the queues and wakers\<close>

record 'w net_ops =
  op_queue_new :: "'w \<Rightarrow> nat \<times> 'w"
  op_enqueue :: "nat \<Rightarrow> eth_packet \<Rightarrow> 'w \<Rightarrow> unit option \<times> 'w"
  op_try_dequeue :: "nat \<Rightarrow> 'w \<Rightarrow> eth_packet option \<times> 'w"
  op_msg_enqueue :: "handler_message \<Rightarrow> 'w \<Rightarrow> unit option \<times> 'w"
  op_arp_new :: "'w \<Rightarrow> nat \<times> 'w"
  op_arp_try_enqueue :: "nat \<Rightarrow> mac \<Rightarrow> 'w \<Rightarrow> unit option \<times> 'w"
  op_udp_try_enqueue :: "nat \<Rightarrow> udp_packet \<Rightarrow> 'w \<Rightarrow> unit option \<times> 'w"
  op_wake :: "nat \<Rightarrow> 'w \<Rightarrow> 'w"

section \<open>The device record\<close>

datatype dhcp_exchange =
    Ex_Initial
  | Ex_Discover (ex_indicator: nat) (ex_transaction_id: u32)
  | Ex_Requested (ex_indicator: nat) (ex_transaction_id: u32) (ex_own_ip: ip4) (ex_server_ip: ip4)
  | Ex_Done

record networking_metadata =
  nm_mac :: mac
  nm_ip :: "ip4 option"
  nm_dhcp :: dhcp_exchange

record 'w packet_queue_sender =
  pqs_queue :: nat
  pqs_notify :: "'w \<Rightarrow> 'w exec"

record packet_queue_receiver =
  pqr_queue :: nat

record 'w network_device =
  nd_id :: nat
  nd_mac :: mac
  nd_packet_queue :: "'w packet_queue_sender"
  nd_metadata :: networking_metadata
  nd_udp_bindings :: "u16 \<rightharpoonup> nat"

section \<open>PacketQueueSender and PacketQueueReceiver\<close>

text \<open>
  \<^verbatim>\<open>create_packetqueue\<close> gives the receiver at once and the sender as a function of the notify
  closure.
\<close>

definition create_packetqueue ::
  "'w net_ops \<Rightarrow> 'w \<Rightarrow> ((('w \<Rightarrow> 'w exec) \<Rightarrow> 'w packet_queue_sender) \<times> packet_queue_receiver) \<times> 'w" where
  "create_packetqueue ops w =
     (case op_queue_new ops w of
        (q, w) \<Rightarrow> ((\<lambda>notify. \<lparr>pqs_queue = q, pqs_notify = notify\<rparr>, \<lparr>pqr_queue = q\<rparr>), w))"

definition packet_queue_enqueue ::
  "'w net_ops \<Rightarrow> 'w packet_queue_sender \<Rightarrow> eth_packet \<Rightarrow> 'w \<Rightarrow> 'w exec" where
  "packet_queue_enqueue ops s packet w =
     (case op_enqueue ops (pqs_queue s) packet w of (_, w) \<Rightarrow> pqs_notify s w)"

definition packet_queue_dequeue ::
  "'w net_ops \<Rightarrow> packet_queue_receiver \<Rightarrow> 'w \<Rightarrow> eth_packet option \<times> 'w" where
  "packet_queue_dequeue ops r w = op_try_dequeue ops (pqr_queue r) w"

section \<open>What the code relies on\<close>

text \<open>
  The documented behaviour of an unbounded multi-producer queue, with \<open>sent q w\<close> the packets
  waiting in the queue \<open>q\<close>: an enqueue succeeds and appends, a dequeue takes the first packet,
  a new queue is empty, and the operations on other handles leave the packet queues alone.
\<close>

definition queue_laws :: "'w net_ops \<Rightarrow> (nat \<Rightarrow> 'w \<Rightarrow> eth_packet list) \<Rightarrow> bool" where
  "queue_laws ops sent \<longleftrightarrow>
     (\<forall>q p w q'. fst (op_enqueue ops q p w) = Some () \<and>
        sent q' (snd (op_enqueue ops q p w)) = (if q' = q then sent q w @ [p] else sent q' w)) \<and>
     (\<forall>q w q'. fst (op_try_dequeue ops q w) = (case sent q w of [] \<Rightarrow> None | p # _ \<Rightarrow> Some p) \<and>
        sent q' (snd (op_try_dequeue ops q w)) = (if q' = q then tl (sent q w) else sent q' w)) \<and>
     (\<forall>w q'. sent (fst (op_queue_new ops w)) (snd (op_queue_new ops w)) = [] \<and>
        (q' \<noteq> fst (op_queue_new ops w) \<longrightarrow> sent q' (snd (op_queue_new ops w)) = sent q' w)) \<and>
     (\<forall>m w q'. sent q' (snd (op_msg_enqueue ops m w)) = sent q' w) \<and>
     (\<forall>q m w q'. sent q' (snd (op_arp_try_enqueue ops q m w)) = sent q' w) \<and>
     (\<forall>q p w q'. sent q' (snd (op_udp_try_enqueue ops q p w)) = sent q' w) \<and>
     (\<forall>k w q'. sent q' (op_wake ops k w) = sent q' w)"

text \<open>A notify closure that returns and leaves the queues alone.\<close>

definition notify_quiet :: "(nat \<Rightarrow> 'w \<Rightarrow> eth_packet list) \<Rightarrow> ('w \<Rightarrow> 'w exec) \<Rightarrow> bool" where
  "notify_quiet sent notify \<longleftrightarrow> (\<forall>w. \<exists>w'. notify w = Ret w' \<and> (\<forall>q. sent q w' = sent q w))"

lemma packet_queue_enqueue_sent:
  assumes "queue_laws ops sent" and "notify_quiet sent (pqs_notify s)"
  shows "\<exists>w'. packet_queue_enqueue ops s p w = Ret w' \<and>
    (\<forall>q. sent q w' = (if q = pqs_queue s then sent q w @ [p] else sent q w))"
proof -
  obtain r v where v: "op_enqueue ops (pqs_queue s) p w = (r, v)"
    by fastforce
  have sent: "sent q v = (if q = pqs_queue s then sent q w @ [p] else sent q w)" for q
    using assms(1) unfolding queue_laws_def by (metis snd_conv v)
  obtain w' where "pqs_notify s v = Ret w'" "\<forall>q. sent q w' = sent q v"
    using assms(2) by (auto simp: notify_quiet_def)
  then show ?thesis
    using sent by (simp add: packet_queue_enqueue_def v)
qed

text \<open>A packet enqueued on a fresh queue is the one its receiver takes out.\<close>

lemma packet_queue_fifo:
  assumes laws: "queue_laws ops sent" and quiet: "notify_quiet sent notify"
    and new: "create_packetqueue ops w = ((mk, r), w1)"
  shows "\<exists>w2 w3 w4 w5. packet_queue_enqueue ops (mk notify) p w1 = Ret w2 \<and>
      packet_queue_enqueue ops (mk notify) p' w2 = Ret w3 \<and>
      packet_queue_dequeue ops r w3 = (Some p, w4) \<and> packet_queue_dequeue ops r w4 = (Some p', w5) \<and>
      fst (packet_queue_dequeue ops r w5) = None"
proof -
  obtain q where q: "op_queue_new ops w = (q, w1)" "mk = (\<lambda>n. \<lparr>pqs_queue = q, pqs_notify = n\<rparr>)"
      "r = \<lparr>pqr_queue = q\<rparr>"
    using new by (auto simp: create_packetqueue_def split: prod.splits)
  have empty: "sent q w1 = []"
    using laws q(1) unfolding queue_laws_def by (metis fst_conv snd_conv)
  have quiet': "notify_quiet sent (pqs_notify (mk notify))"
    using quiet by (simp add: q)
  obtain w2 where w2: "packet_queue_enqueue ops (mk notify) p w1 = Ret w2" "sent q w2 = [p]"
    using packet_queue_enqueue_sent [OF laws quiet', of p w1] empty by (auto simp: q)
  obtain w3 where w3: "packet_queue_enqueue ops (mk notify) p' w2 = Ret w3" "sent q w3 = [p, p']"
    using packet_queue_enqueue_sent [OF laws quiet', of p' w2] w2(2) by (auto simp: q)
  have deq: "op_try_dequeue ops q v = (case sent q v of [] \<Rightarrow> None | x # _ \<Rightarrow> Some x, snd (op_try_dequeue ops q v))"
    "sent q (snd (op_try_dequeue ops q v)) = tl (sent q v)" for v
    using laws unfolding queue_laws_def by (metis prod.collapse)+
  show ?thesis
    using w2(1) w3 deq(1) [of w3] deq(2) [of w3] deq(1) [of "snd (op_try_dequeue ops q w3)"]
      deq(2) [of "snd (op_try_dequeue ops q w3)"]
      deq(1) [of "snd (op_try_dequeue ops q (snd (op_try_dequeue ops q w3)))"]
    by (simp add: packet_queue_dequeue_def q) (metis fst_conv)
qed

end
