(* ===== verification/Arp.thy ===== *)
theory Arp
  imports Ethernet
begin

text \<open>
  \<^verbatim>\<open>extensions/networking/protocols/arp.rs\<close>: the operation code, the parser of a received
  ARP packet and the builder of an outgoing one.
\<close>

section \<open>Operation\<close>

datatype arp_operation = Arp_Request | Arp_Response | Arp_Unknown u16

definition arp_operation_from :: "u16 \<Rightarrow> arp_operation" where
  "arp_operation_from raw =
     (if raw = 1 then Arp_Request else if raw = 2 then Arp_Response else Arp_Unknown raw)"

primrec arp_operation_into :: "arp_operation \<Rightarrow> u16" where
  "arp_operation_into Arp_Request = 1"
| "arp_operation_into Arp_Response = 2"
| "arp_operation_into (Arp_Unknown u) = u"

interpretation arp_op_wire: wire_enum arp_operation_from arp_operation_into
  by unfold_locales (simp add: arp_operation_from_def)

lemma arp_operation_from_into_named [simp]:
  "arp_operation_from 1 = Arp_Request"
  "arp_operation_from 2 = Arp_Response"
  by (simp_all add: arp_operation_from_def)

section \<open>Packet\<close>

record arp_packet =
  arp_hardware_ty :: u16
  arp_protocol_ty :: u16
  arp_hardware_size :: u8
  arp_protocol_size :: u8
  arp_op :: u16
  arp_src_mac :: mac
  arp_src_ip :: ip4
  arp_dest_mac :: mac
  arp_dest_ip :: ip4
  arp_eth_packet :: eth_packet

definition arp_packet_new :: "eth_packet \<Rightarrow> arp_packet option exec" where
  "arp_packet_new eth =
     xbind (eth_content eth) (\<lambda>content.
     if length content < 28 then Ret None
     else
       xbind (xbind (slice_range content 0 2) be_u16) (\<lambda>hardware_ty.
       xbind (xbind (slice_range content 2 4) be_u16) (\<lambda>protocol_ty.
       xbind (index_at content 4) (\<lambda>hardware_size.
       xbind (index_at content 5) (\<lambda>protocol_size.
       xbind (xbind (slice_range content 6 8) be_u16) (\<lambda>operation.
       xbind (xbind (slice_range content 8 14) mac_of_slice) (\<lambda>src_mac.
       xbind (xbind (slice_range content 14 18) ip_of_slice) (\<lambda>src_ip.
       xbind (xbind (slice_range content 18 24) mac_of_slice) (\<lambda>dest_mac.
       xbind (xbind (slice_range content 24 28) ip_of_slice) (\<lambda>dest_ip.
       Ret (Some \<lparr>arp_hardware_ty = hardware_ty, arp_protocol_ty = protocol_ty,
                  arp_hardware_size = hardware_size, arp_protocol_size = protocol_size,
                  arp_op = operation, arp_src_mac = src_mac, arp_src_ip = src_ip,
                  arp_dest_mac = dest_mac, arp_dest_ip = dest_ip, arp_eth_packet = eth\<rparr>)))))))))))"

definition arp_packet_operation :: "arp_packet \<Rightarrow> arp_operation" where
  "arp_packet_operation p = arp_operation_from (arp_op p)"

definition arp_packet_dest_ip :: "arp_packet \<Rightarrow> ip4" where
  "arp_packet_dest_ip p = arp_dest_ip p"

section \<open>PacketBuilder\<close>

record arp_sender_state =
  asn_mac :: mac
  asn_ip :: ip4

record arp_destination_state =
  ads_sender :: arp_sender_state
  ads_mac :: mac
  ads_ip :: ip4

record arp_operation_state =
  aos_destination :: arp_destination_state
  aos_operation :: u16

definition arp_builder_new :: unit where
  "arp_builder_new = ()"

definition arp_builder_sender :: "unit \<Rightarrow> mac \<Rightarrow> ip4 \<Rightarrow> arp_sender_state" where
  "arp_builder_sender b m i = \<lparr>asn_mac = m, asn_ip = i\<rparr>"

definition arp_builder_destination :: "arp_sender_state \<Rightarrow> mac \<Rightarrow> ip4 \<Rightarrow> arp_destination_state" where
  "arp_builder_destination s m i = \<lparr>ads_sender = s, ads_mac = m, ads_ip = i\<rparr>"

definition arp_builder_operation :: "arp_destination_state \<Rightarrow> arp_operation \<Rightarrow> arp_operation_state" where
  "arp_builder_operation s op = \<lparr>aos_destination = s, aos_operation = arp_operation_into op\<rparr>"

text \<open>The payload closure of \<^verbatim>\<open>finish\<close>.\<close>

definition arp_payload :: "arp_operation_state \<Rightarrow> payload_fn" where
  "arp_payload s payload =
     xbind (copy_into payload 0 2 [0, 1]) (\<lambda>payload.
     xbind (copy_into payload 2 4 [0x08, 0]) (\<lambda>payload.
     xbind (set_at payload 4 6) (\<lambda>payload.
     xbind (set_at payload 5 4) (\<lambda>payload.
     xbind (copy_into payload 6 8 (u16_to_be (aos_operation s))) (\<lambda>payload.
     xbind (copy_into payload 8 14 (mac_bytes (asn_mac (ads_sender (aos_destination s))))) (\<lambda>payload.
     xbind (copy_into payload 14 18 (ip_bytes (asn_ip (ads_sender (aos_destination s))))) (\<lambda>payload.
     xbind (copy_into payload 18 24 (mac_bytes (ads_mac (aos_destination s)))) (\<lambda>payload.
     xbind (copy_into payload 24 28 (ip_bytes (ads_ip (aos_destination s)))) (\<lambda>payload.
     Ret (payload, Some 28))))))))))"

definition arp_finish :: "arp_operation_state \<Rightarrow> eth_packet option exec" where
  "arp_finish s =
     eth_finish
       (eth_builder_ether_ty
         (eth_builder_destination
           (eth_builder_source eth_builder_new (asn_mac (ads_sender (aos_destination s))))
           (ads_mac (aos_destination s)))
         (eth_type_into Eth_Arp))
       (arp_payload s)"

section \<open>Layout and round trip\<close>

definition arp_body :: "u16 \<Rightarrow> mac \<Rightarrow> ip4 \<Rightarrow> mac \<Rightarrow> ip4 \<Rightarrow> bytes" where
  "arp_body op sm si dm di =
     [0, 1, 0x08, 0, 6, 4] @ u16_to_be op @ mac_bytes sm @ ip_bytes si @ mac_bytes dm @ ip_bytes di"

lemma arp_body_length [simp]: "length (arp_body op sm si dm di) = 28"
  by (simp add: arp_body_def)

lemma arp_payload_zeros:
  "28 \<le> m \<Longrightarrow>
     arp_payload s (replicate m 0) =
     Ret (arp_body (aos_operation s) (asn_mac (ads_sender (aos_destination s)))
            (asn_ip (ads_sender (aos_destination s))) (ads_mac (aos_destination s))
            (ads_ip (aos_destination s)) @ replicate (m - 28) 0, Some 28)"
  by (simp add: arp_payload_def arp_body_def rust_simps)

interpretation arp_writer: payload_writer
  "arp_payload s" 28
  "arp_body (aos_operation s) (asn_mac (ads_sender (aos_destination s)))
     (asn_ip (ads_sender (aos_destination s))) (ads_mac (aos_destination s))
     (ads_ip (aos_destination s))"
  28 for s
  by unfold_locales (simp_all add: arp_payload_zeros)

lemma arp_finish_eq:
  "arp_finish s =
     Ret (Some (eth_packet_of
       (eth_frame (ads_mac (aos_destination s)) (asn_mac (ads_sender (aos_destination s)))
          (eth_type_into Eth_Arp)
          (arp_body (aos_operation s) (asn_mac (ads_sender (aos_destination s)))
            (asn_ip (ads_sender (aos_destination s))) (ads_mac (aos_destination s))
            (ads_ip (aos_destination s)) @ replicate 18 0))))"
  unfolding arp_finish_def
  by (subst arp_writer.eth_finish_frame)
     (simp_all add: eth_builder_ether_ty_def eth_builder_destination_def eth_builder_source_def fill_short)

lemma arp_packet_new_body:
  assumes "eth_content p = Ret (arp_body op sm si dm di @ rest)"
  shows "arp_packet_new p =
    Ret (Some \<lparr>arp_hardware_ty = 1, arp_protocol_ty = 0x0800, arp_hardware_size = 6,
               arp_protocol_size = 4, arp_op = op, arp_src_mac = sm, arp_src_ip = si,
               arp_dest_mac = dm, arp_dest_ip = di, arp_eth_packet = p\<rparr>)"
proof -
  have be: "u16_from_be 0 1 = 1" "u16_from_be 8 0 = 0x0800"
    by (simp_all add: u16_from_be_def)
  show ?thesis
    unfolding arp_packet_new_def assms
    by (simp add: rust_simps) (simp add: arp_body_def be)
qed

text \<open>
  The parser answers on every packet whose payload the frame accessor can deliver: an error
  below 28 bytes, a packet from 28 bytes on.
\<close>

lemma arp_packet_new_total:
  assumes "eth_content p = Ret c"
  shows "length c < 28 \<Longrightarrow> arp_packet_new p = Ret None"
    and "28 \<le> length c \<Longrightarrow>
      \<exists>q. arp_packet_new p = Ret (Some q) \<and> arp_eth_packet q = p \<and>
          u16_to_be (arp_op q) = take 2 (drop 6 c) \<and>
          mac_bytes (arp_src_mac q) = take 6 (drop 8 c) \<and> ip_bytes (arp_src_ip q) = take 4 (drop 14 c) \<and>
          ip_bytes (arp_dest_ip q) = take 4 (drop 24 c)"
proof -
  show "length c < 28 \<Longrightarrow> arp_packet_new p = Ret None"
    by (simp add: arp_packet_new_def assms)
next
  assume len: "28 \<le> length c"
  obtain sm where sm: "mac_of_slice (take 6 (drop 8 c)) = Ret sm" "mac_bytes sm = take 6 (drop 8 c)"
    using mac_of_slice_length [of "take 6 (drop 8 c)"] len by auto
  obtain dm where dm: "mac_of_slice (take 6 (drop 18 c)) = Ret dm"
    using mac_of_slice_length [of "take 6 (drop 18 c)"] len by auto
  obtain si where si: "ip_of_slice (take 4 (drop 14 c)) = Ret si" "ip_bytes si = take 4 (drop 14 c)"
    using ip_of_slice_length [of "take 4 (drop 14 c)"] len by auto
  obtain di where di: "ip_of_slice (take 4 (drop 24 c)) = Ret di" "ip_bytes di = take 4 (drop 24 c)"
    using ip_of_slice_length [of "take 4 (drop 24 c)"] len by auto
  obtain a b where op: "[a, b] = take 2 (drop 6 c)"
    using pair_of_slice_length [of "take 2 (drop 6 c)"] len by (auto simp: pair_bytes_def)
  show "\<exists>q. arp_packet_new p = Ret (Some q) \<and> arp_eth_packet q = p \<and>
          u16_to_be (arp_op q) = take 2 (drop 6 c) \<and>
          mac_bytes (arp_src_mac q) = take 6 (drop 8 c) \<and> ip_bytes (arp_src_ip q) = take 4 (drop 14 c) \<and>
          ip_bytes (arp_dest_ip q) = take 4 (drop 24 c)"
    using len sm dm si di op [symmetric]
    by (simp add: arp_packet_new_def assms rust_simps be_u16_length u16_to_be_def)
qed

text \<open>The frame of a built packet, and what the accessors and the parser read in it.\<close>

definition arp_sent :: "u16 \<Rightarrow> mac \<Rightarrow> ip4 \<Rightarrow> mac \<Rightarrow> ip4 \<Rightarrow> eth_packet" where
  "arp_sent op sm si dm di =
     eth_packet_of (eth_frame dm sm (eth_type_into Eth_Arp) (arp_body op sm si dm di @ replicate 18 0))"

lemma arp_finish_built:
  "arp_finish (arp_builder_operation (arp_builder_destination
     (arp_builder_sender b sm si) dm di) op) =
   Ret (Some (arp_sent (arp_operation_into op) sm si dm di))"
  by (simp add: arp_finish_eq arp_builder_operation_def arp_builder_destination_def
      arp_builder_sender_def arp_sent_def del: eth_type_into.simps)

lemma arp_sent_read:
  "eth_destination_mac (arp_sent op sm si dm di) = Ret dm"
  "eth_source_mac (arp_sent op sm si dm di) = Ret sm"
  "eth_ether_type (arp_sent op sm si dm di) = Ret Eth_Arp"
  "arp_packet_new (arp_sent op sm si dm di) =
    Ret (Some \<lparr>arp_hardware_ty = 1, arp_protocol_ty = 0x0800, arp_hardware_size = 6,
               arp_protocol_size = 4, arp_op = op, arp_src_mac = sm, arp_src_ip = si,
               arp_dest_mac = dm, arp_dest_ip = di, arp_eth_packet = arp_sent op sm si dm di\<rparr>)"
proof -
  let ?body = "arp_body op sm si dm di @ replicate 18 0"
  have len: "length ?body \<le> 2034"
    by simp
  note frame = eth_accessors_frame [OF len, of dm sm "eth_type_into Eth_Arp", folded arp_sent_def]
  show "eth_destination_mac (arp_sent op sm si dm di) = Ret dm"
    "eth_source_mac (arp_sent op sm si dm di) = Ret sm"
    "eth_ether_type (arp_sent op sm si dm di) = Ret Eth_Arp"
    using frame by (simp_all del: eth_type_into.simps)
  show "arp_packet_new (arp_sent op sm si dm di) =
    Ret (Some \<lparr>arp_hardware_ty = 1, arp_protocol_ty = 0x0800, arp_hardware_size = 6,
               arp_protocol_size = 4, arp_op = op, arp_src_mac = sm, arp_src_ip = si,
               arp_dest_mac = dm, arp_dest_ip = di, arp_eth_packet = arp_sent op sm si dm di\<rparr>)"
    using frame(4) by (rule arp_packet_new_body)
qed

section \<open>Properties\<close>

text \<open>
  C17: an ARP packet built by the builder always succeeds and is read back by the parser with
  the operation, both hardware and both protocol addresses it was built from.
\<close>

theorem arp_build_parse:
  "\<exists>p q. arp_finish (arp_builder_operation (arp_builder_destination
        (arp_builder_sender arp_builder_new sm si) dm di) op) = Ret (Some p) \<and>
      eth_destination_mac p = Ret dm \<and> eth_source_mac p = Ret sm \<and> eth_ether_type p = Ret Eth_Arp \<and>
      arp_packet_new p = Ret (Some q) \<and> arp_op q = arp_operation_into op \<and>
      arp_src_mac q = sm \<and> arp_src_ip q = si \<and> arp_dest_mac q = dm \<and> arp_packet_dest_ip q = di"
  by (simp add: arp_finish_built arp_sent_read arp_packet_dest_ip_def)

text \<open>
  On every received frame the buffer can hold, the ARP parser answers without a panic: an
  error below 28 bytes of payload, otherwise a packet with the fields at their offsets.
\<close>

lemma arp_parse_total:
  assumes "14 \<le> length frame" and "length frame \<le> 2048"
  shows "if length frame < 42 then arp_packet_new (eth_packet_new (buffer_new frame)) = Ret None
    else \<exists>q. arp_packet_new (eth_packet_new (buffer_new frame)) = Ret (Some q) \<and>
      u16_to_be (arp_op q) = take 2 (drop 20 frame) \<and>
      mac_bytes (arp_src_mac q) = take 6 (drop 22 frame) \<and>
      ip_bytes (arp_src_ip q) = take 4 (drop 28 frame) \<and>
      ip_bytes (arp_packet_dest_ip q) = take 4 (drop 38 frame)"
proof -
  have "eth_content (eth_packet_new (buffer_new frame)) = Ret (drop 14 frame)"
    using assms by (simp add: eth_content_def eth_packet_new_def rust_simps)
  note total = arp_packet_new_total [OF this, simplified]
  show ?thesis
    using total assms
    by (cases "length frame < 42") (force simp: arp_packet_dest_ip_def)+
qed

end
