(* ===== verification/Icmp.thy ===== *)
theory Icmp
  imports Ipv4
begin

text \<open>
  \<^verbatim>\<open>extensions/networking/protocols/icmp.rs\<close>: the message type with its echo fields, the
  accessors of a received message and the builder with its checksum.
\<close>

section \<open>Type\<close>

datatype icmp_type =
    EchoRequest (icmp_identifier: u16) (icmp_sequence: u16)
  | EchoReply (icmp_identifier: u16) (icmp_sequence: u16)
  | Icmp_Unknown "u8 \<times> u8"

definition icmp_type_from :: "bytes \<Rightarrow> icmp_type exec" where
  "icmp_type_from raw =
     xbind (index_at raw 0) (\<lambda>ty.
     xbind (index_at raw 1) (\<lambda>sub_ty.
     if (ty, sub_ty) = (0, 0) then
       xbind (xbind (slice_range raw 4 6) be_u16) (\<lambda>ident.
       xbind (xbind (slice_range raw 6 8) be_u16) (\<lambda>seq.
       Ret (EchoReply ident seq)))
     else if (ty, sub_ty) = (8, 0) then
       xbind (xbind (slice_range raw 4 6) be_u16) (\<lambda>ident.
       xbind (xbind (slice_range raw 6 8) be_u16) (\<lambda>seq.
       Ret (EchoRequest ident seq)))
     else Ret (Icmp_Unknown (ty, sub_ty))))"

primrec icmp_type_into :: "icmp_type \<Rightarrow> bytes \<times> bytes" where
  "icmp_type_into (EchoReply ident seq) = ([0, 0], u16_to_be ident @ u16_to_be seq)"
| "icmp_type_into (EchoRequest ident seq) = ([8, 0], u16_to_be ident @ u16_to_be seq)"
| "icmp_type_into (Icmp_Unknown d) = (pair_bytes d, [0, 0, 0, 0])"

section \<open>Packet\<close>

record icmp_packet =
  icmp_ip :: ipv4_packet

definition icmp_packet_new :: "ipv4_packet \<Rightarrow> icmp_packet" where
  "icmp_packet_new p = \<lparr>icmp_ip = p\<rparr>"

definition icmp_get_type :: "icmp_packet \<Rightarrow> icmp_type exec" where
  "icmp_get_type p = xbind (ipv4_packet_payload (icmp_ip p)) icmp_type_from"

definition icmp_ipv4_packet :: "icmp_packet \<Rightarrow> ipv4_packet" where
  "icmp_ipv4_packet p = icmp_ip p"

definition icmp_payload :: "icmp_packet \<Rightarrow> bytes exec" where
  "icmp_payload p =
     xbind (ipv4_packet_payload (icmp_ip p)) (\<lambda>raw_payload.
     xbind (icmp_get_type p) (\<lambda>ty.
     let offset = (case ty of EchoReply _ _ \<Rightarrow> 8 | EchoRequest _ _ \<Rightarrow> 8 | Icmp_Unknown _ \<Rightarrow> 8) in
     slice_from raw_payload offset))"

section \<open>PacketBuilder\<close>

record icmp_type_state =
  its_ty :: icmp_type

definition icmp_builder_new :: unit where
  "icmp_builder_new = ()"

definition icmp_builder_set_type :: "unit \<Rightarrow> icmp_type \<Rightarrow> icmp_type_state" where
  "icmp_builder_set_type b ty = \<lparr>its_ty = ty\<rparr>"

text \<open>\<^verbatim>\<open>!((raw_checksum as u16) + ((raw_checksum >> 16) as u16))\<close>\<close>

definition icmp_fold :: "u32 \<Rightarrow> u16 exec" where
  "icmp_fold raw_checksum =
     xbind (add_w (ucast raw_checksum) (ucast (drop_bit 16 raw_checksum))) (\<lambda>s. Ret (NOT s))"

definition icmp_ip_payload :: "icmp_type_state \<Rightarrow> payload_fn \<Rightarrow> nat \<Rightarrow> nat \<Rightarrow> payload_fn" where
  "icmp_ip_payload s payload_func payload_size header_size payload =
     (let (type_bytes, rest_header_bytes) = icmp_type_into (its_ty s) in
      xbind (copy_into payload 0 2 type_bytes) (\<lambda>payload.
      xbind (copy_into payload 2 4 [0, 0]) (\<lambda>payload.
      xbind (copy_into payload 4 8 rest_header_bytes) (\<lambda>payload.
      xbind (on_slice_from payload 8 payload_func) (\<lambda>(payload, _).
      xbind (add_usize header_size payload_size) (\<lambda>size.
      xbind (sum_words 0 (take (size div 2) (be_words payload))) (\<lambda>raw_checksum.
      xbind (icmp_fold raw_checksum) (\<lambda>checksum.
      xbind (copy_into payload 2 4 (u16_to_be checksum)) (\<lambda>payload.
      Ret (payload, Some size))))))))))"

definition icmp_finish ::
  "icmp_type_state \<Rightarrow> ipv4_destination_state \<Rightarrow> payload_fn \<Rightarrow> nat \<Rightarrow> eth_packet option exec" where
  "icmp_finish s builder payload_func payload_size =
     (let header_size = (case its_ty s of EchoReply _ _ \<Rightarrow> 8 | EchoRequest _ _ \<Rightarrow> 8 | Icmp_Unknown _ \<Rightarrow> 8) in
      xbind (add_usize header_size payload_size) (\<lambda>ip_payload_size.
      ipv4_finish builder (icmp_ip_payload s payload_func payload_size header_size) ip_payload_size))"

section \<open>Type round trip\<close>

definition icmp_message :: "icmp_type \<Rightarrow> u16 \<Rightarrow> bytes \<Rightarrow> bytes" where
  "icmp_message ty checksum body =
     fst (icmp_type_into ty) @ u16_to_be checksum @ snd (icmp_type_into ty) @ body"

lemma icmp_type_into_length [simp]:
  "length (fst (icmp_type_into ty)) = 2" "length (snd (icmp_type_into ty)) = 4"
  by (cases ty; simp)+

lemma icmp_message_length [simp]: "length (icmp_message ty c body) = 8 + length body"
  by (simp add: icmp_message_def)

text \<open>Which types decoding an encoded message gives back: an \<^verbatim>\<open>Unknown\<close> echo code is the exception.\<close>

primrec icmp_type_canonical :: "icmp_type \<Rightarrow> bool" where
  "icmp_type_canonical (EchoRequest i s) = True"
| "icmp_type_canonical (EchoReply i s) = True"
| "icmp_type_canonical (Icmp_Unknown d) = (d \<noteq> (0, 0) \<and> d \<noteq> (8, 0))"

lemma icmp_type_from_message:
  assumes "icmp_type_canonical ty"
  shows "icmp_type_from (icmp_message ty c body) = Ret ty"
proof (cases ty)
  case (Icmp_Unknown d)
  then show ?thesis
    using assms
    by (cases d) (auto simp: icmp_type_from_def icmp_message_def pair_bytes_def index_at_def)
qed (simp_all add: icmp_type_from_def icmp_message_def rust_simps u16_to_be_def)

lemma icmp_type_from_total:
  "panics (icmp_type_from raw) \<longleftrightarrow>
     length raw < 2 \<or> length raw < 8 \<and> (raw ! 0 = 0 \<or> raw ! 0 = 8) \<and> raw ! 1 = 0"
proof (cases "length raw < 2")
  case True
  then show ?thesis
    by (auto simp: icmp_type_from_def index_at_def less_Suc_eq numeral_2_eq_2)
next
  case False
  then have raw: "index_at raw 0 = Ret (raw ! 0)" "index_at raw (Suc 0) = Ret (raw ! Suc 0)"
    by (auto simp: index_at_def)
  have pair: "be_u16 (take 2 (drop k raw)) = Ret (u16_from_be (take 2 (drop k raw) ! 0) (take 2 (drop k raw) ! 1))"
    if "k + 2 \<le> length raw" for k
    using that by (intro be_u16_length) simp
  show ?thesis
  proof (cases "length raw < 8")
    case True
    with False show ?thesis
      by (cases "length raw < 6")
         (auto simp: icmp_type_from_def raw slice_range_def panics_iff pair)
  next
    case long: False
    then show ?thesis
      by (simp add: icmp_type_from_def raw rust_simps pair)
  qed
qed

section \<open>Building a message\<close>

lemma icmp_fold_eq: "icmp_fold raw = fold_carries raw"
proof -
  have "(0xffff :: u32) = mask 16"
    by (simp add: mask_eq_exp_minus_1)
  moreover have "(ucast (raw AND mask 16) :: u16) = ucast raw"
    by (rule bit_word_eqI) (auto simp: bit_simps)
  ultimately show ?thesis
    by (simp add: icmp_fold_def fold_carries_def)
qed

lemma be_words_take: "take k (be_words bs) = be_words (take (2 * k) bs)"
proof (induction bs arbitrary: k rule: be_words.induct)
  case (1 a b bs)
  then show ?case
    by (cases k) simp_all
qed (simp_all add: take_Cons')

text \<open>The words the checksum covers: \<open>(8 + n) div 2\<close> of them, from a message of \<open>8 + n\<close> bytes.\<close>

definition icmp_covered :: "icmp_type \<Rightarrow> nat \<Rightarrow> bytes \<Rightarrow> u16 list" where
  "icmp_covered ty n body = be_words (take (2 * ((8 + n) div 2)) (icmp_message ty 0 (fill n body)))"

lemma icmp_covered_zeros:
  assumes "n \<le> m" and "length body \<le> m"
  shows "take ((8 + n) div 2) (be_words (icmp_message ty 0 (body @ replicate (m - length body) 0))) =
    icmp_covered ty n body"
proof -
  let ?k = "2 * ((8 + n) div 2)"
  have k: "8 \<le> ?k" "?k - 8 \<le> n"
    by presburger (simp add: div_add1_eq)
  have pre: "take ?k (icmp_message ty 0 x) =
      (fst (icmp_type_into ty) @ u16_to_be 0 @ snd (icmp_type_into ty)) @ take (?k - 8) x" for x
    using k(1) by (simp add: icmp_message_def)
  have "take (?k - 8) (body @ replicate (m - length body) 0) = fill (?k - 8) body"
    using k(2) assms by (intro fill_take_zeros) simp_all
  moreover have "take (?k - 8) (fill n body) = fill (?k - 8) body"
    using k(2) by (rule take_fill)
  ultimately have "take ?k (icmp_message ty 0 (body @ replicate (m - length body) 0)) =
      take ?k (icmp_message ty 0 (fill n body))"
    by (simp only: pre)
  then show ?thesis
    by (simp add: be_words_take icmp_covered_def)
qed

context payload_writer
begin

lemma icmp_layer:
  assumes cap: "cap \<le> 4096"
    and sum: "sum_words 0 (icmp_covered (its_ty s) count image) = Ret raw"
    and fold: "fold_carries raw = Ret c"
  shows "payload_writer (icmp_ip_payload s writer count 8) (8 + cap)
    (icmp_message (its_ty s) c image) (8 + count)"
proof
  show "length (icmp_message (its_ty s) c image) \<le> 8 + cap"
    using image_fits by simp
  show "8 + count \<le> 8 + cap"
    using count_fits by simp
next
  fix m assume m: "8 + cap \<le> m"
  obtain t r where tr: "icmp_type_into (its_ty s) = (t, r)" "length t = 2" "length r = 4"
    using icmp_type_into_length [of "its_ty s"] by (cases "icmp_type_into (its_ty s)") auto
  have size: "add_usize 8 count = Ret (8 + count)"
    using cap count_fits by (simp add: rust_simps)
  have body: "writer (replicate (m - 8) 0) = Ret (image @ replicate (m - 8 - length image) 0, Some count)"
    using m by (intro write_zeros) simp
  have z: "u16_to_be 0 = [0, 0]"
    by (simp add: u16_to_be_def)
  have cov: "take ((8 + count) div 2) (be_words (t @ [0, 0] @ r @ image @ replicate (m - 8 - length image) 0)) =
      icmp_covered (its_ty s) count image"
    using icmp_covered_zeros [of count "m - 8" image "its_ty s"] m count_fits image_fits
    by (simp add: icmp_message_def tr z)
  have hdr: "xbind (copy_into (replicate m 0) 0 2 t) (\<lambda>p. xbind (copy_into p 2 4 [0, 0]) (\<lambda>p.
      xbind (copy_into p 4 8 r) k)) = k (t @ [0, 0] @ r @ replicate (m - 8) 0)" for k
    using m tr by (simp add: rust_simps)
  have pay: "on_slice_from (t @ [0, 0] @ r @ replicate (m - 8) 0) 8 writer =
      Ret (t @ [0, 0] @ r @ image @ replicate (m - 8 - length image) 0, Some count)"
    using m tr body by (simp add: rust_simps)
  have cs: "copy_into (t @ [0, 0] @ r @ image @ replicate (m - 8 - length image) 0) 2 4 (u16_to_be c) =
      Ret (t @ u16_to_be c @ r @ image @ replicate (m - 8 - length image) 0)"
    using tr by (simp add: rust_simps)
  show "icmp_ip_payload s writer count 8 (replicate m 0) =
      Ret (icmp_message (its_ty s) c image @
        replicate (m - length (icmp_message (its_ty s) c image)) 0, Some (8 + count))"
    unfolding icmp_ip_payload_def tr prod.case Let_def hdr pay xbind.simps size cov sum icmp_fold_eq fold cs
    by (simp add: icmp_message_def tr diff_diff_left)
qed

lemma icmp_finish_frame:
  assumes cap: "cap \<le> 1458"
    and sum: "sum_words 0 (icmp_covered (its_ty s) count image) = Ret raw"
    and fold: "fold_carries raw = Ret c"
    and h: "ipv4_set_checksum (ipv4_builder_header ip (28 + count)) = Ret h"
  shows "icmp_finish s ip writer count =
    Ret (Some (eth_packet_of
      (eth_frame (ids_destination_mac ip) (ids_source_mac ip) (eth_type_into Eth_Ipv4)
         (ipv4_header_bytes h @ icmp_message (its_ty s) c (fill (max count 18) image)))))"
proof -
  have w: "payload_writer (icmp_ip_payload s writer count 8) (8 + cap)
      (icmp_message (its_ty s) c image) (8 + count)"
    by (rule icmp_layer [OF _ sum fold]) (use cap in simp)
  have h': "ipv4_set_checksum (ipv4_builder_header ip (20 + (8 + count))) = Ret h"
    using h by (simp add: add.assoc)
  have hs: "(case its_ty s of EchoReply _ _ \<Rightarrow> 8 | EchoRequest _ _ \<Rightarrow> 8 | Icmp_Unknown _ \<Rightarrow> 8) = (8::nat)"
    by (cases "its_ty s") simp_all
  have "fill (max (8 + count) 26) (icmp_message (its_ty s) c image) =
      icmp_message (its_ty s) c (fill (max count 18) image)"
  proof -
    let ?pre = "fst (icmp_type_into (its_ty s)) @ u16_to_be c @ snd (icmp_type_into (its_ty s))"
    have "fill (max (8 + count) 26) (?pre @ image) = ?pre @ fill (max (8 + count) 26 - length ?pre) image"
      by (rule fill_append) simp
    moreover have "max (8 + count) 26 - length ?pre = max count 18"
      by simp
    ultimately show ?thesis
      by (simp add: icmp_message_def)
  qed
  then show ?thesis
    using payload_writer.ipv4_finish_frame [OF w _ h'] cap count_fits
    by (simp add: icmp_finish_def hs rust_simps)
qed

end

text \<open>For an even payload the checksum covers the message, and the message verifies.\<close>

lemma icmp_message_words:
  "word_total (be_words (icmp_message ty c body)) = word_total (be_words (icmp_message ty 0 body)) + unat c"
proof -
  obtain a b where t: "fst (icmp_type_into ty) = [a, b]"
    by (cases ty) (auto simp: pair_bytes_def)
  obtain d e f g where r: "snd (icmp_type_into ty) = [d, e, f, g]"
    by (cases ty) (auto simp: u16_to_be_def)
  have "u16_from_be 0 0 = 0"
    by (simp add: u16_from_be_def)
  then show ?thesis
    by (simp add: icmp_message_def t r u16_to_be_def)
qed

lemma icmp_even_valid:
  assumes "even n" and "length body = n"
    and "sum_words 0 (icmp_covered ty n body) = Ret raw" and "fold_carries raw = Ret c"
    and "n \<le> 65536"
  shows "inet_valid (be_words (icmp_message ty c body))"
proof -
  have "2 * ((8 + n) div 2) = 8 + n"
    using assms(1) by simp
  then have cov: "icmp_covered ty n body = be_words (icmp_message ty 0 body)"
    using assms(2) by (simp add: icmp_covered_def fill_short)
  have len: "length (icmp_covered ty n body) \<le> 65536"
    using assms(2,5) by (simp add: cov be_words_length)
  then have "unat raw = word_total (be_words (icmp_message ty 0 body))"
    using sum_words_total [OF len] assms(3) cov by auto
  from fold_carries_valid [OF this assms(4)] show ?thesis
    by (simp add: inet_valid_iff icmp_message_words [of ty c])
qed

section \<open>Properties\<close>

lemma icmp_built_accessors:
  assumes h: "ipv4_set_checksum (ipv4_builder_header ip total_len) = Ret h"
    and len: "length body \<le> 2006" and ty: "icmp_type_canonical ty"
    and p: "p = icmp_packet_new (ipv4_packet_new
      (eth_packet_of (eth_frame d sm t (ipv4_header_bytes h @ icmp_message ty c body))))"
  shows "icmp_get_type p = Ret ty" and "icmp_payload p = Ret body"
    and "ipv4_packet_payload (icmp_ip p) = Ret (icmp_message ty c body)"
    and "ipv4_packet_header (icmp_ip p) = Ret (ipv4_reread h)"
proof -
  show msg: "ipv4_packet_payload (icmp_ip p) = Ret (icmp_message ty c body)"
    and "ipv4_packet_header (icmp_ip p) = Ret (ipv4_reread h)"
    using ipv4_built_accessors [OF h, of "icmp_message ty c body" "icmp_ip p" d sm t] len
    by (simp_all add: p icmp_packet_new_def)
  show get: "icmp_get_type p = Ret ty"
    using ty by (simp add: icmp_get_type_def msg icmp_type_from_message)
  have "(case ty of EchoReply _ _ \<Rightarrow> 8 | EchoRequest _ _ \<Rightarrow> 8 | Icmp_Unknown _ \<Rightarrow> 8) = (8 :: nat)"
    by (cases ty) simp_all
  then show "icmp_payload p = Ret body"
    by (simp add: icmp_payload_def msg get rust_simps) (simp add: icmp_message_def)
qed

text \<open>
  C21: a message built around a payload closure of at most 1458 bytes, when neither the sum of its
  own words nor that of its IPv4 header overflows its fold, is read back with its type and
  payload; when the payload has an even length the message verifies under the Internet checksum.
\<close>

theorem icmp_build_parse:
  assumes w: "payload_writer w cap img n" and cap: "cap \<le> 1458" and ty: "icmp_type_canonical ty"
    and sum: "sum_words 0 (icmp_covered ty n img) = Ret raw" and fold: "fold_carries raw = Ret c"
    and h: "ipv4_set_checksum (ipv4_builder_header ip (28 + n)) = Ret h"
  shows "\<exists>p m. icmp_finish (icmp_builder_set_type icmp_builder_new ty) ip w n = Ret (Some p) \<and>
      icmp_get_type (icmp_packet_new (ipv4_packet_new p)) = Ret ty \<and>
      icmp_payload (icmp_packet_new (ipv4_packet_new p)) = Ret (fill (max n 18) img) \<and>
      ipv4_packet_payload (ipv4_packet_new p) = Ret m \<and>
      (even n \<longrightarrow> inet_valid (be_words (take (8 + n) m)))"
proof -
  have n: "n \<le> 1458"
    using payload_writer.count_fits [OF w] cap by simp
  let ?body = "fill (max n 18) img"
  have "length ?body \<le> 2006"
    using n by simp
  note acc = icmp_built_accessors [OF h this ty refl]
  have "take (8 + n) (icmp_message ty c ?body) = icmp_message ty c (fill n img)"
    by (simp add: icmp_message_def take_fill)
  moreover have "inet_valid (be_words (icmp_message ty c (fill n img)))" if "even n"
  proof (rule icmp_even_valid [OF that _ _ fold])
    show "sum_words 0 (icmp_covered ty n (fill n img)) = Ret raw"
      using sum by (simp add: icmp_covered_def fill_short)
  qed (use n in simp_all)
  ultimately show ?thesis
    using payload_writer.icmp_finish_frame [OF w cap _ fold h, where s = "\<lparr>its_ty = ty\<rparr>"] sum acc(1,2,3)
    by (simp add: icmp_builder_set_type_def icmp_packet_new_def)
qed

lemma icmp_sample_sum:
  "sum_words 0 (icmp_covered (EchoRequest 0x1234 0x2345) 2 [7, 9]) = Ret 0x4482"
proof -
  have "u16_from_be 8 0 = 0x800" "u16_from_be 0 0 = 0" "u16_from_be 18 52 = 0x1234"
    "u16_from_be 35 69 = 0x2345" "u16_from_be 7 9 = 0x709"
    by (simp_all add: u16_from_be_def)
  moreover have "u16_to_be 0x1234 = [18, 52]" "u16_to_be 0x2345 = [35, 69]" "u16_to_be 0 = [0, 0]"
    by (simp_all add: u16_to_be_def)
  ultimately show ?thesis
    by (simp add: icmp_covered_def icmp_message_def fill_short add_w_def)
qed

theorem icmp_build_parse_witness:
  "\<exists>p m. icmp_finish (icmp_builder_set_type icmp_builder_new (EchoRequest 0x1234 0x2345)) ipv4_sample
        (copy_payload [7, 9]) 2 = Ret (Some p) \<and>
      icmp_get_type (icmp_packet_new (ipv4_packet_new p)) = Ret (EchoRequest 0x1234 0x2345) \<and>
      icmp_payload (icmp_packet_new (ipv4_packet_new p)) = Ret ([7, 9] @ replicate 16 0) \<and>
      ipv4_packet_payload (ipv4_packet_new p) = Ret m \<and> inet_valid (be_words (take 10 m))"
proof -
  obtain h where h: "ipv4_set_checksum (ipv4_builder_header ipv4_sample 30) = Ret h"
    by (simp add: ipv4_set_checksum_eq ipv4_sample_total)
  have fold: "fold_carries 0x4482 = Ret 0xbb7d"
    by (simp add: fold_carries_def add_w_def Let_def)
  show ?thesis
    using icmp_build_parse [OF copy_pair_writer _ _ icmp_sample_sum fold, of ipv4_sample h] h
    by (simp add: fill_short)
qed

text \<open>
  For a payload of odd length the checksum does not depend on the last byte: the messages that
  differ there only carry the same checksum \<open>c\<close>, so the byte is not protected by it.
\<close>

lemma icmp_odd_byte_uncovered:
  assumes "even (length bs)" and "length bs < 1458"
    and sum: "sum_words 0 (icmp_covered ty (Suc (length bs)) (bs @ [0])) = Ret raw"
    and fold: "fold_carries raw = Ret c"
    and h: "ipv4_set_checksum (ipv4_builder_header ip (28 + Suc (length bs))) = Ret h"
  shows "icmp_finish (icmp_builder_set_type icmp_builder_new ty) ip
      (copy_payload (bs @ [x])) (Suc (length bs)) =
    Ret (Some (eth_packet_of (eth_frame (ids_destination_mac ip) (ids_source_mac ip)
      (eth_type_into Eth_Ipv4)
      (ipv4_header_bytes h @ icmp_message ty c (fill (max (Suc (length bs)) 18) (bs @ [x]))))))"
proof -
  let ?n = "Suc (length bs)"
  have w: "payload_writer (copy_payload (bs @ [x])) ?n (bs @ [x]) ?n"
    using copy_writer.payload_writer_axioms [of "bs @ [x]"] by simp
  have k: "2 * ((8 + ?n) div 2) = 8 + length bs"
    using assms(1) by presburger
  have "take (8 + length bs) (icmp_message ty 0 (bs @ [y])) = icmp_message ty 0 bs" for y
    by (simp add: icmp_message_def)
  then have "icmp_covered ty ?n (bs @ [x]) = icmp_covered ty ?n (bs @ [0])"
    by (simp only: icmp_covered_def k fill_short length_append_singleton order_refl diff_self_eq_0
        replicate_0 append_Nil2)
  then show ?thesis
    using payload_writer.icmp_finish_frame [OF w _ _ fold h, where s = "\<lparr>its_ty = ty\<rparr>"] sum assms(2)
    by (simp add: icmp_builder_set_type_def)
qed

end
