(* ===== verification/Dhcp.thy ===== *)
theory Dhcp
  imports Udp
begin

text \<open>
  \<^verbatim>\<open>extensions/networking/protocols/dhcp.rs\<close>: the message type, the parser of a received DHCP
  message with its scan of the options, and the two messages the client sends.
\<close>

section \<open>Operation\<close>

datatype dhcp_operation =
    Dhcp_Discover
  | Dhcp_Offer
  | Dhcp_Request
  | Dhcp_Ack
  | Dhcp_Unknown u8

definition dhcp_operation_from :: "u8 \<Rightarrow> dhcp_operation" where
  "dhcp_operation_from raw =
     (if raw = 1 then Dhcp_Discover
      else if raw = 2 then Dhcp_Offer
      else if raw = 3 then Dhcp_Request
      else if raw = 5 then Dhcp_Ack
      else Dhcp_Unknown raw)"

section \<open>Data\<close>

record dhcp_data =
  dd_op :: u8
  dd_htype :: u8
  dd_hlen :: u8
  dd_hops :: u8
  dd_xid :: u32
  dd_secs :: u16
  dd_flags :: u16
  dd_ciaddr :: ip4
  dd_yiaddr :: ip4
  dd_siaddr :: ip4
  dd_giaddr :: ip4
  dd_chaddr :: bytes
  dd_operation :: dhcp_operation

text \<open>
  The \<^verbatim>\<open>loop\<close> over the options. The argument is what the iterator still has to yield; each
  round takes the code and the length byte off it and skips the option's data. The
  subtraction \<^verbatim>\<open>len - 1\<close> is on \<^verbatim>\<open>u8\<close> and overflows for an empty option.
\<close>

fun dhcp_scan :: "bytes \<Rightarrow> u8 exec" where
  "dhcp_scan [] = Panic UnwrapFailed"
| "dhcp_scan (option_code # iter) =
     (if option_code = 53
      then (case drop 1 iter of [] \<Rightarrow> Panic UnwrapFailed | op # _ \<Rightarrow> Ret op)
      else
        (case iter of
           [] \<Rightarrow> Panic UnwrapFailed
         | len # iter \<Rightarrow>
             xbind (sub_w len 1) (\<lambda>skip. dhcp_scan (drop (unat skip + 1) iter))))"

definition dhcp_data_try_from :: "bytes \<Rightarrow> dhcp_data option exec" where
  "dhcp_data_try_from value =
     (if length value < 244 then Ret None
      else
        xbind (dhcp_scan (drop (44 + 192 + 4) value)) (\<lambda>raw_op.
        xbind (index_at value 0) (\<lambda>op.
        xbind (index_at value 1) (\<lambda>htype.
        xbind (index_at value 2) (\<lambda>hlen.
        xbind (index_at value 3) (\<lambda>hops.
        xbind (xbind (slice_range value 4 8) be_u32) (\<lambda>xid.
        xbind (xbind (slice_range value 8 10) be_u16) (\<lambda>secs.
        xbind (xbind (slice_range value 10 12) be_u16) (\<lambda>flags.
        xbind (xbind (slice_range value 12 16) ip_of_slice) (\<lambda>ciaddr.
        xbind (xbind (slice_range value 16 20) ip_of_slice) (\<lambda>yiaddr.
        xbind (xbind (slice_range value 20 24) ip_of_slice) (\<lambda>siaddr.
        xbind (xbind (slice_range value 24 28) ip_of_slice) (\<lambda>giaddr.
        xbind (slice_range value 28 44) (\<lambda>chaddr.
        Ret (Some \<lparr>dd_op = op, dd_htype = htype, dd_hlen = hlen, dd_hops = hops, dd_xid = xid,
                   dd_secs = secs, dd_flags = flags, dd_ciaddr = ciaddr, dd_yiaddr = yiaddr,
                   dd_siaddr = siaddr, dd_giaddr = giaddr, dd_chaddr = chaddr,
                   dd_operation = dhcp_operation_from raw_op\<rparr>)))))))))))))))"

section \<open>Packet\<close>

record dhcp_packet =
  dhcp_datagram :: udp_packet

definition dhcp_packet_new :: "udp_packet \<Rightarrow> dhcp_packet" where
  "dhcp_packet_new d = \<lparr>dhcp_datagram = d\<rparr>"

definition dhcp_packet_get :: "dhcp_packet \<Rightarrow> dhcp_data exec" where
  "dhcp_packet_get p =
     xbind (udp_packet_payload (dhcp_datagram p)) (\<lambda>payload.
     xbind (dhcp_data_try_from payload) unwrap)"

definition dhcp_packet_udp_datagram :: "dhcp_packet \<Rightarrow> udp_packet" where
  "dhcp_packet_udp_datagram p = dhcp_datagram p"

section \<open>Outgoing messages\<close>

definition dhcp_ip_builder :: "mac \<Rightarrow> u16 \<Rightarrow> ipv4_destination_state" where
  "dhcp_ip_builder own_mac ip_ident =
     ipv4_builder_destination
       (ipv4_builder_source
         (ipv4_builder_protocol
           (ipv4_builder_ttl
             (ipv4_builder_identification (ipv4_builder_dscp ipv4_builder_new 0) ip_ident)
             20)
           Udp)
         (Ip4 0 0 0 0) own_mac)
       (Ip4 255 255 255 255) (Mac 0xff 0xff 0xff 0xff 0xff 0xff)"

definition dhcp_udp_builder :: udp_destination_port_state where
  "dhcp_udp_builder = udp_builder_destination_port (udp_builder_source_port udp_builder_new 68) 67"

text \<open>The closures of the two messages; they share the fixed part of the message.\<close>

definition dhcp_fixed_part :: "mac \<Rightarrow> u32 \<Rightarrow> ip4 \<Rightarrow> ip4 \<Rightarrow> bytes \<Rightarrow> bytes exec" where
  "dhcp_fixed_part own_mac xid ciaddr siaddr payload =
     xbind (set_at payload 0 0x1) (\<lambda>payload.
     xbind (set_at payload 1 0x1) (\<lambda>payload.
     xbind (set_at payload 2 0x6) (\<lambda>payload.
     xbind (set_at payload 3 0x0) (\<lambda>payload.
     xbind (copy_into payload 4 8 (u32_to_be xid)) (\<lambda>payload.
     xbind (copy_into payload 8 10 [0, 0]) (\<lambda>payload.
     xbind (copy_into payload 10 12 [0x80, 0]) (\<lambda>payload.
     xbind (copy_into payload 12 16 (ip_bytes ciaddr)) (\<lambda>payload.
     xbind (copy_into payload 16 20 [0, 0, 0, 0]) (\<lambda>payload.
     xbind (copy_into payload 20 24 (ip_bytes siaddr)) (\<lambda>payload.
     xbind (copy_into payload 24 28 [0, 0, 0, 0]) (\<lambda>payload.
     xbind (copy_into payload 28 34 (mac_bytes own_mac)) (\<lambda>payload.
     copy_into payload 236 240 (u32_to_be 0x63825363)))))))))))))"

definition discover_payload :: "mac \<Rightarrow> u32 \<Rightarrow> payload_fn" where
  "discover_payload own_mac xid payload =
     xbind (dhcp_fixed_part own_mac xid (Ip4 0 0 0 0) (Ip4 0 0 0 0) payload) (\<lambda>payload.
     xbind (set_at payload 240 53) (\<lambda>payload.
     xbind (set_at payload 241 1) (\<lambda>payload.
     xbind (set_at payload 242 1) (\<lambda>payload.
     xbind (set_at payload 243 0xff) (\<lambda>payload.
     Ret (payload, Some 244))))))"

definition request_payload :: "mac \<Rightarrow> u32 \<Rightarrow> ip4 \<Rightarrow> ip4 \<Rightarrow> payload_fn" where
  "request_payload own_mac xid ip server_ip payload =
     xbind (dhcp_fixed_part own_mac xid ip server_ip payload) (\<lambda>payload.
     xbind (set_at payload 240 53) (\<lambda>payload.
     xbind (set_at payload 241 1) (\<lambda>payload.
     xbind (set_at payload 242 3) (\<lambda>payload.
     xbind (set_at payload 243 54) (\<lambda>payload.
     xbind (set_at payload 244 4) (\<lambda>payload.
     xbind (copy_into payload 245 249 (ip_bytes server_ip)) (\<lambda>payload.
     xbind (set_at payload 250 50) (\<lambda>payload.
     xbind (set_at payload 251 4) (\<lambda>payload.
     xbind (copy_into payload 252 256 (ip_bytes ip)) (\<lambda>payload.
     xbind (set_at payload 257 0xff) (\<lambda>payload.
     Ret (payload, Some 257))))))))))))"

definition discover_message :: "mac \<Rightarrow> u32 \<Rightarrow> u16 \<Rightarrow> eth_packet option exec" where
  "discover_message own_mac xid ip_ident =
     udp_finish dhcp_udp_builder (dhcp_ip_builder own_mac ip_ident) (discover_payload own_mac xid) 244"

definition request_message :: "mac \<Rightarrow> u32 \<Rightarrow> ip4 \<Rightarrow> ip4 \<Rightarrow> u16 \<Rightarrow> eth_packet option exec" where
  "request_message own_mac xid ip server_ip ip_ident =
     udp_finish dhcp_udp_builder (dhcp_ip_builder own_mac ip_ident)
       (request_payload own_mac xid ip server_ip) 257"

section \<open>The option scan\<close>

text \<open>Options as the reference: a code, a length byte and that many bytes of data.\<close>

definition encode_option :: "u8 \<times> bytes \<Rightarrow> bytes" where
  "encode_option opt = [fst opt, of_nat (length (snd opt))] @ snd opt"

definition option_wf :: "u8 \<times> bytes \<Rightarrow> bool" where
  "option_wf opt \<longleftrightarrow> 0 < length (snd opt) \<and> length (snd opt) < 256"

lemma dhcp_scan_skip:
  assumes "option_wf opt" and "fst opt \<noteq> 53"
  shows "dhcp_scan (encode_option opt @ rest) = dhcp_scan rest"
proof -
  obtain code data where opt: "opt = (code, data)"
    by (cases opt)
  have len: "unat (of_nat (length data) :: u8) = length data"
    using assms opt by (simp add: unat_of_nat option_wf_def)
  have pos: "1 \<le> (of_nat (length data) :: u8)"
    using assms opt len by (auto simp: word_le_nat_alt option_wf_def Suc_le_eq)
  have "sub_w (of_nat (length data)) 1 = Ret (of_nat (length data) - 1 :: u8)"
    using pos by (simp add: sub_w_def)
  moreover have "unat (of_nat (length data) - 1 :: u8) + 1 = length data"
    using pos len assms opt by (simp add: unat_sub option_wf_def)
  ultimately show ?thesis
    using assms by (simp add: opt encode_option_def)
qed

lemma dhcp_scan_finds:
  assumes "\<forall>opt \<in> set opts. option_wf opt \<and> fst opt \<noteq> 53"
  shows "dhcp_scan (concat (map encode_option opts) @ 53 # len # op # rest) = Ret op"
  using assms by (induction opts) (simp_all add: dhcp_scan_skip)

text \<open>An option with a zero length byte (as padding produces) stops the scan with an overflow.\<close>

lemma dhcp_scan_empty_option: "code \<noteq> 53 \<Longrightarrow> dhcp_scan (code # 0 # rest) = Panic ArithOverflow"
  by (simp add: sub_w_def)

section \<open>The messages sent\<close>

definition dhcp_fixed :: "mac \<Rightarrow> u32 \<Rightarrow> ip4 \<Rightarrow> ip4 \<Rightarrow> bytes" where
  "dhcp_fixed own_mac xid ciaddr siaddr =
     [1, 1, 6, 0] @ u32_to_be xid @ [0, 0, 0x80, 0] @ ip_bytes ciaddr @ [0, 0, 0, 0] @
     ip_bytes siaddr @ [0, 0, 0, 0] @ mac_bytes own_mac @ replicate 202 0 @ u32_to_be 0x63825363"

definition discover_image :: "mac \<Rightarrow> u32 \<Rightarrow> bytes" where
  "discover_image own_mac xid = dhcp_fixed own_mac xid (Ip4 0 0 0 0) (Ip4 0 0 0 0) @ [53, 1, 1, 0xff]"

definition request_image :: "mac \<Rightarrow> u32 \<Rightarrow> ip4 \<Rightarrow> ip4 \<Rightarrow> bytes" where
  "request_image own_mac xid ip server_ip =
     dhcp_fixed own_mac xid ip server_ip @
     [53, 1, 3, 54, 4] @ ip_bytes server_ip @ [0, 50, 4] @ ip_bytes ip @ [0, 0xff]"

lemma dhcp_image_length [simp]:
  "length (dhcp_fixed own_mac xid ciaddr siaddr) = 240"
  "length (discover_image own_mac xid) = 244"
  "length (request_image own_mac xid ip server_ip) = 258"
  by (simp_all add: dhcp_fixed_def discover_image_def request_image_def)

lemma dhcp_fixed_part_zeros:
  assumes "240 \<le> m"
  shows "dhcp_fixed_part own_mac xid ciaddr siaddr (replicate m 0) =
    Ret (dhcp_fixed own_mac xid ciaddr siaddr @ replicate (m - 240) 0)"
proof -
  have "m \<noteq> 0" "m - Suc 0 \<noteq> 0"
    using assms by auto
  then show ?thesis
    using assms by (simp add: dhcp_fixed_part_def dhcp_fixed_def rust_simps)
qed

lemma discover_payload_zeros:
  assumes "244 \<le> m"
  shows "discover_payload own_mac xid (replicate m 0) =
    Ret (discover_image own_mac xid @ replicate (m - 244) 0, Some 244)"
proof -
  let ?fixed = "dhcp_fixed own_mac xid (Ip4 0 0 0 0) (Ip4 0 0 0 0)"
  have "dhcp_fixed_part own_mac xid (Ip4 0 0 0 0) (Ip4 0 0 0 0) (replicate m 0) =
      Ret (?fixed @ replicate (4 + (m - 244)) 0)"
    using assms by (simp add: dhcp_fixed_part_zeros)
  also have "replicate (4 + (m - 244)) 0 = [0, 0, 0, 0 :: u8] @ replicate (m - 244) 0"
    by (simp add: numeral_eq_Suc)
  finally show ?thesis
    by (simp add: discover_payload_def discover_image_def rust_simps)
qed

lemma request_payload_zeros:
  assumes "258 \<le> m"
  shows "request_payload own_mac xid ip server_ip (replicate m 0) =
    Ret (request_image own_mac xid ip server_ip @ replicate (m - 258) 0, Some 257)"
proof -
  let ?fixed = "dhcp_fixed own_mac xid ip server_ip"
  have "dhcp_fixed_part own_mac xid ip server_ip (replicate m 0) =
      Ret (?fixed @ replicate (18 + (m - 258)) 0)"
    using assms by (simp add: dhcp_fixed_part_zeros)
  also have "replicate (18 + (m - 258)) 0 =
      [0, 0, 0, 0, 0, 0, 0, 0, 0, 0, 0, 0, 0, 0, 0, 0, 0, 0 :: u8] @ replicate (m - 258) 0"
    by (simp add: numeral_eq_Suc)
  finally show ?thesis
    by (cases ip; cases server_ip)
      (simp add: request_payload_def request_image_def ip_bytes_def rust_simps)
qed

interpretation discover_writer: payload_writer "discover_payload own_mac xid" 244
  "discover_image own_mac xid" 244 for own_mac xid
  by unfold_locales (simp_all add: discover_payload_zeros)

interpretation request_writer: payload_writer "request_payload own_mac xid ip server_ip" 258
  "request_image own_mac xid ip server_ip" 257 for own_mac xid ip server_ip
  by unfold_locales (simp_all add: request_payload_zeros)

text \<open>
  The IPv4 header of both messages: the one's complement sum of the header is fixed up to the
  length and the identification, so the overflow of the carry fold is exactly two
  identifications wide.
\<close>

lemma dhcp_header_total:
  assumes "n < 65536"
  shows "ipv4_header_total (ipv4_builder_header (dhcp_ip_builder own_mac ip_ident) n) =
    153871 + n + unat ip_ident"
proof -
  have words: "u16_from_be 69 0 = 0x4500" "u16_from_be 0 0 = 0" "u16_from_be 20 17 = 0x1411"
    "u16_from_be 255 255 = 0xffff"
    by (simp_all add: u16_from_be_def)
  show ?thesis
    using assms
    by (simp add: words ipv4_header_total_def ipv4_builder_header_def dhcp_ip_builder_def
        ipv4_header_bytes_def ipv4_builder_defs ip_bytes_def u16_to_be_def unat_of_nat)
qed

lemma fold_fits_iff:
  fixes i k :: nat
  assumes "k < 60000" and "i < 65536"
  shows "(131072 + k + i) mod 65536 + (131072 + k + i) div 65536 < 65536 \<longleftrightarrow>
    i + k \<noteq> 65534 \<and> i + k \<noteq> 65535"
proof (cases "k + i < 65536")
  case True
  then have "(131072 + k + i) div 65536 = 2" "(131072 + k + i) mod 65536 = k + i"
    by (simp_all add: div_nat_eqI mod_nat_eqI)
  then show ?thesis
    using True by auto
next
  case False
  then have "(131072 + k + i) div 65536 = 3"
    using assms by (intro div_nat_eqI) simp_all
  moreover from this have "(131072 + k + i) mod 65536 = k + i - 65536"
    using assms by (simp only: modulo_nat_def)
  ultimately show ?thesis
    using False assms by auto
qed

lemma dhcp_checksum_panic_iff:
  assumes "n < 30000"
  shows "ipv4_set_checksum (ipv4_builder_header (dhcp_ip_builder own_mac ip_ident) n) = Panic ArithOverflow
      \<longleftrightarrow> unat ip_ident + 22799 + n = 65534 \<or> unat ip_ident + 22799 + n = 65535"
    and "(\<exists>h. ipv4_set_checksum (ipv4_builder_header (dhcp_ip_builder own_mac ip_ident) n) = Ret h)
      \<longleftrightarrow> unat ip_ident + 22799 + n \<noteq> 65534 \<and> unat ip_ident + 22799 + n \<noteq> 65535"
proof -
  have "153871 + n + unat ip_ident = 131072 + (22799 + n) + unat ip_ident"
    by simp
  moreover have "unat ip_ident < 65536"
    by (rule unat_lt_u16)
  ultimately have fits: "(153871 + n + unat ip_ident) mod 65536 + (153871 + n + unat ip_ident) div 65536 < 65536
      \<longleftrightarrow> unat ip_ident + (22799 + n) \<noteq> 65534 \<and> unat ip_ident + (22799 + n) \<noteq> 65535"
    using fold_fits_iff [of "22799 + n" "unat ip_ident"] assms by simp
  show "ipv4_set_checksum (ipv4_builder_header (dhcp_ip_builder own_mac ip_ident) n) = Panic ArithOverflow
      \<longleftrightarrow> unat ip_ident + 22799 + n = 65534 \<or> unat ip_ident + 22799 + n = 65535"
    and "(\<exists>h. ipv4_set_checksum (ipv4_builder_header (dhcp_ip_builder own_mac ip_ident) n) = Ret h)
      \<longleftrightarrow> unat ip_ident + 22799 + n \<noteq> 65534 \<and> unat ip_ident + 22799 + n \<noteq> 65535"
    using assms fits
    by (auto simp only: ipv4_set_checksum_eq dhcp_header_total Let_def add.assoc split: if_splits)
qed

lemma discover_message_frame:
  assumes "ipv4_set_checksum (ipv4_builder_header (dhcp_ip_builder own_mac ip_ident) 272) = Ret h"
  shows "discover_message own_mac xid ip_ident =
    Ret (Some (eth_packet_of (eth_frame broadcast_mac own_mac (eth_type_into Eth_Ipv4)
      (ipv4_header_bytes h @ udp_header_bytes (udp_built_header dhcp_udp_builder 244) @
       discover_image own_mac xid))))"
proof -
  have "ids_destination_mac (dhcp_ip_builder own_mac ip_ident) = broadcast_mac"
    "ids_source_mac (dhcp_ip_builder own_mac ip_ident) = own_mac"
    by (simp_all add: dhcp_ip_builder_def ipv4_builder_defs broadcast_mac_def)
  then show ?thesis
    using discover_writer.udp_finish_frame [of "dhcp_ip_builder own_mac ip_ident" h] assms
    by (simp add: discover_message_def fill_def)
qed

lemma request_message_frame:
  assumes "ipv4_set_checksum (ipv4_builder_header (dhcp_ip_builder own_mac ip_ident) 285) = Ret h"
  shows "request_message own_mac xid ip server_ip ip_ident =
    Ret (Some (eth_packet_of (eth_frame broadcast_mac own_mac (eth_type_into Eth_Ipv4)
      (ipv4_header_bytes h @ udp_header_bytes (udp_built_header dhcp_udp_builder 257) @
       take 257 (request_image own_mac xid ip server_ip)))))"
proof -
  have "ids_destination_mac (dhcp_ip_builder own_mac ip_ident) = broadcast_mac"
    "ids_source_mac (dhcp_ip_builder own_mac ip_ident) = own_mac"
    by (simp_all add: dhcp_ip_builder_def ipv4_builder_defs broadcast_mac_def)
  then show ?thesis
    using request_writer.udp_finish_frame [of "dhcp_ip_builder own_mac ip_ident" h] assms
    by (simp add: request_message_def fill_def)
qed

lemma discover_message_panic:
  assumes "ipv4_set_checksum (ipv4_builder_header (dhcp_ip_builder own_mac ip_ident) 272) = Panic p"
  shows "discover_message own_mac xid ip_ident = Panic p"
  using assms by (simp add: discover_message_def udp_finish_def rust_simps ipv4_finish_checksum_panic)

lemma request_message_panic:
  assumes "ipv4_set_checksum (ipv4_builder_header (dhcp_ip_builder own_mac ip_ident) 285) = Panic p"
  shows "request_message own_mac xid ip server_ip ip_ident = Panic p"
  using assms by (simp add: request_message_def udp_finish_def rust_simps ipv4_finish_checksum_panic)

section \<open>Reading a message\<close>

text \<open>The fields every message with the fixed part above carries, whatever options follow.\<close>

definition dhcp_fixed_data :: "mac \<Rightarrow> u32 \<Rightarrow> ip4 \<Rightarrow> ip4 \<Rightarrow> u8 \<Rightarrow> dhcp_data" where
  "dhcp_fixed_data own_mac xid ciaddr siaddr raw_op =
     \<lparr>dd_op = 1, dd_htype = 1, dd_hlen = 6, dd_hops = 0, dd_xid = xid, dd_secs = 0, dd_flags = 0x8000,
      dd_ciaddr = ciaddr, dd_yiaddr = Ip4 0 0 0 0, dd_siaddr = siaddr, dd_giaddr = Ip4 0 0 0 0,
      dd_chaddr = mac_bytes own_mac @ replicate 10 0, dd_operation = dhcp_operation_from raw_op\<rparr>"

lemma dhcp_data_try_from_fixed:
  assumes "dhcp_scan options = Ret raw_op" and "4 \<le> length options"
  shows "dhcp_data_try_from (dhcp_fixed own_mac xid ciaddr siaddr @ options) =
    Ret (Some (dhcp_fixed_data own_mac xid ciaddr siaddr raw_op))"
proof -
  have flags: "u16_from_be 0x80 0 = 0x8000" "u16_from_be 0 0 = 0"
    by (simp_all add: u16_from_be_def)
  have zero_ip: "ip_of_slice [0, 0, 0, 0] = Ret (Ip4 0 0 0 0)"
    by (simp add: ip_of_slice_def)
  have scan: "drop 240 (dhcp_fixed own_mac xid ciaddr siaddr @ options) = options"
    by simp
  have split: "replicate 202 (0 :: u8) = replicate 10 0 @ replicate 192 0"
    by (simp flip: replicate_add)
  show ?thesis
    using assms
    by (simp add: dhcp_data_try_from_def scan)
      (simp add: dhcp_fixed_def split dhcp_fixed_data_def rust_simps flags zero_ip)
qed

lemma discover_image_data:
  "dhcp_data_try_from (discover_image own_mac xid) =
     Ret (Some (dhcp_fixed_data own_mac xid (Ip4 0 0 0 0) (Ip4 0 0 0 0) 1))"
  unfolding discover_image_def by (rule dhcp_data_try_from_fixed) simp_all

lemma request_image_data:
  "dhcp_data_try_from (take 257 (request_image own_mac xid ip server_ip)) =
     Ret (Some (dhcp_fixed_data own_mac xid ip server_ip 3))"
proof -
  have "take 257 (request_image own_mac xid ip server_ip) =
      dhcp_fixed own_mac xid ip server_ip @
      ([53, 1, 3, 54, 4] @ ip_bytes server_ip @ [0, 50, 4] @ ip_bytes ip @ [0])"
    by (simp add: request_image_def)
  then show ?thesis
    by (simp add: dhcp_data_try_from_fixed)
qed

text \<open>On a message that is long enough the scan of the options is the only part that can fail.\<close>

lemma dhcp_data_try_from_total:
  assumes "244 \<le> length v"
  shows "panics (dhcp_data_try_from v) \<longleftrightarrow> panics (dhcp_scan (drop 240 v))"
    and "dhcp_scan (drop 240 v) = Ret raw_op \<Longrightarrow> \<exists>d. dhcp_data_try_from v = Ret (Some d) \<and>
      dd_operation d = dhcp_operation_from raw_op \<and>
      ip_bytes (dd_yiaddr d) = take 4 (drop 16 v) \<and> ip_bytes (dd_siaddr d) = take 4 (drop 20 v)"
proof -
  have fields: "\<exists>d. dhcp_data_try_from v = Ret (Some d) \<and> dd_operation d = dhcp_operation_from raw_op \<and>
      ip_bytes (dd_yiaddr d) = take 4 (drop 16 v) \<and> ip_bytes (dd_siaddr d) = take 4 (drop 20 v)"
    if scan: "dhcp_scan (drop 240 v) = Ret raw_op" for raw_op
  proof -
    have v: "v \<noteq> []" "1 < length v"
      using assms by auto
    obtain ci yi si gi where ips: "ip_of_slice (take 4 (drop 12 v)) = Ret ci"
        "ip_of_slice (take 4 (drop 16 v)) = Ret yi" "ip_bytes yi = take 4 (drop 16 v)"
        "ip_of_slice (take 4 (drop 20 v)) = Ret si" "ip_bytes si = take 4 (drop 20 v)"
        "ip_of_slice (take 4 (drop 24 v)) = Ret gi"
      using assms ip_of_slice_length [of "take 4 (drop 12 v)"] ip_of_slice_length [of "take 4 (drop 16 v)"]
        ip_of_slice_length [of "take 4 (drop 20 v)"] ip_of_slice_length [of "take 4 (drop 24 v)"]
      by auto
    show ?thesis
      using assms v scan ips
      by (simp add: dhcp_data_try_from_def rust_simps be_u16_length be_u32_length)
  qed
  show "dhcp_scan (drop 240 v) = Ret raw_op \<Longrightarrow> \<exists>d. dhcp_data_try_from v = Ret (Some d) \<and>
      dd_operation d = dhcp_operation_from raw_op \<and>
      ip_bytes (dd_yiaddr d) = take 4 (drop 16 v) \<and> ip_bytes (dd_siaddr d) = take 4 (drop 20 v)"
    by (rule fields)
  show "panics (dhcp_data_try_from v) \<longleftrightarrow> panics (dhcp_scan (drop 240 v))"
    using assms fields by (cases "dhcp_scan (drop 240 v)") (auto simp: dhcp_data_try_from_def)
qed

section \<open>Properties\<close>

lemma dhcp_packet_get_built:
  assumes "ipv4_set_checksum (ipv4_builder_header ip total_len) = Ret h" and "length rest \<le> 2006"
    and "dhcp_data_try_from rest = Ret (Some d)"
  shows "dhcp_packet_get (dhcp_packet_new (udp_packet_new (ipv4_packet_new
      (eth_packet_of (eth_frame dm sm t (ipv4_header_bytes h @ udp_header_bytes uh @ rest)))))) = Ret d"
    and "udp_packet_header (udp_packet_new (ipv4_packet_new
      (eth_packet_of (eth_frame dm sm t (ipv4_header_bytes h @ udp_header_bytes uh @ rest))))) = Ret uh"
    and "eth_destination_mac
      (eth_packet_of (eth_frame dm sm t (ipv4_header_bytes h @ udp_header_bytes uh @ rest))) = Ret dm"
  using udp_built_accessors(1,2) [OF assms(1,2) refl] assms(2,3)
  by (simp_all add: dhcp_packet_get_def dhcp_packet_new_def eth_accessors_frame)

text \<open>
  C22: the discover message. With an IP identification of 42463 or 42464 the header checksum
  overflows and building it panics; with any other it is built, addressed to the broadcast
  address, sent from port 68 to port 67, and its data parse as a discover with the
  transaction id and the hardware address given.
\<close>

theorem discover_message_correct:
  "if unat ip_ident = 42463 \<or> unat ip_ident = 42464
   then discover_message own_mac xid ip_ident = Panic ArithOverflow
   else \<exists>p uh d. discover_message own_mac xid ip_ident = Ret (Some p) \<and>
     eth_destination_mac p = Ret broadcast_mac \<and>
     udp_packet_header (udp_packet_new (ipv4_packet_new p)) = Ret uh \<and>
     uh_source_port uh = 68 \<and> uh_destination_port uh = 67 \<and>
     dhcp_packet_get (dhcp_packet_new (udp_packet_new (ipv4_packet_new p))) = Ret d \<and>
     dd_operation d = Dhcp_Discover \<and> dd_xid d = xid \<and> take 6 (dd_chaddr d) = mac_bytes own_mac"
proof (cases "\<exists>h. ipv4_set_checksum (ipv4_builder_header (dhcp_ip_builder own_mac ip_ident) 272) = Ret h")
  case True
  then obtain h where h: "ipv4_set_checksum (ipv4_builder_header (dhcp_ip_builder own_mac ip_ident) 272) = Ret h"
    by blast
  have "\<not> (unat ip_ident = 42463 \<or> unat ip_ident = 42464)"
    using True by (simp add: dhcp_checksum_panic_iff(2))
  then show ?thesis
    using discover_message_frame [OF h] dhcp_packet_get_built [OF h _ discover_image_data]
    by (simp add: dhcp_fixed_data_def dhcp_operation_from_def udp_built_header_def dhcp_udp_builder_def
        udp_builder_destination_port_def udp_builder_source_port_def)
next
  case False
  then have id: "unat ip_ident = 42463 \<or> unat ip_ident = 42464"
    by (simp add: dhcp_checksum_panic_iff(2))
  then have "ipv4_set_checksum (ipv4_builder_header (dhcp_ip_builder own_mac ip_ident) 272) = Panic ArithOverflow"
    by (subst dhcp_checksum_panic_iff(1)) auto
  from discover_message_panic [OF this] id show ?thesis
    by simp
qed

lemma request_message_cases:
  obtains (built) h where
    "ipv4_set_checksum (ipv4_builder_header (dhcp_ip_builder own_mac ip_ident) 285) = Ret h"
    "unat ip_ident \<noteq> 42450" "unat ip_ident \<noteq> 42451"
  | (overflow) "request_message own_mac xid ip server_ip ip_ident = Panic ArithOverflow"
    "unat ip_ident = 42450 \<or> unat ip_ident = 42451"
proof (cases "\<exists>h. ipv4_set_checksum (ipv4_builder_header (dhcp_ip_builder own_mac ip_ident) 285) = Ret h")
  case True
  moreover from True have "unat ip_ident \<noteq> 42450" "unat ip_ident \<noteq> 42451"
    by (simp_all add: dhcp_checksum_panic_iff(2))
  ultimately show ?thesis
    using built by blast
next
  case False
  then have id: "unat ip_ident = 42450 \<or> unat ip_ident = 42451"
    by (simp add: dhcp_checksum_panic_iff(2))
  then have "ipv4_set_checksum (ipv4_builder_header (dhcp_ip_builder own_mac ip_ident) 285) = Panic ArithOverflow"
    by (subst dhcp_checksum_panic_iff(1)) auto
  from request_message_panic [OF this] id show ?thesis
    by (rule overflow)
qed

text \<open>
  C23: the request message. It panics on the IP identifications 42450 and 42451 only; otherwise it is
  a broadcast from port 68 to port 67 whose data parse as a request that carries the
  transaction id, the address asked for and the server's address.
\<close>

theorem request_message_correct:
  "if unat ip_ident = 42450 \<or> unat ip_ident = 42451
   then request_message own_mac xid ip server_ip ip_ident = Panic ArithOverflow
   else \<exists>p uh d. request_message own_mac xid ip server_ip ip_ident = Ret (Some p) \<and>
     eth_destination_mac p = Ret broadcast_mac \<and>
     udp_packet_header (udp_packet_new (ipv4_packet_new p)) = Ret uh \<and>
     uh_source_port uh = 68 \<and> uh_destination_port uh = 67 \<and>
     dhcp_packet_get (dhcp_packet_new (udp_packet_new (ipv4_packet_new p))) = Ret d \<and>
     dd_operation d = Dhcp_Request \<and> dd_xid d = xid \<and> dd_ciaddr d = ip \<and> dd_siaddr d = server_ip \<and>
     take 6 (dd_chaddr d) = mac_bytes own_mac"
proof (cases rule: request_message_cases
    [where own_mac = own_mac and ip_ident = ip_ident and xid = xid and ip = ip and server_ip = server_ip])
  case (built h)
  then show ?thesis
    using request_message_frame [OF built(1)] dhcp_packet_get_built [OF built(1) _ request_image_data]
    by (simp add: dhcp_fixed_data_def dhcp_operation_from_def udp_built_header_def dhcp_udp_builder_def
        udp_builder_destination_port_def udp_builder_source_port_def)
qed simp

text \<open>
  The end option (0xff) of the request is written one byte beyond the size the closure
  reports: the datagram's payload is exactly the 257 bytes that end with the requested address
  and a 0, and the end option is not sent.
\<close>

lemma request_end_option_cut:
  assumes "unat ip_ident \<noteq> 42450" and "unat ip_ident \<noteq> 42451"
  shows "\<exists>p. request_message own_mac xid ip server_ip ip_ident = Ret (Some p) \<and>
    udp_packet_payload (udp_packet_new (ipv4_packet_new p)) =
      Ret (dhcp_fixed own_mac xid ip server_ip @
        [53, 1, 3, 54, 4] @ ip_bytes server_ip @ [0, 50, 4] @ ip_bytes ip @ [0])"
proof (cases rule: request_message_cases
    [where own_mac = own_mac and ip_ident = ip_ident and xid = xid and ip = ip and server_ip = server_ip])
  case (built h)
  have "take 257 (request_image own_mac xid ip server_ip) =
      dhcp_fixed own_mac xid ip server_ip @
      ([53, 1, 3, 54, 4] @ ip_bytes server_ip @ [0, 50, 4] @ ip_bytes ip @ [0])"
    by (simp add: request_image_def)
  then show ?thesis
    using request_message_frame [OF built(1)] udp_built_accessors(2) [OF built(1) _ refl] by simp
qed (use assms in simp)

text \<open>
  C24: the parser of a received message. Any message of at least 244 bytes whose options are
  well-formed, non-empty options followed by the message type option is parsed, whatever comes
  after it: the operation is that option's value and the offered and the server's address are
  the bytes at their offsets.
\<close>

theorem dhcp_message_parsed:
  assumes "length hdr = 240" and "\<forall>opt \<in> set opts. option_wf opt \<and> fst opt \<noteq> 53"
    and "1 \<le> length (concat (map encode_option opts)) + length rest"
  shows "\<exists>d. dhcp_data_try_from (hdr @ concat (map encode_option opts) @ 53 # len # op # rest) = Ret (Some d) \<and>
    dd_operation d = dhcp_operation_from op \<and>
    ip_bytes (dd_yiaddr d) = take 4 (drop 16 hdr) \<and> ip_bytes (dd_siaddr d) = take 4 (drop 20 hdr)"
proof -
  let ?v = "hdr @ concat (map encode_option opts) @ 53 # len # op # rest"
  have "244 \<le> length ?v"
    using assms(1,3) by simp
  moreover have "dhcp_scan (drop 240 ?v) = Ret op"
    using dhcp_scan_finds [OF assms(2)] assms(1) by simp
  ultimately show ?thesis
    using dhcp_data_try_from_total(2) [of ?v op] assms(1) by simp
qed

theorem dhcp_message_parsed_witness:
  "\<exists>d. dhcp_data_try_from (replicate 240 0 @ [54, 4, 10, 0, 2, 2] @ [53, 1, 2, 255]) = Ret (Some d) \<and>
    dd_operation d = Dhcp_Offer \<and> ip_bytes (dd_yiaddr d) = [0, 0, 0, 0] \<and> ip_bytes (dd_siaddr d) = [0, 0, 0, 0]"
  using dhcp_message_parsed [of "replicate 240 0" "[(54, [10, 0, 2, 2])]" "[255]" 1 2]
  by (simp add: encode_option_def option_wf_def dhcp_operation_from_def numeral_eq_Suc)

text \<open>
  A message in which an option other than the message type has a zero length byte before the
  message type is reached (such as two bytes of padding) makes the parser panic.
\<close>

lemma dhcp_empty_option_panics:
  assumes "length hdr = 240" and "\<forall>opt \<in> set opts. option_wf opt \<and> fst opt \<noteq> 53" and "code \<noteq> 53"
    and "2 \<le> length rest"
  shows "dhcp_data_try_from (hdr @ concat (map encode_option opts) @ code # 0 # rest) = Panic ArithOverflow"
proof -
  have "dhcp_scan (concat (map encode_option opts) @ code # 0 # rest) = Panic ArithOverflow"
    using assms(2,3) by (induction opts) (simp_all add: dhcp_scan_skip dhcp_scan_empty_option del: dhcp_scan.simps)
  then show ?thesis
    using assms by (simp add: dhcp_data_try_from_def)
qed

end
