(* ===== verification/Net_Handler.thy ===== *)
theory Net_Handler
  imports Net_Device Arp Icmp Dhcp
begin

text \<open>
  \<^verbatim>\<open>extensions/networking/handler.rs\<close>: the task that owns the network devices, answers ARP,
  runs the DHCP exchange, delivers datagrams, ARP answers and echo replies, and sends what the
  API asks for. Its bodies run with interrupts disabled, so each message is one step on the
  handler's state. The \<^verbatim>\<open>println!\<close> output is recorded as notes; \<^verbatim>\<open>tracing\<close> output is not
  modelled.
\<close>

section \<open>State\<close>

datatype net_note =
    Note_Unknown_Arp u16
  | Note_WakeOnLan bytes
  | Note_Unknown_Icmp "u8 \<times> u8"
  | Note_Unexpected_Dhcp dhcp_data
  | Note_Udp_Header udp_header
  | Note_Udp_Payload bytes
  | Note_Tcp
  | Note_Unknown_Protocol u8

text \<open>
  The devices, the three binding tables, the static address cache \<^verbatim>\<open>IPS\<close>, the store of
  \<^verbatim>\<open>AtomicBool\<close>s with its next free address, the output and the world of queues and wakers.
\<close>

record 'w handler_state =
  hs_devices :: "'w network_device list"
  hs_udp :: "u16 \<rightharpoonup> nat"
  hs_arp :: "ip4 \<rightharpoonup> nat"
  hs_ping :: "ip4 \<rightharpoonup> nat \<times> nat"
  hs_ips :: "ip_map option"
  hs_flags :: "nat \<Rightarrow> bool"
  hs_next_flag :: nat
  hs_notes :: "net_note list"
  hs_world :: 'w

definition note_out :: "net_note list \<Rightarrow> 'w handler_state \<Rightarrow> 'w handler_state" where
  "note_out ns st = st\<lparr>hs_notes := hs_notes st @ ns\<rparr>"

definition device_send ::
  "'w net_ops \<Rightarrow> 'w network_device \<Rightarrow> eth_packet \<Rightarrow> 'w handler_state \<Rightarrow> 'w handler_state exec" where
  "device_send ops d p st =
     xbind (packet_queue_enqueue ops (nd_packet_queue d) p (hs_world st)) (\<lambda>w. Ret (st\<lparr>hs_world := w\<rparr>))"

text \<open>\<^verbatim>\<open>devices.iter_mut().find(|d| d.id == raw.id)\<close>: the position of the first match.\<close>

fun find_device :: "nat \<Rightarrow> 'w network_device list \<Rightarrow> nat option" where
  "find_device k [] = None"
| "find_device k (d # ds) = (if nd_id d = k then Some 0 else map_option Suc (find_device k ds))"

definition put_metadata :: "nat \<Rightarrow> networking_metadata \<Rightarrow> 'w handler_state \<Rightarrow> 'w handler_state" where
  "put_metadata i meta st =
     st\<lparr>hs_devices := (hs_devices st)[i := (hs_devices st ! i)\<lparr>nd_metadata := meta\<rparr>]\<rparr>"

section \<open>Packets\<close>

definition handle_arp ::
  "'w net_ops \<Rightarrow> 'w network_device \<Rightarrow> eth_packet \<Rightarrow> 'w handler_state \<Rightarrow> 'w handler_state exec" where
  "handle_arp ops device eth st =
     xbind (xbind (arp_packet_new eth) unwrap) (\<lambda>arp.
     case arp_packet_operation arp of
       Arp_Request \<Rightarrow>
         (case nm_ip (nd_metadata device) of
            None \<Rightarrow> Ret st
          | Some ip \<Rightarrow>
              if ip \<noteq> arp_packet_dest_ip arp then Ret st
              else
                xbind (xbind (arp_finish
                  (arp_builder_operation
                    (arp_builder_destination
                      (arp_builder_sender arp_builder_new (nm_mac (nd_metadata device)) ip)
                      (arp_src_mac arp) (arp_src_ip arp))
                    Arp_Response)) unwrap) (\<lambda>p.
                device_send ops device p st))
     | Arp_Response \<Rightarrow>
         xbind (unwrap (hs_ips st)) (\<lambda>ips.
         let st = st\<lparr>hs_ips := Some (ip_map_set ips (arp_src_ip arp) (arp_src_mac arp))\<rparr> in
         case hs_arp st (arp_src_ip arp) of
           None \<Rightarrow> Ret st
         | Some listeners \<Rightarrow>
             let st = st\<lparr>hs_arp := (hs_arp st)(arp_src_ip arp := None)\<rparr> in
             (case op_arp_try_enqueue ops listeners (arp_src_mac arp) (hs_world st) of
                (r, w) \<Rightarrow> xbind (unwrap r) (\<lambda>_. Ret (st\<lparr>hs_world := w\<rparr>))))
     | Arp_Unknown unknown \<Rightarrow> Ret (note_out [Note_Unknown_Arp unknown] st))"

definition handle_icmp ::
  "'w net_ops \<Rightarrow> ipv4_packet \<Rightarrow> 'w handler_state \<Rightarrow> 'w handler_state exec" where
  "handle_icmp ops ip_packet st =
     (let icmp_packet = icmp_packet_new ip_packet in
      xbind (icmp_get_type icmp_packet) (\<lambda>ty.
      case ty of
        EchoRequest ident seq \<Rightarrow>
          xbind (ipv4_packet_header (icmp_ipv4_packet icmp_packet)) (\<lambda>ip_header.
          xbind (icmp_payload icmp_packet) (\<lambda>req_payload.
          Panic NotImplemented))
      | EchoReply ident seq \<Rightarrow>
          xbind (ipv4_packet_header (icmp_ipv4_packet icmp_packet)) (\<lambda>ip_header.
          case hs_ping st (ih_source_ip ip_header) of
            None \<Rightarrow> Ret st
          | Some (waker, result) \<Rightarrow>
              Ret (st\<lparr>hs_ping := (hs_ping st)(ih_source_ip ip_header := None),
                      hs_flags := (hs_flags st)(result := True),
                      hs_world := op_wake ops waker (hs_world st)\<rparr>))
      | Icmp_Unknown d \<Rightarrow> Ret (note_out [Note_Unknown_Icmp d] st)))"

definition handle_dhcp ::
  "'w net_ops \<Rightarrow> nat \<Rightarrow> 'w network_device \<Rightarrow> udp_packet \<Rightarrow> 'w handler_state \<Rightarrow> 'w handler_state exec" where
  "handle_dhcp ops i device udp st =
     xbind (dhcp_packet_get (dhcp_packet_new udp)) (\<lambda>data.
     let meta = nd_metadata device;
         unexpected = Ret (note_out [Note_Unexpected_Dhcp data] (put_metadata i meta st))
     in
     case (nm_dhcp meta, dd_operation data) of
       (Ex_Discover indicator transaction_id, Dhcp_Offer) \<Rightarrow>
         if transaction_id = dd_xid data then
           xbind (xbind (request_message (nm_mac meta) transaction_id
             (dd_yiaddr data) (dd_siaddr data) 0) unwrap) (\<lambda>p.
           xbind (device_send ops device p st) (\<lambda>st.
           Ret (put_metadata i
             (meta\<lparr>nm_dhcp := Ex_Requested indicator transaction_id (dd_yiaddr data) (dd_siaddr data)\<rparr>) st)))
         else unexpected
     | (Ex_Requested indicator transaction_id own_ip server_ip, Dhcp_Ack) \<Rightarrow>
         if transaction_id = dd_xid data then
           (let st = put_metadata i (meta\<lparr>nm_dhcp := Ex_Done, nm_ip := Some own_ip\<rparr>) st in
            Ret (st\<lparr>hs_flags := (hs_flags st)(indicator := True)\<rparr>))
         else unexpected
     | _ \<Rightarrow> unexpected)"

definition handle_udp ::
  "'w net_ops \<Rightarrow> nat \<Rightarrow> 'w network_device \<Rightarrow> ipv4_packet \<Rightarrow> 'w handler_state \<Rightarrow> 'w handler_state exec" where
  "handle_udp ops i device ip_packet st =
     (let udp = udp_packet_new ip_packet in
      xbind (udp_packet_header udp) (\<lambda>udp_header.
      if uh_source_port udp_header = 67 \<and> uh_destination_port udp_header = 68 then
        handle_dhcp ops i device udp st
      else
        (case hs_udp st (uh_destination_port udp_header) of
           Some bind_queue \<Rightarrow>
             Ret (st\<lparr>hs_world := snd (op_udp_try_enqueue ops bind_queue udp (hs_world st))\<rparr>)
         | None \<Rightarrow>
             xbind (udp_packet_payload udp) (\<lambda>payload.
             Ret (note_out [Note_Udp_Header udp_header, Note_Udp_Payload payload] st)))))"

definition handle_packet ::
  "'w net_ops \<Rightarrow> raw_packet \<Rightarrow> 'w handler_state \<Rightarrow> 'w handler_state exec" where
  "handle_packet ops raw st =
     xbind (unwrap (find_device (rp_id raw) (hs_devices st))) (\<lambda>i.
     let device = hs_devices st ! i; eth_packet = eth_packet_new (rp_buffer raw) in
     xbind (eth_destination_mac eth_packet) (\<lambda>destination.
     if destination \<noteq> Mac 0xff 0xff 0xff 0xff 0xff 0xff \<and> destination \<noteq> nm_mac (nd_metadata device)
     then Ret st
     else
       xbind (eth_ether_type eth_packet) (\<lambda>ty.
       case ty of
         Eth_Arp \<Rightarrow> handle_arp ops device eth_packet st
       | Eth_WakeOnLan \<Rightarrow>
           xbind (eth_content eth_packet) (\<lambda>content. Ret (note_out [Note_WakeOnLan content] st))
       | Eth_Ipv4 \<Rightarrow>
           (let ip_packet = ipv4_packet_new eth_packet in
            xbind (ipv4_packet_header ip_packet) (\<lambda>header.
            case ih_protocol header of
              Icmp \<Rightarrow> handle_icmp ops ip_packet st
            | Udp \<Rightarrow> handle_udp ops i device ip_packet st
            | Tcp \<Rightarrow> Ret (note_out [Note_Tcp] st)
            | Proto_Unknown unknown \<Rightarrow> Ret (note_out [Note_Unknown_Protocol unknown] st)))
       | Eth_Ipv6 \<Rightarrow> Ret st
       | Eth_Unknown tag \<Rightarrow> Ret st)))"

section \<open>Actions\<close>

text \<open>
  Both actions run \<^verbatim>\<open>for device in devices.iter()\<close>: build a packet for the device, unwrap it and
  enqueue it.
\<close>

fun send_each ::
  "'w net_ops \<Rightarrow> ('w network_device \<Rightarrow> eth_packet option exec) \<Rightarrow> 'w network_device list \<Rightarrow>
     'w handler_state \<Rightarrow> 'w handler_state exec" where
  "send_each ops build [] st = Ret st"
| "send_each ops build (device # devices) st =
     xbind (xbind (build device) unwrap) (\<lambda>packet.
     xbind (device_send ops device packet st) (send_each ops build devices))"

definition arp_query :: "ip4 \<Rightarrow> 'w network_device \<Rightarrow> eth_packet option exec" where
  "arp_query ip device =
     arp_finish
       (arp_builder_operation
         (arp_builder_destination
           (arp_builder_sender arp_builder_new (nm_mac (nd_metadata device))
             (case nm_ip (nd_metadata device) of None \<Rightarrow> Ip4 0 0 0 0 | Some own \<Rightarrow> own))
           (Mac 0xff 0xff 0xff 0xff 0xff 0xff) ip)
         Arp_Request)"

definition ping_ip_builder :: "networking_metadata \<Rightarrow> ip4 \<Rightarrow> mac \<Rightarrow> ipv4_destination_state" where
  "ping_ip_builder meta ip mac =
     ipv4_builder_destination
       (ipv4_builder_source
         (ipv4_builder_protocol
           (ipv4_builder_ttl
             (ipv4_builder_identification (ipv4_builder_dscp ipv4_builder_new 0) 0x1234) 20)
           Icmp)
         (case nm_ip meta of None \<Rightarrow> Ip4 0 0 0 0 | Some own \<Rightarrow> own) (nm_mac meta))
       ip mac"

definition ping_query :: "ip4 \<Rightarrow> mac \<Rightarrow> 'w network_device \<Rightarrow> eth_packet option exec" where
  "ping_query ip mac device =
     icmp_finish
       (icmp_builder_set_type icmp_builder_new (EchoRequest 0x1234 0x2345))
       (ping_ip_builder (nd_metadata device) ip mac)
       (\<lambda>payload. Ret (payload, Some 0)) 0"

primrec handle_action ::
  "'w net_ops \<Rightarrow> action_request \<Rightarrow> 'w handler_state \<Rightarrow> 'w handler_state exec" where
  "handle_action ops (SendArpRequest ip ret_queue) st =
     (let st = st\<lparr>hs_arp := (hs_arp st)(ip \<mapsto> ret_queue)\<rparr> in
      send_each ops (arp_query ip) (hs_devices st) st)"
| "handle_action ops (PingRequest waker ip mac result) st =
     (let st = st\<lparr>hs_ping := (hs_ping st)(ip \<mapsto> (waker, result))\<rparr> in
      send_each ops (ping_query ip mac) (hs_devices st) st)"

section \<open>The handler task\<close>

primrec handle_message ::
  "'w net_ops \<Rightarrow> handler_message \<Rightarrow> 'w handler_state \<Rightarrow> 'w handler_state exec" where
  "handle_message ops (Msg_Packet raw) st = handle_packet ops raw st"
| "handle_message ops (Msg_Action action) st = handle_action ops action st"

text \<open>The loop over the devices that starts the DHCP exchange; \<^verbatim>\<open>Arc::new\<close> takes the next address.\<close>

fun start_discovery ::
  "'w net_ops \<Rightarrow> 'w network_device list \<Rightarrow> 'w handler_state \<Rightarrow>
     ('w network_device list \<times> 'w handler_state) exec" where
  "start_discovery ops [] st = Ret ([], st)"
| "start_discovery ops (device # devices) st =
     (let indicator = hs_next_flag st;
          st = st\<lparr>hs_flags := (hs_flags st)(indicator := False), hs_next_flag := Suc indicator\<rparr>;
          tx_id = 0x12345678;
          device = device\<lparr>nd_metadata := (nd_metadata device)\<lparr>nm_dhcp := Ex_Discover indicator tx_id\<rparr>\<rparr>
      in
      xbind (xbind (discover_message (nm_mac (nd_metadata device)) tx_id 13) unwrap) (\<lambda>p.
      xbind (device_send ops device p st) (\<lambda>st.
      xbind (start_discovery ops devices st) (\<lambda>(devices, st).
      Ret (device # devices, st)))))"

definition handler_start ::
  "'w net_ops \<Rightarrow> 'w network_device list \<Rightarrow> 'w handler_state \<Rightarrow> 'w handler_state exec" where
  "handler_start ops devices st =
     xbind (start_discovery ops devices st) (\<lambda>(devices, st).
     Ret (st\<lparr>hs_devices := devices, hs_udp := Map.empty, hs_arp := Map.empty, hs_ping := Map.empty\<rparr>))"

text \<open>The messages are those the queue delivers until it reports an error, which ends the task.\<close>

fun handler_loop ::
  "'w net_ops \<Rightarrow> handler_message list \<Rightarrow> 'w handler_state \<Rightarrow> 'w handler_state exec" where
  "handler_loop ops [] st = Ret st"
| "handler_loop ops (raw_message # messages) st =
     xbind (handle_message ops raw_message st) (handler_loop ops messages)"

definition network_handler ::
  "'w net_ops \<Rightarrow> 'w network_device list \<Rightarrow> handler_message list \<Rightarrow> 'w handler_state \<Rightarrow> 'w handler_state exec" where
  "network_handler ops devices messages st =
     xbind (handler_start ops devices st) (handler_loop ops messages)"

section \<open>The exchange as a specification\<close>

text \<open>
  What a message may do to a device's metadata: nothing, accept an offer while discovering,
  or take the requested address on an acknowledgement. The hardware address never changes.
\<close>

inductive dhcp_spec :: "networking_metadata \<Rightarrow> networking_metadata \<Rightarrow> bool" where
  stay: "dhcp_spec m m"
| offer: "nm_dhcp m = Ex_Discover ind tid \<Longrightarrow>
    dhcp_spec m (m\<lparr>nm_dhcp := Ex_Requested ind tid own server\<rparr>)"
| ack: "nm_dhcp m = Ex_Requested ind tid own server \<Longrightarrow>
    dhcp_spec m (m\<lparr>nm_dhcp := Ex_Done, nm_ip := Some own\<rparr>)"

inductive_cases dhcp_specE: "dhcp_spec m m'"

definition device_step :: "'w network_device \<Rightarrow> 'w network_device \<Rightarrow> bool" where
  "device_step d d' \<longleftrightarrow>
     nd_id d' = nd_id d \<and> nd_mac d' = nd_mac d \<and> nd_packet_queue d' = nd_packet_queue d \<and>
     nd_udp_bindings d' = nd_udp_bindings d \<and> dhcp_spec (nd_metadata d) (nd_metadata d')"

lemma device_step_refl [simp, intro]: "device_step d d"
  by (simp add: device_step_def dhcp_spec.stay)

lemma device_send_Ret: "device_send ops d p st = Ret st' \<Longrightarrow> \<exists>w. st' = st\<lparr>hs_world := w\<rparr>"
  by (auto simp: device_send_def elim!: xbind_eq_RetE)

lemma note_out_sel [simp]:
  "hs_devices (note_out ns st) = hs_devices st" "hs_flags (note_out ns st) = hs_flags st"
  "hs_world (note_out ns st) = hs_world st" "hs_ips (note_out ns st) = hs_ips st"
  by (simp_all add: note_out_def)

lemma put_metadata_same [simp]: "put_metadata i (nd_metadata (hs_devices st ! i)) st = st"
  by (simp add: put_metadata_def)

lemma put_metadata_sel [simp]:
  "hs_devices (put_metadata i m st) = (hs_devices st)[i := (hs_devices st ! i)\<lparr>nd_metadata := m\<rparr>]"
  "hs_flags (put_metadata i m st) = hs_flags st" "hs_world (put_metadata i m st) = hs_world st"
  by (simp_all add: put_metadata_def)

lemma find_device_Some:
  "find_device k ds = Some i \<Longrightarrow> i < length ds \<and> nd_id (ds ! i) = k \<and> (\<forall>j < i. nd_id (ds ! j) \<noteq> k)"
proof (induction ds arbitrary: i)
  case (Cons d ds)
  then show ?case
    by (auto split: if_splits simp: nth_Cons less_Suc_eq_0_disj split: nat.splits)
qed simp

lemma find_device_update:
  "find_device k (ds[i := (ds ! i)\<lparr>nd_metadata := m\<rparr>]) = find_device k ds"
  by (induction ds arbitrary: i) (auto simp: nth_Cons list_update_def split: nat.splits)

lemma find_device_None: "find_device k ds = None \<longleftrightarrow> k \<notin> nd_id ` set ds"
  by (induction ds) auto

lemma handle_arp_devices: "handle_arp ops d eth st = Ret st' \<Longrightarrow> hs_devices st' = hs_devices st"
  by (auto simp: handle_arp_def Let_def dest!: device_send_Ret elim!: xbind_eq_RetE
      split: arp_operation.splits option.splits if_splits prod.splits)

lemma handle_icmp_devices: "handle_icmp ops ip st = Ret st' \<Longrightarrow> hs_devices st' = hs_devices st"
  by (auto simp: handle_icmp_def Let_def elim!: xbind_eq_RetE
      split: icmp_type.splits option.splits prod.splits)

lemma handle_dhcp_Ret:
  fixes st :: "'w handler_state"
  assumes "handle_dhcp ops i (hs_devices st ! i) udp st = Ret st'"
  defines "meta \<equiv> nd_metadata (hs_devices st ! i)"
  obtains (unexpected) data where
      "dhcp_packet_get (dhcp_packet_new udp) = Ret data" "st' = note_out [Note_Unexpected_Dhcp data] st"
  | (offer) data ind p w where
      "dhcp_packet_get (dhcp_packet_new udp) = Ret data" "dd_operation data = Dhcp_Offer"
      "nm_dhcp meta = Ex_Discover ind (dd_xid data)"
      "request_message (nm_mac meta) (dd_xid data) (dd_yiaddr data) (dd_siaddr data) 0 = Ret (Some p)"
      "packet_queue_enqueue ops (nd_packet_queue (hs_devices st ! i)) p (hs_world st) = Ret w"
      "st' = put_metadata i
        (meta\<lparr>nm_dhcp := Ex_Requested ind (dd_xid data) (dd_yiaddr data) (dd_siaddr data)\<rparr>)
        (st\<lparr>hs_world := w\<rparr>)"
  | (ack) data ind own server where
      "dhcp_packet_get (dhcp_packet_new udp) = Ret data" "dd_operation data = Dhcp_Ack"
      "nm_dhcp meta = Ex_Requested ind (dd_xid data) own server"
      "st' = (put_metadata i (meta\<lparr>nm_dhcp := Ex_Done, nm_ip := Some own\<rparr>) st)
        \<lparr>hs_flags := (hs_flags st)(ind := True)\<rparr>"
proof -
  from assms(1) obtain data where get: "dhcp_packet_get (dhcp_packet_new udp) = Ret data"
    by (auto simp: handle_dhcp_def elim!: xbind_eq_RetE)
  note run = assms(1) [unfolded handle_dhcp_def get xbind.simps Let_def, folded meta_def]
  have same: "put_metadata i meta st = st"
    by (simp add: meta_def)
  show thesis
  proof (cases "nm_dhcp meta")
    case (Ex_Discover ind tid)
    then show thesis
      using run get same unexpected [of data] offer [of data ind]
      by (auto simp: device_send_def elim!: xbind_eq_RetE split: dhcp_operation.splits if_splits)
  next
    case (Ex_Requested ind tid own server)
    then show thesis
      using run get same unexpected [of data] ack [of data ind own server]
      by (auto split: dhcp_operation.splits if_splits)
  qed (use run get same unexpected [of data] in auto)
qed

lemma handle_dhcp_devices:
  assumes "handle_dhcp ops i (hs_devices st ! i) udp st = Ret st'"
  shows "hs_devices st' = hs_devices st \<or>
    (\<exists>m. hs_devices st' = (hs_devices st)[i := (hs_devices st ! i)\<lparr>nd_metadata := m\<rparr>] \<and>
      dhcp_spec (nd_metadata (hs_devices st ! i)) m)"
  using assms by (cases rule: handle_dhcp_Ret) (auto intro: dhcp_spec.offer dhcp_spec.ack)

lemma list_all2_update:
  assumes "P (xs ! i) y" and "\<And>x. P x x"
  shows "list_all2 P xs (xs[i := y])"
  using assms by (cases "i < length xs") (auto simp: list_all2_conv_all_nth nth_list_update)

lemma handle_packet_devices:
  assumes "handle_packet ops raw st = Ret st'"
  shows "list_all2 device_step (hs_devices st) (hs_devices st')"
proof -
  have refl: "list_all2 device_step (hs_devices st) (hs_devices st)"
    by (simp add: list_all2_refl)
  have upd: "list_all2 device_step (hs_devices st) (hs_devices st')"
    if "handle_dhcp ops i (hs_devices st ! i) udp st = Ret st'" for i udp
    using handle_dhcp_devices [OF that] refl
    by (auto intro!: list_all2_update simp: device_step_def)
  have udp: "list_all2 device_step (hs_devices st) (hs_devices st')"
    if "handle_udp ops i (hs_devices st ! i) ip st = Ret st'" for i ip
    using that refl upd by (auto simp: handle_udp_def Let_def elim!: xbind_eq_RetE split: if_splits option.splits)
  have arp: "list_all2 device_step (hs_devices st) (hs_devices st')"
    if "handle_arp ops d eth st = Ret st'" for d eth
    using handle_arp_devices [OF that] refl by simp
  have icmp: "list_all2 device_step (hs_devices st) (hs_devices st')"
    if "handle_icmp ops ip st = Ret st'" for ip
    using handle_icmp_devices [OF that] refl by simp
  show ?thesis
    using assms refl udp arp icmp
    by (auto simp: handle_packet_def Let_def
        elim!: xbind_eq_RetE split: if_splits eth_type.splits protocol.splits)
qed

lemma only_world_trans:
  "\<exists>w. st1 = st\<lparr>hs_world := w\<rparr> \<Longrightarrow> \<exists>w. st2 = st1\<lparr>hs_world := w\<rparr> \<Longrightarrow> \<exists>w. st2 = st\<lparr>hs_world := w\<rparr>"
  by auto

lemma only_world_refl: "\<exists>w. st = st\<lparr>hs_world := w\<rparr>"
  by (rule exI [of _ "hs_world st"]) simp

lemma send_each_Ret: "send_each ops build ds st = Ret st' \<Longrightarrow> \<exists>w. st' = st\<lparr>hs_world := w\<rparr>"
  by (induction ops build ds st rule: send_each.induct)
    (auto simp: only_world_refl elim!: xbind_eq_RetE intro: only_world_trans [OF device_send_Ret])

lemma handle_action_Ret:
  assumes "handle_action ops a st = Ret st'"
  shows "hs_devices st' = hs_devices st" and "hs_ips st' = hs_ips st" and "hs_flags st' = hs_flags st"
  using assms
  by (cases a; auto simp: Let_def dest!: send_each_Ret)+

lemma handle_message_devices:
  assumes "handle_message ops m st = Ret st'"
  shows "list_all2 device_step (hs_devices st) (hs_devices st')"
  using assms handle_packet_devices handle_action_Ret(1)
  by (cases m) (fastforce simp: list_all2_refl)+

text \<open>
  The states the handler can be in between two messages. Between messages the rest of the
  kernel runs: interrupt handlers and API callers may change the world and the flags (every
  \<^verbatim>\<open>AtomicBool\<close> is shared) in any way.
\<close>

inductive net_reach ::
  "'w net_ops \<Rightarrow> 'w network_device list \<Rightarrow> 'w handler_state \<Rightarrow> 'w handler_state \<Rightarrow> bool"
  for ops devices st0 where
  start: "handler_start ops devices st0 = Ret st \<Longrightarrow> net_reach ops devices st0 st"
| message: "net_reach ops devices st0 st \<Longrightarrow> handle_message ops m st = Ret st' \<Longrightarrow>
    net_reach ops devices st0 st'"
| environment: "net_reach ops devices st0 st \<Longrightarrow>
    net_reach ops devices st0 (st\<lparr>hs_world := w, hs_flags := fl, hs_next_flag := n\<rparr>)"

text \<open>A device has an address exactly when its exchange is done.\<close>

definition device_inv :: "'w network_device \<Rightarrow> bool" where
  "device_inv d \<longleftrightarrow> (nm_ip (nd_metadata d) \<noteq> None \<longleftrightarrow> nm_dhcp (nd_metadata d) = Ex_Done)"

definition fresh_device :: "'w network_device \<Rightarrow> bool" where
  "fresh_device d \<longleftrightarrow> nm_ip (nd_metadata d) = None"

lemma device_step_inv: "device_step d d' \<Longrightarrow> device_inv d \<Longrightarrow> device_inv d'"
  by (auto simp: device_step_def device_inv_def elim!: dhcp_specE)

lemma start_discovery_Ret:
  "start_discovery ops ds st = Ret (ds', st') \<Longrightarrow>
     list_all2 (\<lambda>d d'. \<exists>ind. d' = d\<lparr>nd_metadata := (nd_metadata d)\<lparr>nm_dhcp := Ex_Discover ind 0x12345678\<rparr>\<rparr>) ds ds'"
proof (induction ops ds st arbitrary: ds' st' rule: start_discovery.induct)
  case (2 ops d ds st)
  from "2.prems" show ?case
    by (auto simp: Let_def elim!: xbind_eq_RetE dest!: "2.IH" [OF refl refl refl refl])
qed auto

lemma handler_start_devices:
  assumes "handler_start ops ds st = Ret st'"
  shows "list_all2 (\<lambda>d d'. \<exists>ind. d' = d\<lparr>nd_metadata := (nd_metadata d)\<lparr>nm_dhcp := Ex_Discover ind 0x12345678\<rparr>\<rparr>)
    ds (hs_devices st')"
  using assms by (auto simp: handler_start_def elim!: xbind_eq_RetE dest!: start_discovery_Ret)

lemma list_all2_ball:
  "list_all2 R xs ys \<Longrightarrow> \<forall>x \<in> set xs. P x \<Longrightarrow> (\<And>x y. R x y \<Longrightarrow> P x \<Longrightarrow> Q y) \<Longrightarrow> \<forall>y \<in> set ys. Q y"
  by (induction rule: list_all2_induct) auto

lemma net_reach_inv:
  assumes "net_reach ops devices st0 st" and "\<forall>d \<in> set devices. fresh_device d"
  shows "\<forall>d \<in> set (hs_devices st). device_inv d"
    and "map (\<lambda>d. (nd_id d, nd_mac d, nm_mac (nd_metadata d))) (hs_devices st) =
      map (\<lambda>d. (nd_id d, nd_mac d, nm_mac (nd_metadata d))) devices"
proof -
  have "(\<forall>d \<in> set (hs_devices st). device_inv d) \<and>
    map (\<lambda>d. (nd_id d, nd_mac d, nm_mac (nd_metadata d))) (hs_devices st) =
      map (\<lambda>d. (nd_id d, nd_mac d, nm_mac (nd_metadata d))) devices"
    using assms(1)
  proof induction
    case (start st)
    note ds = handler_start_devices [OF start]
    have "\<forall>d \<in> set (hs_devices st). device_inv d"
      by (rule list_all2_ball [OF ds assms(2)]) (auto simp: device_inv_def fresh_device_def)
    moreover have "map (\<lambda>d. (nd_id d, nd_mac d, nm_mac (nd_metadata d))) (hs_devices st) =
      map (\<lambda>d. (nd_id d, nd_mac d, nm_mac (nd_metadata d))) devices"
      using ds by (induction rule: list_all2_induct) auto
    ultimately show ?case ..
  next
    case (message st m st')
    note ds = handle_message_devices [OF message.hyps(2)]
    have "\<forall>d \<in> set (hs_devices st'). device_inv d"
      by (rule list_all2_ball [OF ds conjunct1 [OF message.IH]]) (rule device_step_inv)
    moreover have "map (\<lambda>d. (nd_id d, nd_mac d, nm_mac (nd_metadata d))) (hs_devices st') =
      map (\<lambda>d. (nd_id d, nd_mac d, nm_mac (nd_metadata d))) (hs_devices st)"
      using ds by (induction rule: list_all2_induct) (auto simp: device_step_def elim!: dhcp_specE)
    ultimately show ?case
      using message.IH by simp
  qed simp
  then show "\<forall>d \<in> set (hs_devices st). device_inv d"
    and "map (\<lambda>d. (nd_id d, nd_mac d, nm_mac (nd_metadata d))) (hs_devices st) =
      map (\<lambda>d. (nd_id d, nd_mac d, nm_mac (nd_metadata d))) devices"
    by simp_all
qed

section \<open>What happens to each kind of packet\<close>

definition addressed_to :: "eth_packet \<Rightarrow> 'w network_device \<Rightarrow> bool" where
  "addressed_to p d \<longleftrightarrow>
     eth_destination_mac p = Ret broadcast_mac \<or> eth_destination_mac p = Ret (nm_mac (nd_metadata d))"

text \<open>A frame received for the device \<open>k\<close>, found at position \<open>i\<close>, and meant for it.\<close>

definition receives :: "'w handler_state \<Rightarrow> nat \<Rightarrow> nat \<Rightarrow> eth_packet \<Rightarrow> bool" where
  "receives st k i p \<longleftrightarrow> find_device k (hs_devices st) = Some i \<and> addressed_to p (hs_devices st ! i)"

definition raw_of :: "nat \<Rightarrow> eth_packet \<Rightarrow> raw_packet" where
  "raw_of k p = \<lparr>rp_id = k, rp_buffer = eth_buffer p\<rparr>"

lemma eth_packet_new_buffer [simp]: "eth_packet_new (eth_buffer p) = p"
  by (simp add: eth_packet_new_def)

lemma handle_packet_receives:
  assumes "receives st k i p"
  shows "eth_ether_type p = Ret Eth_Arp \<Longrightarrow>
      handle_packet ops (raw_of k p) st = handle_arp ops (hs_devices st ! i) p st"
    and "eth_ether_type p = Ret Eth_Ipv4 \<Longrightarrow> ipv4_packet_header (ipv4_packet_new p) = Ret h \<Longrightarrow>
      ih_protocol h = Icmp \<Longrightarrow>
      handle_packet ops (raw_of k p) st = handle_icmp ops (ipv4_packet_new p) st"
    and "eth_ether_type p = Ret Eth_Ipv4 \<Longrightarrow> ipv4_packet_header (ipv4_packet_new p) = Ret h \<Longrightarrow>
      ih_protocol h = Udp \<Longrightarrow>
      handle_packet ops (raw_of k p) st = handle_udp ops i (hs_devices st ! i) (ipv4_packet_new p) st"
  using assms
  by (auto simp: receives_def addressed_to_def handle_packet_def raw_of_def broadcast_mac_def)

lemma handle_packet_not_addressed:
  assumes "find_device k (hs_devices st) = Some i" and "\<not> addressed_to p (hs_devices st ! i)"
    and "eth_destination_mac p = Ret dst"
  shows "handle_packet ops (raw_of k p) st = Ret st"
  using assms by (auto simp: addressed_to_def handle_packet_def raw_of_def broadcast_mac_def Let_def)

text \<open>A frame that carries a DHCP message from a server.\<close>

definition dhcp_frame :: "eth_packet \<Rightarrow> dhcp_data \<Rightarrow> bool" where
  "dhcp_frame p data \<longleftrightarrow>
     eth_ether_type p = Ret Eth_Ipv4 \<and>
     (\<exists>h. ipv4_packet_header (ipv4_packet_new p) = Ret h \<and> ih_protocol h = Udp) \<and>
     (\<exists>uh. udp_packet_header (udp_packet_new (ipv4_packet_new p)) = Ret uh \<and>
        uh_source_port uh = 67 \<and> uh_destination_port uh = 68) \<and>
     dhcp_packet_get (dhcp_packet_new (udp_packet_new (ipv4_packet_new p))) = Ret data"

lemma handle_packet_dhcp:
  assumes "receives st k i p" and "dhcp_frame p data"
  shows "handle_packet ops (raw_of k p) st =
    handle_dhcp ops i (hs_devices st ! i) (udp_packet_new (ipv4_packet_new p)) st"
proof -
  obtain h uh where "eth_ether_type p = Ret Eth_Ipv4" "ipv4_packet_header (ipv4_packet_new p) = Ret h"
      "ih_protocol h = Udp" "udp_packet_header (udp_packet_new (ipv4_packet_new p)) = Ret uh"
      "uh_source_port uh = 67" "uh_destination_port uh = 68"
    using assms(2) by (auto simp: dhcp_frame_def)
  then show ?thesis
    using handle_packet_receives(3) [OF assms(1)] by (simp add: handle_udp_def)
qed

lemma request_message_built: "\<exists>p. request_message own_mac xid ip server_ip 0 = Ret (Some p)"
proof -
  have "\<exists>h. ipv4_set_checksum (ipv4_builder_header (dhcp_ip_builder own_mac 0) 285) = Ret h"
    by (simp add: dhcp_checksum_panic_iff(2))
  then show ?thesis
    using request_message_frame by blast
qed

lemma discover_message_built: "\<exists>p. discover_message own_mac xid 13 = Ret (Some p)"
proof -
  have "\<exists>h. ipv4_set_checksum (ipv4_builder_header (dhcp_ip_builder own_mac 13) 272) = Ret h"
    by (simp add: dhcp_checksum_panic_iff(2))
  then show ?thesis
    using discover_message_frame by blast
qed

lemma handle_offer:
  assumes laws: "queue_laws ops sent"
    and quiet: "notify_quiet sent (pqs_notify (nd_packet_queue (hs_devices st ! i)))"
    and recv: "receives st k i p" and frame: "dhcp_frame p data" and op: "dd_operation data = Dhcp_Offer"
    and state: "nm_dhcp (nd_metadata (hs_devices st ! i)) = Ex_Discover ind (dd_xid data)"
  shows "\<exists>w q. handle_packet ops (raw_of k p) st = Ret (put_metadata i
        ((nd_metadata (hs_devices st ! i))
          \<lparr>nm_dhcp := Ex_Requested ind (dd_xid data) (dd_yiaddr data) (dd_siaddr data)\<rparr>) (st\<lparr>hs_world := w\<rparr>)) \<and>
      request_message (nm_mac (nd_metadata (hs_devices st ! i))) (dd_xid data)
        (dd_yiaddr data) (dd_siaddr data) 0 = Ret (Some q) \<and>
      (\<forall>q'. sent q' w = (if q' = pqs_queue (nd_packet_queue (hs_devices st ! i))
        then sent q' (hs_world st) @ [q] else sent q' (hs_world st)))"
proof -
  have get: "dhcp_packet_get (dhcp_packet_new (udp_packet_new (ipv4_packet_new p))) = Ret data"
    using frame by (simp add: dhcp_frame_def)
  obtain q where q: "request_message (nm_mac (nd_metadata (hs_devices st ! i))) (dd_xid data)
      (dd_yiaddr data) (dd_siaddr data) 0 = Ret (Some q)"
    using request_message_built by blast
  show ?thesis
    using packet_queue_enqueue_sent [OF laws quiet, of q "hs_world st"] q
    by (auto simp: handle_packet_dhcp [OF recv frame] handle_dhcp_def get op state device_send_def)
qed

lemma handle_ack:
  assumes recv: "receives st k i p" and frame: "dhcp_frame p data" and op: "dd_operation data = Dhcp_Ack"
    and state: "nm_dhcp (nd_metadata (hs_devices st ! i)) = Ex_Requested ind (dd_xid data) own server"
  shows "handle_packet ops (raw_of k p) st = Ret ((put_metadata i
        ((nd_metadata (hs_devices st ! i))\<lparr>nm_dhcp := Ex_Done, nm_ip := Some own\<rparr>) st)
      \<lparr>hs_flags := (hs_flags st)(ind := True)\<rparr>)"
proof -
  have get: "dhcp_packet_get (dhcp_packet_new (udp_packet_new (ipv4_packet_new p))) = Ret data"
    using frame by (simp add: dhcp_frame_def)
  show ?thesis
    by (simp add: handle_packet_dhcp [OF recv frame] handle_dhcp_def get op state)
qed

section \<open>Packets put on the device queues\<close>

definition all_quiet :: "(nat \<Rightarrow> 'w \<Rightarrow> eth_packet list) \<Rightarrow> 'w network_device list \<Rightarrow> bool" where
  "all_quiet sent ds \<longleftrightarrow> (\<forall>d \<in> set ds. notify_quiet sent (pqs_notify (nd_packet_queue d)))"

text \<open>The devices that send over the queue \<open>q\<close>, in order.\<close>

definition on_queue :: "nat \<Rightarrow> 'w network_device list \<Rightarrow> 'w network_device list" where
  "on_queue q ds = filter (\<lambda>d. pqs_queue (nd_packet_queue d) = q) ds"

lemma on_queue_simps [simp]:
  "on_queue q [] = []"
  "on_queue q (d # ds) = (if pqs_queue (nd_packet_queue d) = q then d # on_queue q ds else on_queue q ds)"
  by (simp_all add: on_queue_def)

lemma device_send_sent:
  assumes "queue_laws ops sent" and "notify_quiet sent (pqs_notify (nd_packet_queue d))"
  shows "\<exists>w. device_send ops d p st = Ret (st\<lparr>hs_world := w\<rparr>) \<and>
    (\<forall>q. sent q w = (if q = pqs_queue (nd_packet_queue d) then sent q (hs_world st) @ [p] else sent q (hs_world st)))"
  using packet_queue_enqueue_sent [OF assms, of p "hs_world st"] by (auto simp: device_send_def)

lemma send_each_sent:
  assumes "queue_laws ops sent" and "all_quiet sent ds" and "\<And>d. d \<in> set ds \<Longrightarrow> \<exists>p. build d = Ret (Some p) \<and> good d p"
  shows "\<exists>w. send_each ops build ds st = Ret (st\<lparr>hs_world := w\<rparr>) \<and>
    (\<forall>q. \<exists>ps. sent q w = sent q (hs_world st) @ ps \<and>
      list_all2 good (on_queue q ds) ps)"
  using assms(2,3)
proof (induction ds arbitrary: st)
  case Nil
  show ?case
    by (rule exI [of _ "hs_world st"]) simp
next
  case (Cons d ds)
  obtain p where p: "build d = Ret (Some p)" "good d p"
    using Cons.prems(2) by auto
  have "notify_quiet sent (pqs_notify (nd_packet_queue d))"
    using Cons.prems(1) by (simp add: all_quiet_def)
  from device_send_sent [OF assms(1) this, of p st]
  obtain w where w: "device_send ops d p st = Ret (st\<lparr>hs_world := w\<rparr>)"
      "\<And>q. sent q w = (if q = pqs_queue (nd_packet_queue d) then sent q (hs_world st) @ [p] else sent q (hs_world st))"
    by blast
  have "all_quiet sent ds"
    using Cons.prems(1) by (simp add: all_quiet_def)
  from Cons.IH [OF this, of "st\<lparr>hs_world := w\<rparr>"] Cons.prems(2)
  obtain w' where w': "send_each ops build ds (st\<lparr>hs_world := w\<rparr>) = Ret (st\<lparr>hs_world := w'\<rparr>)"
      "\<And>q. \<exists>ps. sent q w' = sent q w @ ps \<and> list_all2 good (on_queue q ds) ps"
    by auto
  have "\<exists>ps. sent q w' = sent q (hs_world st) @ ps \<and>
      list_all2 good (on_queue q (d # ds)) ps" for q
    using w'(2) [of q] w(2) [of q] p by (fastforce simp: list_all2_Cons1)
  then show ?case
    using p w(1) w'(1) by (intro exI [of _ w'] conjI allI) (simp_all del: on_queue_simps)
qed

definition discovering :: "nat \<Rightarrow> 'w network_device \<Rightarrow> 'w network_device" where
  "discovering ind d = d\<lparr>nd_metadata := (nd_metadata d)\<lparr>nm_dhcp := Ex_Discover ind 0x12345678\<rparr>\<rparr>"

lemma discovering_sel [simp]:
  "nd_id (discovering ind d) = nd_id d" "nd_packet_queue (discovering ind d) = nd_packet_queue d"
  "nm_mac (nd_metadata (discovering ind d)) = nm_mac (nd_metadata d)"
  "nm_ip (nd_metadata (discovering ind d)) = nm_ip (nd_metadata d)"
  "nm_dhcp (nd_metadata (discovering ind d)) = Ex_Discover ind 0x12345678"
  by (simp_all add: discovering_def)

lemma start_discovery_sent:
  assumes "queue_laws ops sent" and "all_quiet sent ds"
  shows "\<exists>w. start_discovery ops ds st =
      Ret (map2 discovering [hs_next_flag st ..< hs_next_flag st + length ds] ds,
        st\<lparr>hs_flags := (\<lambda>a. hs_flags st a \<and> \<not> (hs_next_flag st \<le> a \<and> a < hs_next_flag st + length ds)),
           hs_next_flag := hs_next_flag st + length ds, hs_world := w\<rparr>) \<and>
    (\<forall>q. \<exists>ps. sent q w = sent q (hs_world st) @ ps \<and>
      list_all2 (\<lambda>d p. discover_message (nm_mac (nd_metadata d)) 0x12345678 13 = Ret (Some p)) (on_queue q ds) ps)"
  using assms(2)
proof (induction ds arbitrary: st)
  case Nil
  show ?case
    by (rule exI [of _ "hs_world st"]) simp
next
  case (Cons d ds)
  let ?ind = "hs_next_flag st"
  let ?st = "st\<lparr>hs_flags := (hs_flags st)(?ind := False), hs_next_flag := Suc ?ind\<rparr>"
  obtain p where p: "discover_message (nm_mac (nd_metadata d)) 0x12345678 13 = Ret (Some p)"
    using discover_message_built by blast
  have "notify_quiet sent (pqs_notify (nd_packet_queue (discovering ?ind d)))"
    using Cons.prems by (simp add: all_quiet_def)
  from device_send_sent [OF assms(1) this, of p ?st]
  obtain w where w: "device_send ops (discovering ?ind d) p ?st = Ret (?st\<lparr>hs_world := w\<rparr>)"
      "\<And>q. sent q w = (if q = pqs_queue (nd_packet_queue d) then sent q (hs_world st) @ [p] else sent q (hs_world st))"
    by auto
  have "all_quiet sent ds"
    using Cons.prems by (simp add: all_quiet_def)
  from Cons.IH [OF this, of "?st\<lparr>hs_world := w\<rparr>"]
  obtain w' where w': "start_discovery ops ds (?st\<lparr>hs_world := w\<rparr>) =
      Ret (map2 discovering [Suc ?ind ..< Suc ?ind + length ds] ds,
        ?st\<lparr>hs_flags := (\<lambda>a. ((hs_flags st)(?ind := False)) a \<and> \<not> (Suc ?ind \<le> a \<and> a < Suc ?ind + length ds)),
           hs_next_flag := Suc ?ind + length ds, hs_world := w'\<rparr>)"
      "\<And>q. \<exists>ps. sent q w' = sent q w @ ps \<and>
        list_all2 (\<lambda>d p. discover_message (nm_mac (nd_metadata d)) 0x12345678 13 = Ret (Some p)) (on_queue q ds) ps"
    by auto
  have flags: "(\<lambda>a. ((hs_flags st)(?ind := False)) a \<and> \<not> (Suc ?ind \<le> a \<and> a < Suc ?ind + length ds)) =
      (\<lambda>a. hs_flags st a \<and> \<not> (?ind \<le> a \<and> a < ?ind + length (d # ds)))"
    by (auto simp: fun_eq_iff)
  have devs: "discovering ?ind d # map2 discovering [Suc ?ind ..< Suc ?ind + length ds] ds =
      map2 discovering [?ind ..< ?ind + length (d # ds)] (d # ds)"
    by (simp add: upt_conv_Cons del: upt_Suc)
  have "\<exists>ps. sent q w' = sent q (hs_world st) @ ps \<and>
      list_all2 (\<lambda>d p. discover_message (nm_mac (nd_metadata d)) 0x12345678 13 = Ret (Some p)) (on_queue q (d # ds)) ps" for q
    using w'(2) [of q] w(2) [of q] p by (fastforce simp: list_all2_Cons1)
  moreover have "start_discovery ops (d # ds) st =
      Ret (map2 discovering [?ind ..< ?ind + length (d # ds)] (d # ds),
        st\<lparr>hs_flags := (\<lambda>a. hs_flags st a \<and> \<not> (?ind \<le> a \<and> a < ?ind + length (d # ds))),
           hs_next_flag := ?ind + length (d # ds), hs_world := w'\<rparr>)"
    unfolding devs [symmetric] flags [symmetric] start_discovery.simps Let_def discovering_def [symmetric]
    using p w(1) w'(1) by simp
  ultimately show ?case
    by blast
qed

section \<open>Concrete queues and frames\<close>

text \<open>Queues as lists: an instance of the parameters that has the laws, used to evaluate the model.\<close>

record list_world =
  lw_next :: nat
  lw_queue :: "nat \<Rightarrow> eth_packet list"
  lw_messages :: "handler_message list"
  lw_arp :: "(nat \<times> mac) list"
  lw_udp :: "(nat \<times> udp_packet) list"
  lw_woken :: "nat list"

definition list_ops :: "list_world net_ops" where
  "list_ops =
     \<lparr>op_queue_new = (\<lambda>w. (lw_next w, w\<lparr>lw_next := Suc (lw_next w), lw_queue := (lw_queue w)(lw_next w := [])\<rparr>)),
      op_enqueue = (\<lambda>q p w. (Some (), w\<lparr>lw_queue := (lw_queue w)(q := lw_queue w q @ [p])\<rparr>)),
      op_try_dequeue = (\<lambda>q w. (case lw_queue w q of [] \<Rightarrow> None | p # _ \<Rightarrow> Some p,
         w\<lparr>lw_queue := (lw_queue w)(q := tl (lw_queue w q))\<rparr>)),
      op_msg_enqueue = (\<lambda>m w. (Some (), w\<lparr>lw_messages := lw_messages w @ [m]\<rparr>)),
      op_arp_new = (\<lambda>w. (lw_next w, w\<lparr>lw_next := Suc (lw_next w)\<rparr>)),
      op_arp_try_enqueue = (\<lambda>q m w. (Some (), w\<lparr>lw_arp := lw_arp w @ [(q, m)]\<rparr>)),
      op_udp_try_enqueue = (\<lambda>q p w. (Some (), w\<lparr>lw_udp := lw_udp w @ [(q, p)]\<rparr>)),
      op_wake = (\<lambda>k w. w\<lparr>lw_woken := lw_woken w @ [k]\<rparr>)\<rparr>"

definition empty_world :: list_world where
  "empty_world =
     \<lparr>lw_next = 1, lw_queue = (\<lambda>_. []), lw_messages = [], lw_arp = [], lw_udp = [], lw_woken = []\<rparr>"

lemma list_ops_laws: "queue_laws list_ops (\<lambda>q w. lw_queue w q)"
  by (auto simp: queue_laws_def list_ops_def split: list.splits)

definition sample_device :: "ip4 option \<Rightarrow> dhcp_exchange \<Rightarrow> list_world network_device" where
  "sample_device ip dhcp =
     \<lparr>nd_id = 3, nd_mac = Mac 82 84 0 18 52 86, nd_packet_queue = \<lparr>pqs_queue = 0, pqs_notify = Ret\<rparr>,
      nd_metadata = \<lparr>nm_mac = Mac 82 84 0 18 52 86, nm_ip = ip, nm_dhcp = dhcp\<rparr>, nd_udp_bindings = Map.empty\<rparr>"

definition sample_state :: "list_world network_device list \<Rightarrow> list_world handler_state" where
  "sample_state ds =
     \<lparr>hs_devices = ds, hs_udp = Map.empty, hs_arp = Map.empty, hs_ping = Map.empty, hs_ips = Some ip_map_new,
      hs_flags = (\<lambda>_. False), hs_next_flag = 0, hs_notes = [], hs_world = empty_world\<rparr>"

lemma sample_quiet: "notify_quiet (\<lambda>q w. lw_queue w q) (pqs_notify (nd_packet_queue (sample_device ip dhcp)))"
  by (simp add: notify_quiet_def sample_device_def)

lemma dhcp_frame_built:
  assumes h: "ipv4_set_checksum (ipv4_builder_header ip n) = Ret h" and udp: "ids_protocol ip = Udp"
    and len: "length rest \<le> 2006" and data: "dhcp_data_try_from rest = Ret (Some d)"
    and ports: "uh_source_port uh = 67" "uh_destination_port uh = 68"
  shows "dhcp_frame (eth_packet_of (eth_frame dm sm (eth_type_into Eth_Ipv4)
    (ipv4_header_bytes h @ udp_header_bytes uh @ rest))) d"
proof -
  let ?p = "eth_packet_of (eth_frame dm sm (eth_type_into Eth_Ipv4)
    (ipv4_header_bytes h @ udp_header_bytes uh @ rest))"
  have "ipv4_packet_header (ipv4_packet_new ?p) = Ret (ipv4_reread h)"
    using ipv4_built_accessors(1) [OF h, of "udp_header_bytes uh @ rest"] len by simp
  moreover have "ih_protocol (ipv4_reread h) = Udp"
    using ipv4_built_header [OF h] udp
    by (metis (no_types, lifting) ipv4_builder_header_def ipv4_header.select_convs(10)
        ipv4_header.update_convs(11) ipv4_reread_def protocol_from_into_named(3) protocol_into.simps(2))
  ultimately show ?thesis
    using dhcp_packet_get_built(1,2) [OF h len data] ports len
    by (simp add: dhcp_frame_def eth_accessors_frame del: eth_type_into.simps)
qed

text \<open>A DHCP reply from the server 10.0.2.2 with the message type \<open>op\<close>.\<close>

definition sample_reply_header :: ipv4_header where
  "sample_reply_header = (case ipv4_set_checksum (ipv4_builder_header ipv4_sample 272) of Ret h \<Rightarrow> h)"

definition sample_reply :: "u8 \<Rightarrow> eth_packet" where
  "sample_reply op =
     eth_packet_of (eth_frame broadcast_mac (Mac 82 85 10 0 2 2) (eth_type_into Eth_Ipv4)
       (ipv4_header_bytes sample_reply_header @
        udp_header_bytes \<lparr>uh_source_port = 67, uh_destination_port = 68, uh_length = 252, uh_checksum = 0\<rparr> @
        dhcp_fixed (Mac 82 84 0 18 52 86) 0x12345678 (Ip4 0 0 0 0) (Ip4 10 0 2 2) @ [53, 1, op, 255]))"

lemma sample_reply_frame:
  "dhcp_frame (sample_reply op)
     (dhcp_fixed_data (Mac 82 84 0 18 52 86) 0x12345678 (Ip4 0 0 0 0) (Ip4 10 0 2 2) op)"
  "eth_destination_mac (sample_reply op) = Ret broadcast_mac"
proof -
  have "\<exists>h. ipv4_set_checksum (ipv4_builder_header ipv4_sample 272) = Ret h"
    by (simp add: ipv4_set_checksum_eq ipv4_sample_total)
  then have h: "ipv4_set_checksum (ipv4_builder_header ipv4_sample 272) = Ret sample_reply_header"
    by (auto simp: sample_reply_header_def)
  show "dhcp_frame (sample_reply op)
     (dhcp_fixed_data (Mac 82 84 0 18 52 86) 0x12345678 (Ip4 0 0 0 0) (Ip4 10 0 2 2) op)"
    unfolding sample_reply_def
    by (rule dhcp_frame_built [OF h])
      (simp_all add: ipv4_sample_def ipv4_builder_defs dhcp_data_try_from_fixed)
  show "eth_destination_mac (sample_reply op) = Ret broadcast_mac"
    by (simp add: sample_reply_def eth_accessors_frame)
qed

section \<open>Echo requests sent\<close>

interpretation ping_writer: payload_writer "\<lambda>payload. Ret (payload, Some 0)" 0 "[]" 0
  by unfold_locales simp_all

text \<open>The header of an echo request folds its carries in one step.\<close>

definition ping_fits :: "networking_metadata \<Rightarrow> ip4 \<Rightarrow> mac \<Rightarrow> bool" where
  "ping_fits meta ip mac \<longleftrightarrow>
     (let t = ipv4_header_total (ipv4_builder_header (ping_ip_builder meta ip mac) 28)
      in t mod 65536 + t div 65536 < 65536)"

lemma ping_covered_sum: "sum_words 0 (icmp_covered (EchoRequest 0x1234 0x2345) 0 []) = Ret 0x3d79"
proof -
  have "u16_from_be 8 0 = 0x800" "u16_from_be 0 0 = 0" "u16_from_be 18 52 = 0x1234"
    "u16_from_be 35 69 = 0x2345" "u16_to_be 0x1234 = [18, 52]" "u16_to_be 0x2345 = [35, 69]"
    "u16_to_be 0 = [0, 0]"
    by (simp_all add: u16_from_be_def u16_to_be_def)
  then show ?thesis
    by (simp add: icmp_covered_def icmp_message_def fill_short add_w_def)
qed

lemma ping_query_built:
  assumes "ping_fits (nd_metadata d) ip mac"
  obtains p h where "ping_query ip mac d = Ret (Some p)" "eth_destination_mac p = Ret mac"
    "icmp_get_type (icmp_packet_new (ipv4_packet_new p)) = Ret (EchoRequest 0x1234 0x2345)"
    "ipv4_packet_header (ipv4_packet_new p) = Ret h" "ih_destination_ip h = ip" "ih_protocol h = Icmp"
proof -
  let ?ip = "ping_ip_builder (nd_metadata d) ip mac"
  obtain h where h: "ipv4_set_checksum (ipv4_builder_header ?ip (28 + 0)) = Ret h"
    using assms by (auto simp: ping_fits_def ipv4_set_checksum_eq Let_def)
  have fold: "fold_carries 0x3d79 = Ret 0xc286"
    by (simp add: fold_carries_def add_w_def Let_def)
  have macs: "ids_destination_mac ?ip = mac" "ids_destination ?ip = ip" "ids_protocol ?ip = Icmp"
    by (simp_all add: ping_ip_builder_def ipv4_builder_defs)
  let ?body = "fill 18 []"
  have len: "length ?body \<le> 2006" and canon: "icmp_type_canonical (EchoRequest 0x1234 0x2345)"
    by simp_all
  note acc = icmp_built_accessors [OF h len canon refl]
  have "ipv4_delivered ?ip 8 (ipv4_reread h)"
    using ipv4_reread_delivered(1) [of ?ip 8 h] h by simp
  then show ?thesis
    using that [OF _ _ acc(1), where h = "ipv4_reread h"] acc(4)
      ping_writer.icmp_finish_frame [OF _ _ fold h, where s = "\<lparr>its_ty = EchoRequest 0x1234 0x2345\<rparr>"]
      ping_covered_sum macs
    by (simp add: ping_query_def icmp_builder_set_type_def icmp_packet_new_def eth_accessors_frame
        ipv4_delivered_def)
qed

lemma ping_query_overflow:
  assumes "\<not> ping_fits (nd_metadata d) ip mac"
  shows "ping_query ip mac d = Panic ArithOverflow"
  using assms ipv4_finish_checksum_panic [of 8 "ping_ip_builder (nd_metadata d) ip mac" ArithOverflow]
  by (simp add: ping_query_def icmp_finish_def icmp_builder_set_type_def rust_simps ping_fits_def
      ipv4_set_checksum_eq Let_def)

lemma echo_request_payload:
  assumes "icmp_get_type p = Ret (EchoRequest a b)"
  shows "\<exists>payload. icmp_payload p = Ret payload"
proof -
  obtain raw where raw: "ipv4_packet_payload (icmp_ip p) = Ret raw" "icmp_type_from raw = Ret (EchoRequest a b)"
    using assms by (auto simp: icmp_get_type_def elim!: xbind_eq_RetE)
  then have "8 \<le> length raw"
    by (auto simp: icmp_type_from_def slice_range_def elim!: xbind_eq_RetE split: if_splits)
  then show ?thesis
    using assms raw(1) by (simp add: icmp_payload_def rust_simps)
qed

end
