(* ===== verification/Net_Api.thy ===== *)
theory Net_Api
  imports Net_Handler
begin

text \<open>
  \<^verbatim>\<open>extensions/networking/api.rs\<close> and the interrupt entry \<^verbatim>\<open>extensions/networking/interrupt.rs\<close>:
  what a task calls to resolve an address or to ping, and what the card's interrupt runs.
  \<^verbatim>\<open>HANDLE_QUEUE\<close> is set when the extension is set up; \<open>ready\<close> says whether it is.
\<close>

section \<open>get\_mac\<close>

text \<open>
  The part of \<^verbatim>\<open>get_mac\<close> before it waits: the handle it will wait on, or none when the enqueue
  failed. It then waits on that queue for one answer.
\<close>

definition get_mac :: "'w net_ops \<Rightarrow> bool \<Rightarrow> ip4 \<Rightarrow> 'w \<Rightarrow> (nat option \<times> 'w) exec" where
  "get_mac ops ready ip w =
     (if \<not> ready then Panic UnwrapFailed
      else
        (case op_arp_new ops w of
           (queue, w) \<Rightarrow>
             (case op_msg_enqueue ops (Msg_Action (SendArpRequest ip queue)) w of
                (None, w) \<Rightarrow> Ret (None, w)
              | (Some _, w) \<Rightarrow> Ret (Some queue, w))))"

section \<open>PingFuture\<close>

record ping_future =
  pf_ip :: "ip4 option"
  pf_mac :: "mac option"
  pf_send :: bool
  pf_returned :: nat

datatype ping_poll = Ping_Ready | Ping_Pending

definition raw_ping :: "ip4 \<Rightarrow> mac \<Rightarrow> 'w handler_state \<Rightarrow> ping_future \<times> 'w handler_state" where
  "raw_ping ip mac st =
     (\<lparr>pf_ip = Some ip, pf_mac = Some mac, pf_send = False, pf_returned = hs_next_flag st\<rparr>,
      st\<lparr>hs_flags := (hs_flags st)(hs_next_flag st := False), hs_next_flag := Suc (hs_next_flag st)\<rparr>)"

text \<open>\<^verbatim>\<open>poll\<close> with the waker of the polling task; the flags are those the handler works on.\<close>

definition ping_future_poll ::
  "'w net_ops \<Rightarrow> bool \<Rightarrow> nat \<Rightarrow> ping_future \<Rightarrow> 'w handler_state \<Rightarrow>
     (ping_poll \<times> ping_future \<times> 'w handler_state) exec" where
  "ping_future_poll ops ready waker f st =
     (if hs_flags st (pf_returned f) then Ret (Ping_Ready, f, st)
      else if \<not> pf_send f then
        (if \<not> ready then Panic UnwrapFailed
         else
           xbind (unwrap (pf_mac f)) (\<lambda>mac.
           let f = f\<lparr>pf_mac := None\<rparr> in
           xbind (unwrap (pf_ip f)) (\<lambda>ip.
           let f = f\<lparr>pf_ip := None\<rparr>;
               w = snd (op_msg_enqueue ops (Msg_Action (PingRequest waker ip mac (pf_returned f))) (hs_world st))
           in Ret (Ping_Pending, f\<lparr>pf_send := True\<rparr>, st\<lparr>hs_world := w\<rparr>))))
      else Ret (Ping_Pending, f, st))"

section \<open>handle\_interrupt\<close>

text \<open>
  \<^verbatim>\<open>INT_DEVICES\<close>: \<open>None\<close> for a static not set yet, \<open>Some None\<close> when the lock is taken,
  \<open>Some (Some devices)\<close> otherwise. A device is given by the two trait methods used,
  \<^verbatim>\<open>handles_interrupt\<close> and \<^verbatim>\<open>handle_interrupt\<close>, acting on the device's own state and the world;
  \<^verbatim>\<open>handle_interrupt\<close> has loops and may not return.
\<close>

definition init_devices :: "'d list \<Rightarrow> 'd list option option \<Rightarrow> 'd list option option" where
  "init_devices devices int_devices =
     (case int_devices of None \<Rightarrow> Some (Some devices) | Some d \<Rightarrow> Some d)"

fun service_devices ::
  "('d \<Rightarrow> u8 \<Rightarrow> bool) \<Rightarrow> ('d \<Rightarrow> 'w \<Rightarrow> ('d \<times> 'w) exec option) \<Rightarrow> 'd list \<Rightarrow> 'w \<Rightarrow>
     ('d list \<times> 'w) exec option" where
  "service_devices handles service [] w = lift_x (Ret ([], w))"
| "service_devices handles service (n_device # devices) w =
     (if \<not> handles n_device 0xb
      then lbind (service_devices handles service devices w) (\<lambda>(devices, w).
        lift_x (Ret (n_device # devices, w)))
      else
        lbind (service n_device w) (\<lambda>(n_device, w).
        lbind (service_devices handles service devices w) (\<lambda>(devices, w).
        lift_x (Ret (n_device # devices, w)))))"

definition net_handle_interrupt ::
  "('d \<Rightarrow> u8 \<Rightarrow> bool) \<Rightarrow> ('d \<Rightarrow> 'w \<Rightarrow> ('d \<times> 'w) exec option) \<Rightarrow> bool \<Rightarrow> 'd list option option \<Rightarrow> 'w \<Rightarrow>
     ('d list option option \<times> 'w) exec option" where
  "net_handle_interrupt handles service ready int_devices w =
     (if \<not> ready then lift_x (Ret (int_devices, w))
      else
        lbind (lift_x (unwrap int_devices)) (\<lambda>locked.
        case locked of
          None \<Rightarrow> lift_x (Ret (int_devices, w))
        | Some devices \<Rightarrow>
            lbind (service_devices handles service devices w) (\<lambda>(devices, w).
            lift_x (Ret (Some (Some devices), w)))))"

text \<open>
  The contract of \<^verbatim>\<open>trait NetworkingDevice\<close>, for a device type with a state invariant: servicing an
  interrupt keeps the invariant and the identity, and the only panic it may end in is \<open>allowed\<close>.
\<close>

locale networking_device =
  fixes handles :: "'d \<Rightarrow> u8 \<Rightarrow> bool" and service :: "'d \<Rightarrow> 'w \<Rightarrow> ('d \<times> 'w) exec option"
    and dev_id :: "'d \<Rightarrow> nat" and dev_inv :: "'d \<Rightarrow> bool" and allowed :: "panic \<Rightarrow> bool"
  assumes service_ok: "dev_inv d \<Longrightarrow> service d w = Some (Ret (d', w')) \<Longrightarrow> dev_inv d' \<and> dev_id d' = dev_id d"
    and service_panic: "dev_inv d \<Longrightarrow> service d w = Some (Panic p) \<Longrightarrow> allowed p"
begin

lemma service_devices_ok:
  assumes "list_all dev_inv ds" and "service_devices handles service ds w = Some (Ret (ds', w'))"
  shows "list_all dev_inv ds' \<and> map dev_id ds' = map dev_id ds"
  using assms
proof (induction ds arbitrary: w ds' w')
  case (Cons d ds)
  then show ?case
    by (auto simp: lbind_Ret_iff split: if_splits dest: service_ok)
qed simp

lemma service_devices_panic:
  assumes "list_all dev_inv ds" and "service_devices handles service ds w = Some (Panic p)"
  shows "allowed p"
  using assms
proof (induction ds arbitrary: w)
  case (Cons d ds)
  then show ?case
    by (auto simp: lbind_Some_iff split: if_splits dest: service_panic)
qed simp

text \<open>An interrupt run over the installed devices.\<close>

lemma interrupt_ok:
  assumes "list_all dev_inv ds"
    and "net_handle_interrupt handles service ready (Some (Some ds)) w = Some r"
  shows "(\<exists>ds' w'. r = Ret (Some (Some ds'), w') \<and> list_all dev_inv ds' \<and> map dev_id ds' = map dev_id ds) \<or>
    (\<exists>p. r = Panic p \<and> allowed p)"
  using assms service_devices_ok [OF assms(1)] service_devices_panic [OF assms(1)]
  by (auto simp: net_handle_interrupt_def lbind_Some_iff split: if_splits)

end

text \<open>A device that does not handle the interrupt keeps its state.\<close>

lemma service_devices_skips:
  assumes "service_devices handles service ds w = Some (Ret (ds', w'))" and "k < length ds" and "\<not> handles (ds ! k) 0xb"
  shows "ds' ! k = ds ! k"
  using assms
  by (induction handles service ds w arbitrary: ds' w' k rule: service_devices.induct)
    (auto simp: lbind_Ret_iff split: if_splits simp: nth_Cons split: nat.splits)

end
