(* ===== verification/Net_Properties.thy ===== *)
theory Net_Properties
  imports Net_Api
begin

text \<open>
  The properties of the network handler: its DHCP exchange against the specification, the
  invariant of its reachable states, and what it does on each kind of packet and request.
\<close>

section \<open>DHCP\<close>


lemma sample_receives:
  "receives (sample_state [sample_device ip dhcp]) 3 0 (sample_reply op)"
  by (simp add: receives_def sample_state_def sample_device_def addressed_to_def sample_reply_frame(2))


text \<open>
  C2: in every state the handler reaches, whatever messages arrive and whatever the rest of the
  kernel does to the queues and flags in between, a device has an address exactly when its
  exchange is done, and the list of device ids and hardware addresses is the one it started
  with.
\<close>

theorem handler_invariant:
  assumes "net_reach ops devices st0 st" and "\<forall>d \<in> set devices. fresh_device d"
  shows "(\<forall>d \<in> set (hs_devices st). nm_ip (nd_metadata d) \<noteq> None \<longleftrightarrow> nm_dhcp (nd_metadata d) = Ex_Done) \<and>
    map (\<lambda>d. (nd_id d, nd_mac d, nm_mac (nd_metadata d))) (hs_devices st) =
      map (\<lambda>d. (nd_id d, nd_mac d, nm_mac (nd_metadata d))) devices"
  using net_reach_inv [OF assms] by (simp add: device_inv_def)

lemma sample_start:
  "\<exists>st. handler_start list_ops [sample_device None Ex_Initial] (sample_state []) = Ret st \<and>
     hs_devices st = [sample_device None (Ex_Discover 0 0x12345678)]"
proof -
  have "all_quiet (\<lambda>q w. lw_queue w q) [sample_device None Ex_Initial]"
    by (simp add: all_quiet_def sample_quiet)
  from start_discovery_sent [OF list_ops_laws this, of "sample_state []"] show ?thesis
    by (auto simp: handler_start_def sample_state_def discovering_def sample_device_def)
qed

theorem handler_invariant_witness:
  "\<exists>st. net_reach list_ops [sample_device None Ex_Initial] (sample_state []) st \<and>
     map (\<lambda>d. (nd_id d, nd_mac d, nm_mac (nd_metadata d))) (hs_devices st) =
       [(3, Mac 82 84 0 18 52 86, Mac 82 84 0 18 52 86)]"
proof -
  obtain st where "handler_start list_ops [sample_device None Ex_Initial] (sample_state []) = Ret st"
    using sample_start by blast
  then have reach: "net_reach list_ops [sample_device None Ex_Initial] (sample_state []) st"
    by (rule net_reach.start)
  show ?thesis
    using reach handler_invariant [OF reach] by (auto simp: fresh_device_def sample_device_def)
qed

text \<open>
  C13: the start of the task. With queues that keep their contract and notify closures that
  return, starting never panics: every device is put in the discovering state with a fresh
  indicator that reads false, its address unchanged, and on every queue exactly one discover message
  is added for each device that sends over it, in order.
\<close>

theorem handler_start_discovers:
  assumes "queue_laws ops sent" and "all_quiet sent devices"
  shows "\<exists>st'. handler_start ops devices st = Ret st' \<and>
    hs_devices st' = map2 discovering [hs_next_flag st ..< hs_next_flag st + length devices] devices \<and>
    (\<forall>k < length devices. \<not> hs_flags st' (hs_next_flag st + k)) \<and>
    (\<forall>q. \<exists>ps. sent q (hs_world st') = sent q (hs_world st) @ ps \<and>
      list_all2 (\<lambda>d p. discover_message (nm_mac (nd_metadata d)) 0x12345678 13 = Ret (Some p))
        (on_queue q devices) ps)"
  using start_discovery_sent [OF assms, of st] by (fastforce simp: handler_start_def)

theorem handler_start_discovers_witness:
  "\<exists>st' p. handler_start list_ops [sample_device None Ex_Initial] (sample_state []) = Ret st' \<and>
     hs_devices st' = [discovering 0 (sample_device None Ex_Initial)] \<and> \<not> hs_flags st' 0 \<and>
     lw_queue (hs_world st') 0 = [p] \<and>
     discover_message (Mac 82 84 0 18 52 86) 0x12345678 13 = Ret (Some p)"
proof -
  have quiet: "all_quiet (\<lambda>q w. lw_queue w q) [sample_device None Ex_Initial]"
    by (simp add: all_quiet_def sample_quiet)
  obtain st' ps where st': "handler_start list_ops [sample_device None Ex_Initial] (sample_state []) = Ret st'"
      "hs_devices st' = [discovering 0 (sample_device None Ex_Initial)]" "\<not> hs_flags st' 0"
      "lw_queue (hs_world st') 0 = lw_queue empty_world 0 @ ps"
      "list_all2 (\<lambda>d p. discover_message (nm_mac (nd_metadata d)) 0x12345678 13 = Ret (Some p))
        (on_queue 0 [sample_device None Ex_Initial]) ps"
    using handler_start_discovers [OF list_ops_laws quiet, of "sample_state []"]
    by (fastforce simp: sample_state_def)
  then show ?thesis
    by (auto simp: sample_device_def empty_world_def list_all2_Cons1)
qed

text \<open>
  C3: the exchange. A discovering device that receives an offer and then an acknowledgement with
  its transaction id ends up with the offered address: the first message makes it send exactly one request, for the
  offered address and to the offering server, the second sets the address, ends the exchange
  and raises the indicator.
\<close>

theorem dhcp_handshake:
  fixes st :: "'w handler_state"
  defines "queue i s \<equiv> nd_packet_queue (hs_devices s ! i)" and "meta i s \<equiv> nd_metadata (hs_devices s ! i)"
  assumes laws: "queue_laws ops sent" and quiet: "notify_quiet sent (pqs_notify (queue i st))"
    and recv: "receives st k i p1" "receives st k i p2"
    and off: "dhcp_frame p1 off" "dd_operation off = Dhcp_Offer"
    and ack: "dhcp_frame p2 ack" "dd_operation ack = Dhcp_Ack"
    and xid: "nm_dhcp (meta i st) = Ex_Discover ind (dd_xid off)" "dd_xid ack = dd_xid off"
  shows "\<exists>st' q. handler_loop ops [Msg_Packet (raw_of k p1), Msg_Packet (raw_of k p2)] st = Ret st' \<and>
      nm_ip (meta i st') = Some (dd_yiaddr off) \<and> nm_dhcp (meta i st') = Ex_Done \<and> hs_flags st' ind \<and>
      request_message (nm_mac (meta i st)) (dd_xid off) (dd_yiaddr off) (dd_siaddr off) 0 = Ret (Some q) \<and>
      sent (pqs_queue (queue i st)) (hs_world st') = sent (pqs_queue (queue i st)) (hs_world st) @ [q]"
proof -
  have i: "i < length (hs_devices st)" and find: "find_device k (hs_devices st) = Some i"
    using recv(1) find_device_Some by (auto simp: receives_def)
  obtain w q where first: "handle_packet ops (raw_of k p1) st = Ret (put_metadata i
        ((meta i st)\<lparr>nm_dhcp := Ex_Requested ind (dd_xid off) (dd_yiaddr off) (dd_siaddr off)\<rparr>)
        (st\<lparr>hs_world := w\<rparr>))"
      and q: "request_message (nm_mac (meta i st)) (dd_xid off) (dd_yiaddr off) (dd_siaddr off) 0 = Ret (Some q)"
      and sent: "sent (pqs_queue (queue i st)) w = sent (pqs_queue (queue i st)) (hs_world st) @ [q]"
    using handle_offer [OF laws quiet [unfolded queue_def] recv(1) off xid(1) [unfolded meta_def]]
    by (auto simp: queue_def meta_def)
  let ?st1 = "put_metadata i
        ((meta i st)\<lparr>nm_dhcp := Ex_Requested ind (dd_xid off) (dd_yiaddr off) (dd_siaddr off)\<rparr>)
        (st\<lparr>hs_world := w\<rparr>)"
  have find': "find_device k (hs_devices ?st1) = Some i"
    using find by (simp add: find_device_update)
  have state: "nm_dhcp (nd_metadata (hs_devices ?st1 ! i)) =
      Ex_Requested ind (dd_xid ack) (dd_yiaddr off) (dd_siaddr off)"
    using i xid(2) by simp
  have recv2: "receives ?st1 k i p2"
    using recv(2) i find' by (auto simp: receives_def addressed_to_def meta_def)
  show ?thesis
    using first handle_ack [OF recv2 ack state] i q sent by (simp add: meta_def)
qed

theorem dhcp_handshake_witness:
  "\<exists>st' q. handler_loop list_ops [Msg_Packet (raw_of 3 (sample_reply 2)), Msg_Packet (raw_of 3 (sample_reply 5))]
        (sample_state [sample_device None (Ex_Discover 7 0x12345678)]) = Ret st' \<and>
      nm_ip (nd_metadata (hs_devices st' ! 0)) = Some (Ip4 0 0 0 0) \<and> hs_flags st' 7 \<and>
      request_message (Mac 82 84 0 18 52 86) 0x12345678 (Ip4 0 0 0 0) (Ip4 10 0 2 2) 0 = Ret (Some q) \<and>
      lw_queue (hs_world st') 0 = [q]"
proof -
  let ?st = "sample_state [sample_device None (Ex_Discover 7 0x12345678)]"
  have quiet: "notify_quiet (\<lambda>q w. lw_queue w q) (pqs_notify (nd_packet_queue (hs_devices ?st ! 0)))"
    using sample_quiet by (simp add: sample_state_def)
  show ?thesis
    using dhcp_handshake [OF list_ops_laws quiet sample_receives sample_receives
        sample_reply_frame(1) _ sample_reply_frame(1), of 2 5 7]
    by (auto simp: dhcp_fixed_data_def dhcp_operation_from_def)
      (auto simp: sample_state_def sample_device_def empty_world_def)
qed

section \<open>ARP\<close>

text \<open>
  C11: an ARP request received by a device is answered exactly when the device has the address asked
  for: one response then goes out on the device's queue, to the asking host, with the device's
  hardware address for that address. Otherwise nothing changes.
\<close>

theorem arp_request_answered:
  fixes st :: "'w handler_state"
  assumes laws: "queue_laws ops sent"
    and quiet: "notify_quiet sent (pqs_notify (nd_packet_queue (hs_devices st ! i)))"
    and recv: "receives st k i p" and ty: "eth_ether_type p = Ret Eth_Arp"
    and a: "arp_packet_new p = Ret (Some a)" "arp_packet_operation a = Arp_Request"
  shows "if nm_ip (nd_metadata (hs_devices st ! i)) = Some (arp_packet_dest_ip a)
    then \<exists>w r b. handle_packet ops (raw_of k p) st = Ret (st\<lparr>hs_world := w\<rparr>) \<and>
      sent (pqs_queue (nd_packet_queue (hs_devices st ! i))) w =
        sent (pqs_queue (nd_packet_queue (hs_devices st ! i))) (hs_world st) @ [r] \<and>
      eth_destination_mac r = Ret (arp_src_mac a) \<and> arp_packet_new r = Ret (Some b) \<and>
      arp_packet_operation b = Arp_Response \<and> arp_src_ip b = arp_packet_dest_ip a \<and>
      arp_src_mac b = nm_mac (nd_metadata (hs_devices st ! i)) \<and> arp_packet_dest_ip b = arp_src_ip a
    else handle_packet ops (raw_of k p) st = Ret st"
proof (cases "nm_ip (nd_metadata (hs_devices st ! i))")
  case (Some ip)
  let ?r = "arp_sent 2 (nm_mac (nd_metadata (hs_devices st ! i))) ip (arp_src_mac a) (arp_src_ip a)"
  obtain w where "device_send ops (hs_devices st ! i) ?r st = Ret (st\<lparr>hs_world := w\<rparr>)"
      "sent (pqs_queue (nd_packet_queue (hs_devices st ! i))) w =
        sent (pqs_queue (nd_packet_queue (hs_devices st ! i))) (hs_world st) @ [?r]"
    using device_send_sent [OF laws quiet, of ?r st] by auto
  then show ?thesis
    using Some a
    by (auto simp: handle_packet_receives(1) [OF recv ty] handle_arp_def arp_finish_built arp_sent_read
        arp_packet_operation_def arp_packet_dest_ip_def)
qed (use a in \<open>simp add: handle_packet_receives(1) [OF recv ty] handle_arp_def\<close>)

lemma sample_arp_receives:
  "receives (sample_state [sample_device ip dhcp]) 3 0 (arp_sent op sm si broadcast_mac di)"
  by (simp add: receives_def sample_state_def sample_device_def addressed_to_def arp_sent_read)

lemma sample_state_quiet:
  "notify_quiet (\<lambda>q w. lw_queue w q) (pqs_notify (nd_packet_queue (hs_devices (sample_state [sample_device ip dhcp]) ! 0)))"
  using sample_quiet by (simp add: sample_state_def)

theorem arp_request_answered_witness:
  "\<exists>w r b. handle_packet list_ops (raw_of 3 (arp_sent 1 (Mac 1 2 3 4 5 6) (Ip4 10 0 2 2) broadcast_mac (Ip4 10 0 2 15)))
        (sample_state [sample_device (Some (Ip4 10 0 2 15)) Ex_Done]) =
        Ret ((sample_state [sample_device (Some (Ip4 10 0 2 15)) Ex_Done])\<lparr>hs_world := w\<rparr>) \<and>
      lw_queue w 0 = [r] \<and> eth_destination_mac r = Ret (Mac 1 2 3 4 5 6) \<and> arp_packet_new r = Ret (Some b) \<and>
      arp_src_ip b = Ip4 10 0 2 15 \<and> arp_src_mac b = Mac 82 84 0 18 52 86"
  using arp_request_answered [OF list_ops_laws sample_state_quiet
      sample_arp_receives [of "Some (Ip4 10 0 2 15)" Ex_Done 1 "Mac 1 2 3 4 5 6" "Ip4 10 0 2 2" "Ip4 10 0 2 15"]
      arp_sent_read(3,4)]
  by (auto simp: arp_packet_operation_def arp_packet_dest_ip_def sample_state_def sample_device_def empty_world_def)

text \<open>
  C12: an ARP response received by a device always enters the address cache. A task waiting for that
  address is removed from the table and given the hardware address; if its queue refuses it
  (the task is gone) the handler panics. No other entry of cache and table changes.
\<close>

theorem arp_response_delivered:
  assumes recv: "receives st k i p" and ty: "eth_ether_type p = Ret Eth_Arp"
    and a: "arp_packet_new p = Ret (Some a)" "arp_packet_operation a = Arp_Response"
    and ips: "hs_ips st = Some ips"
  shows "handle_packet ops (raw_of k p) st =
    (let st1 = st\<lparr>hs_ips := Some (ips(arp_src_ip a \<mapsto> arp_src_mac a))\<rparr> in
     case hs_arp st (arp_src_ip a) of
       None \<Rightarrow> Ret st1
     | Some q \<Rightarrow>
         (case op_arp_try_enqueue ops q (arp_src_mac a) (hs_world st) of
            (None, w) \<Rightarrow> Panic UnwrapFailed
          | (Some _, w) \<Rightarrow> Ret (st1\<lparr>hs_arp := (hs_arp st)(arp_src_ip a := None), hs_world := w\<rparr>)))"
  using a ips
  by (auto simp: handle_packet_receives(1) [OF recv ty] handle_arp_def ip_map_set_def Let_def
      split: option.splits prod.splits)

theorem arp_response_delivered_witness:
  "\<exists>st'. handle_packet list_ops (raw_of 3 (arp_sent 2 (Mac 1 2 3 4 5 6) (Ip4 10 0 2 2) broadcast_mac (Ip4 10 0 2 15)))
        ((sample_state [sample_device None Ex_Initial])\<lparr>hs_arp := [Ip4 10 0 2 2 \<mapsto> 9]\<rparr>) = Ret st' \<and>
      hs_ips st' = Some [Ip4 10 0 2 2 \<mapsto> Mac 1 2 3 4 5 6] \<and> hs_arp st' = Map.empty \<and>
      lw_arp (hs_world st') = [(9, Mac 1 2 3 4 5 6)]"
proof -
  have recv: "receives ((sample_state [sample_device None Ex_Initial])\<lparr>hs_arp := [Ip4 10 0 2 2 \<mapsto> 9]\<rparr>) 3 0
      (arp_sent 2 (Mac 1 2 3 4 5 6) (Ip4 10 0 2 2) broadcast_mac (Ip4 10 0 2 15))"
    using sample_arp_receives [of None Ex_Initial] by (simp add: receives_def)
  show ?thesis
    using arp_response_delivered [OF recv arp_sent_read(3,4), of ip_map_new list_ops]
    by (simp add: arp_packet_operation_def sample_state_def list_ops_def ip_map_new_def empty_world_def)
qed

section \<open>Ping\<close>

text \<open>A frame that carries an ICMP message of the type \<open>ty\<close> from the host \<open>src\<close>.\<close>

definition icmp_frame :: "eth_packet \<Rightarrow> ip4 \<Rightarrow> icmp_type \<Rightarrow> bool" where
  "icmp_frame p src ty \<longleftrightarrow>
     eth_ether_type p = Ret Eth_Ipv4 \<and>
     (\<exists>h. ipv4_packet_header (ipv4_packet_new p) = Ret h \<and> ih_protocol h = Icmp \<and> ih_source_ip h = src) \<and>
     icmp_get_type (icmp_packet_new (ipv4_packet_new p)) = Ret ty"

lemma handle_packet_icmp:
  assumes "receives st k i p" and "icmp_frame p src ty"
  shows "handle_packet ops (raw_of k p) st = handle_icmp ops (ipv4_packet_new p) st"
  using assms(2) handle_packet_receives(2) [OF assms(1)] by (auto simp: icmp_frame_def)

lemma handle_echo_reply:
  assumes recv: "receives st k i p" and frame: "icmp_frame p src (EchoReply ident seq)"
  shows "handle_packet ops (raw_of k p) st =
    (case hs_ping st src of
       None \<Rightarrow> Ret st
     | Some (waker, result) \<Rightarrow>
         Ret (st\<lparr>hs_ping := (hs_ping st)(src := None), hs_flags := (hs_flags st)(result := True),
                 hs_world := op_wake ops waker (hs_world st)\<rparr>))"
  using frame
  by (auto simp: handle_packet_icmp [OF recv frame] handle_icmp_def icmp_frame_def icmp_ipv4_packet_def
      icmp_packet_new_def Let_def)

text \<open>
  The request of a ping. The waiting task is registered under the address, and on every
  queue one echo request is added for each device that sends over it, in order: addressed to the given hardware
  and IP address, with the identifier and sequence number of the kernel; provided the IPv4 header sum folds in one
  step for every device.
\<close>

lemma ping_request_sent:
  assumes laws: "queue_laws ops sent" and quiet: "all_quiet sent (hs_devices st)"
    and fits: "\<forall>d \<in> set (hs_devices st). ping_fits (nd_metadata d) ip mac"
  shows "\<exists>w. handle_message ops (Msg_Action (PingRequest waker ip mac result)) st =
      Ret (st\<lparr>hs_ping := (hs_ping st)(ip \<mapsto> (waker, result)), hs_world := w\<rparr>) \<and>
    (\<forall>q. \<exists>ps. sent q w = sent q (hs_world st) @ ps \<and>
      list_all2 (\<lambda>d p. eth_destination_mac p = Ret mac \<and>
          icmp_get_type (icmp_packet_new (ipv4_packet_new p)) = Ret (EchoRequest 0x1234 0x2345) \<and>
          (\<exists>h. ipv4_packet_header (ipv4_packet_new p) = Ret h \<and> ih_destination_ip h = ip))
        (on_queue q (hs_devices st)) ps)"
proof -
  let ?st = "st\<lparr>hs_ping := (hs_ping st)(ip \<mapsto> (waker, result))\<rparr>"
  let ?good = "\<lambda>p. eth_destination_mac p = Ret mac \<and>
          icmp_get_type (icmp_packet_new (ipv4_packet_new p)) = Ret (EchoRequest 0x1234 0x2345) \<and>
          (\<exists>h. ipv4_packet_header (ipv4_packet_new p) = Ret h \<and> ih_destination_ip h = ip)"
  have build: "\<exists>p. ping_query ip mac d = Ret (Some p) \<and> ?good p" if "d \<in> set (hs_devices st)" for d
    using ping_query_built [of d ip mac] fits that by metis
  have "\<exists>w. send_each ops (ping_query ip mac) (hs_devices st) ?st = Ret (?st\<lparr>hs_world := w\<rparr>) \<and>
      (\<forall>q. \<exists>ps. sent q w = sent q (hs_world ?st) @ ps \<and> list_all2 (\<lambda>d. ?good) (on_queue q (hs_devices st)) ps)"
    by (rule send_each_sent [OF laws quiet]) (rule build)
  then show ?thesis
    by (simp add: Let_def)
qed

lemma sample_ping_total:
  assumes "n < 65536"
  shows "ipv4_header_total (ipv4_builder_header (ping_ip_builder \<lparr>nm_mac = m, nm_ip = Some (Ip4 10 0 2 a), nm_dhcp = x\<rparr>
      (Ip4 10 0 2 b) mac) n) = 33589 + unat a + unat b + n"
proof -
  have words: "u16_from_be 69 0 = 0x4500" "u16_from_be 18 52 = 0x1234" "u16_from_be 0 0 = 0"
    "u16_from_be 20 1 = 0x1401" "u16_from_be 10 0 = 0xa00" "u16_from_be 18 4660 = 0x1234"
    by (simp_all add: u16_from_be_def)
  have last: "unat (u16_from_be 2 c) = 512 + unat c" for c
    by (simp add: unat_u16_from_be)
  show ?thesis
    using assms
    by (simp add: words last ipv4_header_total_def ipv4_builder_header_def ping_ip_builder_def
        ipv4_header_bytes_def ipv4_builder_defs u16_to_be_def unat_of_nat)
qed

lemma sample_ping_fits:
  "ping_fits (nd_metadata (sample_device (Some (Ip4 10 0 2 15)) Ex_Done)) (Ip4 10 0 2 2) mac"
  by (simp add: ping_fits_def sample_device_def sample_ping_total)

lemma sample_state_sel [simp]:
  "hs_devices (sample_state ds) = ds" "hs_ping (sample_state ds) = Map.empty"
  "hs_world (sample_state ds) = empty_world" "lw_queue empty_world q = []"
  by (simp_all add: sample_state_def empty_world_def)

lemma icmp_frame_built:
  assumes h: "ipv4_set_checksum (ipv4_builder_header ip (20 + n)) = Ret h" and proto: "ids_protocol ip = Icmp"
    and len: "length body \<le> 2006" and ty: "icmp_type_canonical ty"
  shows "icmp_frame (eth_packet_of (eth_frame dm sm (eth_type_into Eth_Ipv4)
    (ipv4_header_bytes h @ icmp_message ty c body))) (ids_source ip) ty"
proof -
  let ?p = "eth_packet_of (eth_frame dm sm (eth_type_into Eth_Ipv4) (ipv4_header_bytes h @ icmp_message ty c body))"
  have del: "ipv4_delivered ip n (ipv4_reread h)"
    using ipv4_reread_delivered(1) [OF h] .
  have "ipv4_packet_header (ipv4_packet_new ?p) = Ret (ipv4_reread h)"
    using ipv4_built_accessors(1) [OF h, of "icmp_message ty c body"] len by simp
  then show ?thesis
    using icmp_built_accessors(1) [OF h len ty refl] del proto len
    by (simp add: icmp_frame_def ipv4_delivered_def eth_accessors_frame del: eth_type_into.simps)
qed

text \<open>An ICMP message from the host 10.0.2.2 to the sample device.\<close>

definition sample_icmp :: "icmp_type \<Rightarrow> eth_packet" where
  "sample_icmp ty =
     eth_packet_of (eth_frame broadcast_mac (Mac 1 2 3 4 5 6) (eth_type_into Eth_Ipv4)
       (ipv4_header_bytes
          (case ipv4_set_checksum (ipv4_builder_header (ping_ip_builder
             \<lparr>nm_mac = Mac 1 2 3 4 5 6, nm_ip = Some (Ip4 10 0 2 2), nm_dhcp = Ex_Done\<rparr>
             (Ip4 10 0 2 15) (Mac 82 84 0 18 52 86)) 28) of Ret h \<Rightarrow> h) @
        icmp_message ty 0 (replicate 18 0)))"

lemma sample_icmp_frame:
  assumes "icmp_type_canonical ty"
  shows "icmp_frame (sample_icmp ty) (Ip4 10 0 2 2) ty" and "eth_destination_mac (sample_icmp ty) = Ret broadcast_mac"
proof -
  let ?ip = "ping_ip_builder \<lparr>nm_mac = Mac 1 2 3 4 5 6, nm_ip = Some (Ip4 10 0 2 2), nm_dhcp = Ex_Done\<rparr>
             (Ip4 10 0 2 15) (Mac 82 84 0 18 52 86)"
  obtain h where h: "ipv4_set_checksum (ipv4_builder_header ?ip 28) = Ret h"
    by (simp add: ipv4_set_checksum_eq sample_ping_total)
  show "icmp_frame (sample_icmp ty) (Ip4 10 0 2 2) ty"
    using icmp_frame_built [of ?ip 8 h "replicate 18 0" ty] h assms
    by (simp add: sample_icmp_def ping_ip_builder_def ipv4_builder_defs del: eth_type_into.simps)
  show "eth_destination_mac (sample_icmp ty) = Ret broadcast_mac"
    by (simp add: sample_icmp_def eth_accessors_frame)
qed

lemma sample_icmp_receives:
  "icmp_type_canonical ty \<Longrightarrow> receives (sample_state [sample_device ip dhcp]) 3 0 (sample_icmp ty)"
  by (simp add: receives_def sample_device_def addressed_to_def sample_icmp_frame(2))

text \<open>
  C6: a ping from end to end. A new ping future reads pending on its first poll and hands the
  handler exactly one request; polled again before an answer it stays pending and hands over nothing;
  once the handler has processed the request and an echo reply from that address, the
  registration is gone, and the next poll reads ready.
\<close>

theorem ping_round_trip:
  fixes st0 :: "'w handler_state"
  assumes laws: "queue_laws ops sent" and quiet: "all_quiet sent (hs_devices st0)"
    and fits: "\<forall>d \<in> set (hs_devices st0). ping_fits (nd_metadata d) ip mac"
    and recv: "receives st0 k i p" and frame: "icmp_frame p ip (EchoReply ident seq)"
    and new: "raw_ping ip mac st0 = (f, st1)"
  shows "\<exists>f' st2 st3 st4. ping_future_poll ops True waker f st1 = Ret (Ping_Pending, f', st2) \<and>
      hs_world st2 = snd (op_msg_enqueue ops (Msg_Action (PingRequest waker ip mac (pf_returned f))) (hs_world st1)) \<and>
      handle_message ops (Msg_Action (PingRequest waker ip mac (pf_returned f))) st2 = Ret st3 \<and>
      ping_future_poll ops True waker f' st3 = Ret (Ping_Pending, f', st3) \<and>
      handle_packet ops (raw_of k p) st3 = Ret st4 \<and> hs_ping st4 ip = None \<and>
      ping_future_poll ops True waker f' st4 = Ret (Ping_Ready, f', st4)"
proof -
  let ?fl = "hs_next_flag st0"
  have f: "f = \<lparr>pf_ip = Some ip, pf_mac = Some mac, pf_send = False, pf_returned = ?fl\<rparr>"
      "st1 = st0\<lparr>hs_flags := (hs_flags st0)(?fl := False), hs_next_flag := Suc ?fl\<rparr>"
    using new by (simp_all add: raw_ping_def)
  let ?f' = "\<lparr>pf_ip = None, pf_mac = None, pf_send = True, pf_returned = ?fl\<rparr>"
  let ?st2 = "st1\<lparr>hs_world := snd (op_msg_enqueue ops (Msg_Action (PingRequest waker ip mac ?fl)) (hs_world st1))\<rparr>"
  have poll1: "ping_future_poll ops True waker f st1 = Ret (Ping_Pending, ?f', ?st2)"
    by (simp add: ping_future_poll_def f)
  have devs: "hs_devices st1 = hs_devices st0"
    by (simp add: f)
  have build: "\<exists>q. ping_query ip mac d = Ret (Some q) \<and> True" if "d \<in> set (hs_devices st0)" for d
    using ping_query_built [of d ip mac] fits that by metis
  obtain w where w: "handle_message ops (Msg_Action (PingRequest waker ip mac ?fl)) ?st2 =
      Ret (?st2\<lparr>hs_ping := (hs_ping ?st2)(ip \<mapsto> (waker, ?fl)), hs_world := w\<rparr>)"
    using send_each_sent [OF laws quiet, where build = "ping_query ip mac" and good = "\<lambda>_ _. True"
        and st = "?st2\<lparr>hs_ping := (hs_ping ?st2)(ip \<mapsto> (waker, ?fl))\<rparr>"] build
    by (auto simp: devs Let_def)
  let ?st3 = "?st2\<lparr>hs_ping := (hs_ping ?st2)(ip \<mapsto> (waker, ?fl)), hs_world := w\<rparr>"
  have recv3: "receives ?st3 k i p"
    using recv by (simp add: receives_def f)
  show ?thesis
    using poll1 w handle_echo_reply [OF recv3 frame, of ops]
    by (simp add: ping_future_poll_def f)
qed

theorem ping_round_trip_witness:
  "\<exists>f' st2 st3 st4. ping_future_poll list_ops True 4
       \<lparr>pf_ip = Some (Ip4 10 0 2 2), pf_mac = Some (Mac 1 2 3 4 5 6), pf_send = False, pf_returned = 0\<rparr>
       (snd (raw_ping (Ip4 10 0 2 2) (Mac 1 2 3 4 5 6) (sample_state [sample_device (Some (Ip4 10 0 2 15)) Ex_Done])))
       = Ret (Ping_Pending, f', st2) \<and>
     handle_message list_ops (Msg_Action (PingRequest 4 (Ip4 10 0 2 2) (Mac 1 2 3 4 5 6) 0)) st2 = Ret st3 \<and>
     handle_packet list_ops (raw_of 3 (sample_icmp (EchoReply 0x1234 0x2345))) st3 = Ret st4 \<and>
     ping_future_poll list_ops True 4 f' st4 = Ret (Ping_Ready, f', st4)"
proof -
  let ?st = "sample_state [sample_device (Some (Ip4 10 0 2 15)) Ex_Done]"
  have quiet: "all_quiet (\<lambda>q w. lw_queue w q) (hs_devices ?st)"
    by (simp add: all_quiet_def sample_quiet)
  have fits: "\<forall>d \<in> set (hs_devices ?st). ping_fits (nd_metadata d) (Ip4 10 0 2 2) (Mac 1 2 3 4 5 6)"
    by (simp add: sample_ping_fits)
  have canon: "icmp_type_canonical (EchoReply 0x1234 0x2345)"
    by simp
  have new: "raw_ping (Ip4 10 0 2 2) (Mac 1 2 3 4 5 6) ?st =
      (\<lparr>pf_ip = Some (Ip4 10 0 2 2), pf_mac = Some (Mac 1 2 3 4 5 6), pf_send = False, pf_returned = 0\<rparr>,
       snd (raw_ping (Ip4 10 0 2 2) (Mac 1 2 3 4 5 6) ?st))"
    by (simp add: raw_ping_def sample_state_def)
  show ?thesis
    using ping_round_trip [OF list_ops_laws quiet fits sample_icmp_receives [OF canon]
        sample_icmp_frame(1) [OF canon] new, of 4]
    by (elim exE conjE) (intro exI conjI, assumption+, simp_all)
qed

text \<open>
  C14: an echo request addressed to a device stops the kernel: whatever it carries, the handler reaches
  its \<^verbatim>\<open>todo!\<close>.
\<close>

theorem echo_request_panics:
  assumes recv: "receives st k i p" and frame: "icmp_frame p src (EchoRequest ident seq)"
  shows "handle_packet ops (raw_of k p) st = Panic NotImplemented"
proof -
  obtain h where h: "ipv4_packet_header (ipv4_packet_new p) = Ret h"
      and ty: "icmp_get_type (icmp_packet_new (ipv4_packet_new p)) = Ret (EchoRequest ident seq)"
    using frame by (auto simp: icmp_frame_def)
  obtain payload where "icmp_payload (icmp_packet_new (ipv4_packet_new p)) = Ret payload"
    using echo_request_payload [OF ty] by blast
  then show ?thesis
    using h ty
    by (simp add: handle_packet_icmp [OF recv frame] handle_icmp_def icmp_ipv4_packet_def icmp_packet_new_def)
qed

theorem echo_request_panics_witness:
  "handle_packet list_ops (raw_of 3 (sample_icmp (EchoRequest 1 2))) (sample_state [sample_device None Ex_Initial]) =
     Panic NotImplemented"
  by (rule echo_request_panics [OF sample_icmp_receives sample_icmp_frame(1)]) simp_all

section \<open>Other frames\<close>

text \<open>
  A frame for another station changes nothing, and a frame of an unknown type or IPv6 changes
  nothing either; a frame from a device the handler does not have makes it panic.
\<close>

lemma foreign_frame_ignored:
  assumes dst: "eth_destination_mac p = Ret dst"
  shows "case find_device k (hs_devices st) of
      None \<Rightarrow> handle_packet ops (raw_of k p) st = Panic UnwrapFailed
    | Some i \<Rightarrow>
        (\<not> addressed_to p (hs_devices st ! i) \<longrightarrow> handle_packet ops (raw_of k p) st = Ret st) \<and>
        (eth_ether_type p = Ret Eth_Ipv6 \<or> (\<exists>tag. eth_ether_type p = Ret (Eth_Unknown tag)) \<longrightarrow>
           handle_packet ops (raw_of k p) st = Ret st)"
proof (cases "find_device k (hs_devices st)")
  case None
  then show ?thesis
    by (simp add: handle_packet_def raw_of_def)
next
  case (Some i)
  have "handle_packet ops (raw_of k p) st = Ret st"
    if "eth_ether_type p = Ret Eth_Ipv6 \<or> (\<exists>tag. eth_ether_type p = Ret (Eth_Unknown tag))"
    using that Some dst by (auto simp: handle_packet_def raw_of_def Let_def)
  then show ?thesis
    using Some handle_packet_not_addressed [OF Some _ dst] by simp
qed

end
