(* ===== verification/Pci.thy ===== *)
theory Pci
  imports Rust_Prelude
begin

text \<open>
  \<^verbatim>\<open>hardware/pci.rs\<close>: configuration space accesses through the ports 0xCF8 and 0xCFC, the
  device header and the enumeration of the buses. Port accesses are the operations
  \<open>port_ops\<close> on a world \<open>'w\<close>.
\<close>

section \<open>Configuration space accesses\<close>

record 'w port_ops =
  port_write :: "u16 \<Rightarrow> u32 \<Rightarrow> 'w \<Rightarrow> 'w"
  port_read :: "u16 \<Rightarrow> 'w \<Rightarrow> u32 \<times> 'w"

definition pci_command :: u8 where
  "pci_command = 0x4"

definition config_address :: u16 where
  "config_address = 0xCF8"

definition config_data :: u16 where
  "config_data = 0xCFC"

definition pci_address :: "u8 \<Rightarrow> u8 \<Rightarrow> u8 \<Rightarrow> u8 \<Rightarrow> u32" where
  "pci_address bus slot func offset =
     push_bit 16 (ucast bus) OR push_bit 11 (ucast slot) OR push_bit 8 (ucast func) OR
     (ucast offset AND 0xFC) OR 0x80000000"

definition pci_read_32bit :: "'w port_ops \<Rightarrow> u8 \<Rightarrow> u8 \<Rightarrow> u8 \<Rightarrow> u8 \<Rightarrow> 'w \<Rightarrow> u32 \<times> 'w" where
  "pci_read_32bit ops bus slot func offset w =
     port_read ops config_data (port_write ops config_address (pci_address bus slot func offset) w)"

definition pci_read_word :: "'w port_ops \<Rightarrow> u8 \<Rightarrow> u8 \<Rightarrow> u8 \<Rightarrow> u8 \<Rightarrow> 'w \<Rightarrow> u16 \<times> 'w" where
  "pci_read_word ops bus slot func offset w =
     (case port_read ops 0xCFC (port_write ops 0xCF8 (pci_address bus slot func offset) w) of
        (raw_result, w) \<Rightarrow>
          (ucast (drop_bit (unat ((ucast offset AND 2 :: u32) * 8)) raw_result AND 0xffff), w))"

section \<open>Device headers\<close>

datatype network_class = Net_Ethernet | Net_Unknown u8

datatype display_class = Display_VGACompatible | Display_Unknown u8

datatype device_class =
    NetworkController network_class
  | DisplayController display_class
  | Class_Unknown u8 u8

record generic_header =
  gh_id :: u16
  gh_vendor_id :: u16
  gh_status :: u16
  gh_command :: u16
  gh_class :: device_class
  gh_revision_id :: u8
  gh_bist :: u8
  gh_latency_timer :: u8
  gh_cache_line_size :: u8

datatype base_address_register =
    MemorySpace (bar_address: u32) (bar_prefetchable: bool) (bar_ty: u8)
  | IOSpace (bar_address: u32)

definition bar_from :: "u32 \<Rightarrow> base_address_register" where
  "bar_from raw =
     (if raw AND 0x1 = 0
      then MemorySpace (raw AND 0xfffffff0) (raw AND 0b1000 = 1) (ucast (raw AND 0b110))
      else IOSpace (raw AND 0xfffffffc))"

datatype header_type =
    Generic (base_addresses: "base_address_register list") (cardbus_cis_pointer: u32) (interrupt_line: u8)
  | Header_Unknown u8

record pci_device =
  pd_bus :: u8
  pd_slot :: u8
  pd_func :: u8
  pd_generic :: generic_header
  pd_header_type :: header_type

definition enable_bus_mastering :: "'w port_ops \<Rightarrow> pci_device \<Rightarrow> 'w \<Rightarrow> 'w" where
  "enable_bus_mastering ops d w =
     (let address = pci_address (pd_bus d) (pd_slot d) (pd_func d) pci_command;
          w = port_write ops config_address address w
      in case port_read ops config_data w of
           (previous, w) \<Rightarrow> port_write ops config_data (previous OR push_bit 2 1) w)"

section \<open>Enumeration\<close>

text \<open>The class of a header from its class and subclass bytes.\<close>

definition device_class_of :: "u8 \<Rightarrow> u8 \<Rightarrow> device_class" where
  "device_class_of baseclass subclass =
     (if baseclass = 0x2 then
        NetworkController (if subclass = 0x0 then Net_Ethernet else Net_Unknown subclass)
      else if baseclass = 0x3 then
        DisplayController (if subclass = 0x0 then Display_VGACompatible else Display_Unknown subclass)
      else Class_Unknown baseclass subclass)"

definition load_header_type :: "'w port_ops \<Rightarrow> u8 \<Rightarrow> u8 \<Rightarrow> u8 \<Rightarrow> u8 \<Rightarrow> 'w \<Rightarrow> header_type \<times> 'w" where
  "load_header_type ops bus device function raw_header_type w =
     (if raw_header_type = 0x00 then
        (case pci_read_32bit ops bus device function 0x10 w of (b0, w) \<Rightarrow>
         case pci_read_32bit ops bus device function 0x14 w of (b1, w) \<Rightarrow>
         case pci_read_32bit ops bus device function 0x18 w of (b2, w) \<Rightarrow>
         case pci_read_32bit ops bus device function 0x1C w of (b3, w) \<Rightarrow>
         case pci_read_32bit ops bus device function 0x20 w of (b4, w) \<Rightarrow>
         case pci_read_32bit ops bus device function 0x24 w of (b5, w) \<Rightarrow>
         case pci_read_32bit ops bus device function 0x28 w of (cis_pointer, w) \<Rightarrow>
         case pci_read_32bit ops bus device function 0x3c w of (last_line, w) \<Rightarrow>
         (Generic (map bar_from [b0, b1, b2, b3, b4, b5]) cis_pointer (ucast (last_line AND 0x000000ff)), w))
      else (Header_Unknown raw_header_type, w))"

definition load_device :: "'w port_ops \<Rightarrow> u8 \<Rightarrow> u8 \<Rightarrow> 'w \<Rightarrow> pci_device option \<times> 'w" where
  "load_device ops bus device w =
     (let function = 0 in
      case pci_read_word ops bus device function 0x0 w of (vendorid, w) \<Rightarrow>
      if vendorid = 0xffff then (None, w)
      else
        case pci_read_word ops bus device function 0x2 w of (device_id, w) \<Rightarrow>
        case pci_read_32bit ops bus device function 0x4 w of (second_row, w) \<Rightarrow>
        case pci_read_32bit ops bus device function 0x8 w of (third_line, w) \<Rightarrow>
        case pci_read_32bit ops bus device function 0xc w of (fourth_line, w) \<Rightarrow>
        case load_header_type ops bus device function (ucast (drop_bit 16 fourth_line AND 0x000000ff)) w of
          (header, w) \<Rightarrow>
        (Some
          \<lparr>pd_bus = bus, pd_slot = device, pd_func = function,
           pd_generic =
             \<lparr>gh_id = device_id, gh_vendor_id = vendorid,
              gh_status = ucast (drop_bit 16 second_row), gh_command = ucast (second_row AND 0x0000ffff),
              gh_class = device_class_of (ucast (drop_bit 24 third_line))
                (ucast (drop_bit 16 third_line AND 0x000000ff)),
              gh_revision_id = ucast (third_line AND 0x000000ff),
              gh_bist = ucast (drop_bit 24 fourth_line),
              gh_latency_timer = ucast (drop_bit 8 fourth_line AND 0x000000ff),
              gh_cache_line_size = ucast (fourth_line AND 0x000000ff)\<rparr>,
           pd_header_type = header\<rparr>, w))"

text \<open>The pairs the iterator goes through, and the filter over them.\<close>

definition pci_slots :: "(u8 \<times> u8) list" where
  "pci_slots = concat (map (\<lambda>bus. map (\<lambda>device. (of_nat bus, of_nat device)) [0 ..< 32]) [0 ..< 255])"

fun load_devices :: "'w port_ops \<Rightarrow> (u8 \<times> u8) list \<Rightarrow> 'w \<Rightarrow> pci_device list \<times> 'w" where
  "load_devices ops [] w = ([], w)"
| "load_devices ops ((bus, device) # slots) w =
     (case load_device ops bus device w of
        (None, w) \<Rightarrow> load_devices ops slots w
      | (Some d, w) \<Rightarrow> (case load_devices ops slots w of (ds, w) \<Rightarrow> (d # ds, w)))"

definition bruteforce :: "'w port_ops \<Rightarrow> 'w \<Rightarrow> pci_device list \<times> 'w" where
  "bruteforce ops w = load_devices ops pci_slots w"

section \<open>The configuration mechanism\<close>

text \<open>
  The access mechanism of the PCI bus, with \<open>latch w\<close> the last address written to 0xCF8 and
  \<open>cfg w a\<close> the configuration double word at the address \<open>a\<close>: the data port reads and writes
  the double word the latch names.
\<close>

definition pci_laws :: "'w port_ops \<Rightarrow> ('w \<Rightarrow> u32) \<Rightarrow> ('w \<Rightarrow> u32 \<Rightarrow> u32) \<Rightarrow> bool" where
  "pci_laws ops latch cfg \<longleftrightarrow>
     (\<forall>a w. latch (port_write ops 0xCF8 a w) = a \<and> cfg (port_write ops 0xCF8 a w) = cfg w) \<and>
     (\<forall>w. fst (port_read ops 0xCFC w) = cfg w (latch w) \<and>
        latch (snd (port_read ops 0xCFC w)) = latch w \<and> cfg (snd (port_read ops 0xCFC w)) = cfg w) \<and>
     (\<forall>v w. cfg (port_write ops 0xCFC v w) = (cfg w)(latch w := v))"

lemma pci_read_32bit_eq:
  assumes "pci_laws ops latch cfg"
  shows "fst (pci_read_32bit ops bus slot func offset w) = cfg w (pci_address bus slot func offset)"
    and "cfg (snd (pci_read_32bit ops bus slot func offset w)) = cfg w"
  using assms by (simp_all add: pci_laws_def pci_read_32bit_def config_data_def config_address_def)

lemma pci_read_word_eq:
  assumes "pci_laws ops latch cfg"
  shows "fst (pci_read_word ops bus slot func offset w) =
      ucast (drop_bit (unat ((ucast offset AND 2 :: u32) * 8)) (cfg w (pci_address bus slot func offset)) AND 0xffff)"
    and "cfg (snd (pci_read_word ops bus slot func offset w)) = cfg w"
  using assms by (simp_all add: pci_laws_def pci_read_word_def split_def)

text \<open>The byte \<open>reg\<close> of the configuration space of function 0 of a device, and the half word there.\<close>

definition cfg_byte :: "(u32 \<Rightarrow> u32) \<Rightarrow> u8 \<Rightarrow> u8 \<Rightarrow> u8 \<Rightarrow> u8" where
  "cfg_byte c bus device reg = ucast (drop_bit (8 * (unat reg mod 4)) (c (pci_address bus device 0 reg)))"

definition cfg_word :: "(u32 \<Rightarrow> u32) \<Rightarrow> u8 \<Rightarrow> u8 \<Rightarrow> u8 \<Rightarrow> u16" where
  "cfg_word c bus device reg = word_cat (cfg_byte c bus device (reg + 1)) (cfg_byte c bus device reg)"

definition device_present :: "(u32 \<Rightarrow> u32) \<Rightarrow> u8 \<times> u8 \<Rightarrow> bool" where
  "device_present c s \<longleftrightarrow> cfg_word c (fst s) (snd s) 0 \<noteq> 0xffff"

definition device_view :: "(u32 \<Rightarrow> u32) \<Rightarrow> u8 \<times> u8 \<Rightarrow> pci_device" where
  "device_view c s =
     (let b = cfg_byte c (fst s) (snd s); h = cfg_word c (fst s) (snd s);
          d = \<lambda>reg. c (pci_address (fst s) (snd s) 0 reg)
      in \<lparr>pd_bus = fst s, pd_slot = snd s, pd_func = 0,
          pd_generic =
            \<lparr>gh_id = h 2, gh_vendor_id = h 0, gh_status = h 6, gh_command = h 4,
             gh_class = device_class_of (b 0xB) (b 0xA), gh_revision_id = b 8, gh_bist = b 0xF,
             gh_latency_timer = b 0xD, gh_cache_line_size = b 0xC\<rparr>,
          pd_header_type =
            (if b 0xE = 0 then
               Generic (map (\<lambda>reg. bar_from (d reg)) [0x10, 0x14, 0x18, 0x1C, 0x20, 0x24]) (d 0x28) (b 0x3C)
             else Header_Unknown (b 0xE))\<rparr>)"

text \<open>Registers of one double word have one address.\<close>

lemma pci_address_cong:
  "(ucast r AND 0xFC :: u32) = ucast r' AND 0xFC \<Longrightarrow> pci_address b s f r = pci_address b s f r'"
  by (simp add: pci_address_def)

lemma pci_address_aligned:
  "pci_address b s f 1 = pci_address b s f 0" "pci_address b s f 2 = pci_address b s f 0"
  "pci_address b s f 3 = pci_address b s f 0" "pci_address b s f 5 = pci_address b s f 4"
  "pci_address b s f 6 = pci_address b s f 4" "pci_address b s f 7 = pci_address b s f 4"
  "pci_address b s f 10 = pci_address b s f 8" "pci_address b s f 11 = pci_address b s f 8"
  "pci_address b s f 13 = pci_address b s f 12" "pci_address b s f 14 = pci_address b s f 12"
  "pci_address b s f 15 = pci_address b s f 12"
  by (rule pci_address_cong, simp)+

lemma halves_of_dword:
  fixes x :: u32
  shows "word_cat (ucast (drop_bit 8 x) :: u8) (ucast x :: u8) = (ucast x :: u16)"
    and "word_cat (ucast (drop_bit 24 x) :: u8) (ucast (drop_bit 16 x) :: u8) = (ucast (drop_bit 16 x) :: u16)"
  by (rule bit_word_eqI, auto simp: bit_simps)+

lemma masked_dword:
  fixes x :: u32
  shows "(ucast (x AND 0xff) :: u8) = ucast x" and "(ucast (x AND 0xffff) :: u16) = ucast x"
proof -
  have "x AND 0xff = take_bit 8 x" "x AND 0xffff = take_bit 16 x"
    by (simp_all add: take_bit_eq_mask mask_eq_exp_minus_1)
  then show "(ucast (x AND 0xff) :: u8) = ucast x" "(ucast (x AND 0xffff) :: u16) = ucast x"
    by (auto intro: bit_word_eqI simp: bit_simps)
qed

lemmas cfg_regs = cfg_byte_def cfg_word_def pci_address_aligned halves_of_dword masked_dword

lemma load_device_eq:
  assumes laws: "pci_laws ops latch cfg"
  shows "fst (load_device ops bus device w) =
      (if device_present (cfg w) (bus, device) then Some (device_view (cfg w) (bus, device)) else None)"
    and "cfg (snd (load_device ops bus device w)) = cfg w"
  using pci_read_32bit_eq [OF laws] pci_read_word_eq [OF laws]
  by (simp_all add: load_device_def load_header_type_def device_present_def device_view_def cfg_regs
      Let_def split_def)

lemma load_devices_eq:
  assumes laws: "pci_laws ops latch cfg"
  shows "fst (load_devices ops slots w) = map (device_view (cfg w)) (filter (device_present (cfg w)) slots)
    \<and> cfg (snd (load_devices ops slots w)) = cfg w"
proof (induction slots arbitrary: w)
  case (Cons s slots)
  obtain bus device where s: "s = (bus, device)" by (cases s)
  obtain r w' where ld: "load_device ops bus device w = (r, w')" by (cases "load_device ops bus device w")
  have "r = (if device_present (cfg w) (bus, device) then Some (device_view (cfg w) (bus, device)) else None)"
    and c: "cfg w' = cfg w"
    using load_device_eq [OF laws, of bus device w] by (simp_all add: ld)
  then show ?case using Cons.IH [of w'] by (simp add: s ld c split_def)
qed simp

text \<open>The fields of a configuration address, and the function and double word it determines.\<close>

lemma small_take_bit:
  fixes x :: "'a :: len word"
  assumes "unat x < 2 ^ n"
  shows "take_bit n x = x"
  using assms by (simp add: word_unat_eq_iff unsigned_take_bit_eq take_bit_nat_eq_self)

lemma pci_address_fields:
  fixes bus slot func reg :: u8
  assumes "unat slot < 32" and "unat func < 8"
  defines "a \<equiv> pci_address bus slot func reg"
  shows "ucast (drop_bit 16 a) = bus" and "take_bit 5 (ucast (drop_bit 11 a)) = slot"
    and "take_bit 3 (ucast (drop_bit 8 a)) = func" and "ucast a AND 0xFC = reg AND 0xFC" and "bit a 31"
proof -
  have s: "take_bit 5 slot = slot" and f: "take_bit 3 func = func"
    using assms(1,2) by (simp_all add: small_take_bit)
  have m: "bit (0xFC :: u32) n \<longleftrightarrow> 2 \<le> n \<and> n < 8" "bit (0xFC :: u8) n \<longleftrightarrow> 2 \<le> n \<and> n < 8"
    and t: "bit (0x80000000 :: u32) n \<longleftrightarrow> n = 31" for n
  proof -
    have "(0xFC :: u32) = push_bit 2 (mask 6)" "(0xFC :: u8) = push_bit 2 (mask 6)"
      and "(0x80000000 :: u32) = push_bit 31 1"
      by (simp_all add: mask_eq_exp_minus_1 push_bit_eq_mult)
    then show "bit (0xFC :: u32) n \<longleftrightarrow> 2 \<le> n \<and> n < 8" "bit (0xFC :: u8) n \<longleftrightarrow> 2 \<le> n \<and> n < 8"
      "bit (0x80000000 :: u32) n \<longleftrightarrow> n = 31"
      by (simp_all only: bit_push_bit_iff bit_mask_iff bit_1_iff) auto
  qed
  have small: "bit slot n \<Longrightarrow> n < 5" "bit func n \<Longrightarrow> n < 3" for n
    using s f by (metis bit_take_bit_iff)+
  have bits: "bit a n \<longleftrightarrow> 16 \<le> n \<and> n < 24 \<and> bit bus (n - 16) \<or> 11 \<le> n \<and> n < 16 \<and> bit slot (n - 11) \<or>
      8 \<le> n \<and> n < 11 \<and> bit func (n - 8) \<or> 2 \<le> n \<and> n < 8 \<and> bit reg n \<or> n = 31" for n
  proof -
    have "bit a n \<longleftrightarrow> 16 \<le> n \<and> n < 32 \<and> bit bus (n - 16) \<or> 11 \<le> n \<and> n < 32 \<and> bit slot (n - 11) \<or>
        8 \<le> n \<and> n < 32 \<and> bit func (n - 8) \<or> n < 32 \<and> bit reg n \<and> 2 \<le> n \<and> n < 8 \<or> n = 31"
      unfolding a_def pci_address_def bit_or_iff bit_and_iff m t
      by (auto simp: bit_push_bit_iff bit_ucast_iff)
    moreover have "bit bus (n - 16) \<Longrightarrow> n < 24" "bit slot (n - 11) \<Longrightarrow> n < 16" "bit func (n - 8) \<Longrightarrow> n < 11"
      using small(1) [of "n - 11"] small(2) [of "n - 8"] bit_imp_le_length [of bus "n - 16"] by auto
    moreover have "n < 24 \<Longrightarrow> n < 32" "n < 16 \<Longrightarrow> n < 32" "n < 11 \<Longrightarrow> n < 32" "n < 8 \<Longrightarrow> n < 32" by simp_all
    ultimately show ?thesis by blast
  qed
  show "ucast (drop_bit 16 a) = bus"
    by (rule bit_word_eqI) (auto simp: bits bit_simps)
  have "take_bit 5 (ucast (drop_bit 11 a)) = take_bit 5 slot"
    by (rule bit_word_eqI) (auto simp: bits bit_simps)
  then show "take_bit 5 (ucast (drop_bit 11 a)) = slot" using s by simp
  have "take_bit 3 (ucast (drop_bit 8 a)) = take_bit 3 func"
    by (rule bit_word_eqI) (auto simp: bits bit_simps)
  then show "take_bit 3 (ucast (drop_bit 8 a)) = func" using f by simp
  show "ucast a AND 0xFC = reg AND 0xFC"
    by (rule bit_word_eqI, unfold bit_and_iff m) (auto simp: bits bit_simps)
  show "bit a 31" by (simp add: bits)
qed

lemma pci_address_inject:
  assumes "unat s < 32" and "unat f < 8" and "unat s' < 32" and "unat f' < 8"
  shows "pci_address b s f r = pci_address b' s' f' r' \<longleftrightarrow>
    b = b' \<and> s = s' \<and> f = f' \<and> r AND 0xFC = r' AND 0xFC" (is "?L \<longleftrightarrow> ?R")
proof
  assume ?L
  then show ?R
    using pci_address_fields [OF assms(1,2), of b r] pci_address_fields [OF assms(3,4), of b' r'] by simp
next
  assume ?R
  moreover have "(ucast x AND 0xFC :: u32) = ucast (x AND 0xFC)" for x :: u8
    by (simp add: unsigned_and_eq)
  ultimately show ?L by (simp add: pci_address_def)
qed

lemma pci_slots_product: "pci_slots = map (map_prod of_nat of_nat) (List.product [0 ..< 255] [0 ..< 32])"
  by (simp add: pci_slots_def product_concat_map map_concat comp_def)

lemma set_pci_slots: "(bus, slot) \<in> set pci_slots \<longleftrightarrow> unat bus < 255 \<and> unat slot < 32"
proof
  assume "unat bus < 255 \<and> unat slot < 32"
  then have "map_prod of_nat of_nat (unat bus, unat slot) \<in> set pci_slots"
    unfolding pci_slots_product set_map by (intro imageI) simp
  then show "(bus, slot) \<in> set pci_slots" by simp
qed (auto simp: pci_slots_product unat_of_nat)

lemma distinct_pci_slots: "distinct pci_slots"
proof -
  have "inj_on (map_prod of_nat of_nat :: nat \<times> nat \<Rightarrow> u8 \<times> u8) ({0..<255} \<times> {0..<32})"
    by (rule map_prod_inj_on) (auto intro!: inj_onI simp: word_of_nat_eq_iff take_bit_eq_mod)
  then show ?thesis unfolding pci_slots_product by (simp add: distinct_map distinct_product)
qed

lemma device_view_inj: "inj (device_view c)"
  by (auto simp: inj_def device_view_def Let_def)

lemma bruteforce_mem:
  assumes "pci_laws ops latch cfg"
  shows "d \<in> set (fst (bruteforce ops w)) \<longleftrightarrow>
    (\<exists>bus slot. unat bus < 255 \<and> unat slot < 32 \<and> device_present (cfg w) (bus, slot) \<and>
       d = device_view (cfg w) (bus, slot))"
  using load_devices_eq [OF assms, of pci_slots w] set_pci_slots by (auto simp: bruteforce_def)

text \<open>A bus with one network card in slot 3, the world of the examples.\<close>

type_synonym pci_world = "u32 \<times> (u32 \<Rightarrow> u32)"

definition table_ops :: "pci_world port_ops" where
  "table_ops =
     \<lparr>port_write = (\<lambda>port v w. if port = 0xCF8 then (v, snd w)
        else if port = 0xCFC then (fst w, (snd w)(fst w := v)) else w),
      port_read = (\<lambda>port w. (if port = 0xCFC then snd w (fst w) else 0, w))\<rparr>"

definition one_card :: "u32 \<Rightarrow> u32" where
  "one_card = (\<lambda>_. 0xffffffff)
     (pci_address 0 3 0 0x00 := 0x100E8086, pci_address 0 3 0 0x04 := 0x02300103,
      pci_address 0 3 0 0x08 := 0x02000003, pci_address 0 3 0 0x0C := 0,
      pci_address 0 3 0 0x10 := 0xFEBC0000, pci_address 0 3 0 0x3C := 0x0000010B)"

lemma table_ops_laws: "pci_laws table_ops fst snd"
  by (simp add: pci_laws_def table_ops_def)

lemma vendor_word: "cfg_word c bus device 0 = ucast (c (pci_address bus device 0 0))"
  by (simp add: cfg_regs)

lemma one_card_present: "device_present one_card (0, 3)"
  by (simp add: device_present_def vendor_word) (simp add: one_card_def pci_address_def)

section \<open>Properties\<close>

text \<open>
  C30: the enumeration reports each device of the buses 0 to 254 whose vendor id is not 0xffff, once,
  with the fields its configuration bytes hold, and leaves the configuration space as it was. Bus 255
  is not scanned.
\<close>

theorem pci_scan_complete:
  assumes "pci_laws ops latch cfg" and "bruteforce ops w = (ds, w')"
  shows "(\<forall>d. d \<in> set ds \<longleftrightarrow>
      (\<exists>bus slot. unat bus < 255 \<and> unat slot < 32 \<and> device_present (cfg w) (bus, slot) \<and>
         d = device_view (cfg w) (bus, slot))) \<and> distinct ds \<and> cfg w' = cfg w"
  using load_devices_eq [OF assms(1), of pci_slots w] bruteforce_mem [OF assms(1), of _ w] assms(2)
    distinct_pci_slots inj_on_subset [OF device_view_inj subset_UNIV]
  by (simp add: bruteforce_def distinct_map)

theorem pci_scan_complete_witness:
  "device_view one_card (0, 3) \<in> set (fst (bruteforce table_ops (0, one_card))) \<and>
   gh_vendor_id (pd_generic (device_view one_card (0, 3))) = 0x8086"
proof -
  obtain ds w' where scan: "bruteforce table_ops (0, one_card) = (ds, w')" by (cases "bruteforce table_ops (0, one_card)")
  have "device_view one_card (0, 3) \<in> set ds"
    unfolding pci_scan_complete [OF table_ops_laws scan, THEN conjunct1, rule_format]
    using one_card_present by (intro exI [of _ "0 :: u8"] exI [of _ "3 :: u8"]) simp
  moreover have "gh_vendor_id (pd_generic (device_view one_card (0, 3))) = 0x8086"
    by (simp add: device_view_def Let_def vendor_word) (simp add: one_card_def pci_address_def)
  ultimately show ?thesis by (simp add: scan)
qed

text \<open>
  Enabling bus mastering on an enumerated device sets bit 2 of its command register and changes
  no other double word of any function.
\<close>

lemma bus_mastering_local:
  assumes laws: "pci_laws ops latch cfg" and d: "d \<in> set (fst (bruteforce ops w))"
    and "unat slot < 32" and "unat func < 8"
  shows "cfg (enable_bus_mastering ops d w1) (pci_address bus slot func reg) =
    (if bus = pd_bus d \<and> slot = pd_slot d \<and> func = pd_func d \<and> reg AND 0xFC = 4
     then cfg w1 (pci_address bus slot func reg) OR 4 else cfg w1 (pci_address bus slot func reg))"
proof -
  have d: "unat (pd_slot d) < 32" "unat (pd_func d) < 8"
    using d by (auto simp: bruteforce_mem [OF laws] device_view_def Let_def)
  from pci_address_inject [OF assms(3,4) this, of bus reg "pd_bus d" 4] show ?thesis
    using laws
    by (auto simp: enable_bus_mastering_def Let_def split_def pci_laws_def config_address_def
        config_data_def pci_command_def)
qed

end
