(* ===== verification/E1000_Regs.thy ===== *)
theory E1000_Regs
  imports Pci
begin

text \<open>
  \<^verbatim>\<open>hardware/device/e1000/coms.rs\<close> and \<^verbatim>\<open>hardware/device/e1000/regs.rs\<close>: the register window of
  the card and the contents of its typed registers. Accesses to the mapped memory are the
  operations \<open>mmio_ops\<close> on a world \<open>'w\<close>; a read may change it, since the card has registers that
  are cleared by reading.
\<close>

section \<open>Coms\<close>

record 'w mmio_ops =
  mmio_write :: "u64 \<Rightarrow> u32 \<Rightarrow> 'w \<Rightarrow> 'w"
  mmio_read :: "u64 \<Rightarrow> 'w \<Rightarrow> u32 \<times> 'w"

record coms =
  cm_bar :: base_address_register
  cm_offset :: u64

definition coms_new :: "base_address_register \<Rightarrow> u64 \<Rightarrow> coms" where
  "coms_new bar offset = \<lparr>cm_bar = bar, cm_offset = offset\<rparr>"

definition write_command :: "'w mmio_ops \<Rightarrow> coms \<Rightarrow> u16 \<Rightarrow> u32 \<Rightarrow> 'w \<Rightarrow> 'w exec" where
  "write_command ops com p_address value w =
     (case cm_bar com of
        MemorySpace address _ _ \<Rightarrow>
          xbind (add_w (ucast address) (ucast p_address)) (\<lambda>target_address.
          xbind (add_w target_address (cm_offset com)) (\<lambda>target_address.
          Ret (mmio_write ops target_address value w)))
      | IOSpace address \<Rightarrow> Panic NotImplemented)"

definition read_command :: "'w mmio_ops \<Rightarrow> coms \<Rightarrow> u16 \<Rightarrow> 'w \<Rightarrow> (u32 \<times> 'w) exec" where
  "read_command ops com p_address w =
     (case cm_bar com of
        MemorySpace address _ _ \<Rightarrow>
          xbind (add_w (ucast address) (ucast p_address)) (\<lambda>target_address.
          xbind (add_w target_address (cm_offset com)) (\<lambda>target_address.
          Ret (mmio_read ops target_address w)))
      | IOSpace address \<Rightarrow> Panic NotImplemented)"

section \<open>Registers\<close>

text \<open>
  A register is its address with the conversions of its content type. The marker \<^verbatim>\<open>RegisterRW\<close>
  adds the conversion for writing to a \<^verbatim>\<open>RegisterRO\<close>, as the extension of the record does; no
  register of the card is declared \<^verbatim>\<open>RegisterWO\<close>.
\<close>

record 't ro_register =
  reg_addr :: u16
  reg_from :: "u32 \<Rightarrow> 't"

record 't rw_register = "'t ro_register" +
  reg_into :: "'t \<Rightarrow> u32"

definition register_read ::
  "'w mmio_ops \<Rightarrow> ('t, 'x) ro_register_scheme \<Rightarrow> coms \<Rightarrow> 'w \<Rightarrow> ('t \<times> 'w) exec" where
  "register_read ops r com w =
     xbind (read_command ops com (reg_addr r) w) (\<lambda>(raw, w). Ret (reg_from r raw, w))"

definition register_write_raw ::
  "'w mmio_ops \<Rightarrow> ('t, 'x) rw_register_scheme \<Rightarrow> coms \<Rightarrow> u32 \<Rightarrow> 'w \<Rightarrow> 'w exec" where
  "register_write_raw ops r com value w = write_command ops com (reg_addr r) value w"

definition register_write ::
  "'w mmio_ops \<Rightarrow> ('t, 'x) rw_register_scheme \<Rightarrow> coms \<Rightarrow> 't \<Rightarrow> 'w \<Rightarrow> 'w exec" where
  "register_write ops r com value w = register_write_raw ops r com (reg_into r value) w"

text \<open>\<^verbatim>\<open>((raw >> n) & 0b01) != 0\<close> and \<^verbatim>\<open>if b { result |= 1 << n; }\<close>.\<close>

definition flag_at :: "u32 \<Rightarrow> nat \<Rightarrow> bool" where
  "flag_at raw n \<longleftrightarrow> drop_bit n raw AND 0b01 \<noteq> 0"

definition put_flag :: "bool \<Rightarrow> nat \<Rightarrow> u32 \<Rightarrow> u32" where
  "put_flag b n result = (if b then result OR push_bit n 1 else result)"

subsection \<open>CTRL\<close>

record ctrl_register =
  ctrl_full_duplex :: bool
  ctrl_master_disable :: bool
  ctrl_speed_selection :: u8
  ctrl_force_speed :: bool
  ctrl_force_duplex :: bool
  ctrl_lanphypc_override :: bool
  ctrl_lanphypc_value :: bool
  ctrl_lcd_power_down :: bool
  ctrl_host_to_me_interrupt :: bool
  ctrl_host_software_reset :: bool
  ctrl_receive_flow_control_enable :: bool
  ctrl_transmit_flow_control_enable :: bool
  ctrl_vlan_mode_enable :: bool
  ctrl_lan_connected_device_reset :: bool

definition ctrl_from :: "u32 \<Rightarrow> ctrl_register" where
  "ctrl_from raw =
     \<lparr>ctrl_full_duplex = flag_at raw 0,
      ctrl_master_disable = flag_at raw 2,
      ctrl_speed_selection = ucast (drop_bit 8 raw AND 0b11),
      ctrl_force_speed = flag_at raw 11,
      ctrl_force_duplex = flag_at raw 12,
      ctrl_lanphypc_override = flag_at raw 16,
      ctrl_lanphypc_value = flag_at raw 17,
      ctrl_lcd_power_down = flag_at raw 24,
      ctrl_host_to_me_interrupt = flag_at raw 25,
      ctrl_host_software_reset = flag_at raw 26,
      ctrl_receive_flow_control_enable = flag_at raw 27,
      ctrl_transmit_flow_control_enable = flag_at raw 28,
      ctrl_vlan_mode_enable = flag_at raw 30,
      ctrl_lan_connected_device_reset = flag_at raw 31\<rparr>"

definition ctrl_into :: "ctrl_register \<Rightarrow> u32" where
  "ctrl_into r =
     (let result = 0;
          result = put_flag (ctrl_full_duplex r) 0 result;
          result = put_flag (ctrl_master_disable r) 2 result;
          result = result OR push_bit 8 (ucast (ctrl_speed_selection r));
          result = put_flag (ctrl_force_speed r) 11 result;
          result = put_flag (ctrl_force_duplex r) 12 result;
          result = put_flag (ctrl_lanphypc_override r) 16 result;
          result = put_flag (ctrl_lanphypc_value r) 17 result;
          result = put_flag (ctrl_lcd_power_down r) 24 result;
          result = put_flag (ctrl_host_to_me_interrupt r) 25 result;
          result = put_flag (ctrl_host_software_reset r) 26 result;
          result = put_flag (ctrl_receive_flow_control_enable r) 27 result;
          result = put_flag (ctrl_transmit_flow_control_enable r) 28 result;
          result = put_flag (ctrl_vlan_mode_enable r) 30 result;
          result = put_flag (ctrl_lan_connected_device_reset r) 31 result
      in result)"

definition ctrl_default :: ctrl_register where
  "ctrl_default =
     \<lparr>ctrl_full_duplex = True, ctrl_master_disable = False, ctrl_speed_selection = 0b10,
      ctrl_force_speed = False, ctrl_force_duplex = False, ctrl_lanphypc_override = False,
      ctrl_lanphypc_value = False, ctrl_lcd_power_down = False, ctrl_host_to_me_interrupt = False,
      ctrl_host_software_reset = False, ctrl_receive_flow_control_enable = False,
      ctrl_transmit_flow_control_enable = False, ctrl_vlan_mode_enable = False,
      ctrl_lan_connected_device_reset = False\<rparr>"

definition reg_CTRL :: "ctrl_register rw_register" where
  "reg_CTRL = \<lparr>reg_addr = 0x0000, reg_from = ctrl_from, reg_into = ctrl_into\<rparr>"

subsection \<open>STATUS\<close>

record status_register =
  st_full_duplex :: bool
  st_link_up :: bool
  st_phy_type_indication :: u8
  st_transmition_paused :: bool
  st_phy_power_up :: bool
  st_link_speed :: u8
  st_master_read_completions_blocked :: bool
  st_lan_init_done :: bool
  st_phy_reset_asserted :: bool
  st_master_enable_status :: bool
  st_pcim_function_state :: bool
  st_clock_control_quarter :: bool

definition status_from :: "u32 \<Rightarrow> status_register" where
  "status_from raw =
     \<lparr>st_full_duplex = flag_at raw 0,
      st_link_up = flag_at raw 1,
      st_phy_type_indication = ucast (drop_bit 2 raw AND 0b11),
      st_transmition_paused = flag_at raw 4,
      st_phy_power_up = (drop_bit 5 raw AND 0b01 = 0),
      st_link_speed = ucast (drop_bit 6 raw AND 0b11),
      st_master_read_completions_blocked = flag_at raw 8,
      st_lan_init_done = flag_at raw 9,
      st_phy_reset_asserted = flag_at raw 10,
      st_master_enable_status = flag_at raw 19,
      st_pcim_function_state = flag_at raw 30,
      st_clock_control_quarter = flag_at raw 31\<rparr>"

definition reg_STATUS :: "status_register ro_register" where
  "reg_STATUS = \<lparr>reg_addr = 0x0008, reg_from = status_from\<rparr>"

subsection \<open>IMASK\<close>

record imask_register =
  im_txdw :: bool
  im_txqe :: bool
  im_lsc :: bool
  im_rxdmto :: bool
  im_dsw :: bool
  im_rxo :: bool
  im_rxto :: bool
  im_mdac :: bool
  im_phyint :: bool
  im_lsecpn :: bool
  im_txd_low :: bool

definition im_from :: "u32 \<Rightarrow> imask_register" where
  "im_from raw =
     \<lparr>im_txdw = flag_at raw 0,
      im_txqe = flag_at raw 1,
      im_lsc = flag_at raw 2,
      im_rxdmto = flag_at raw 4,
      im_dsw = flag_at raw 5,
      im_rxo = flag_at raw 6,
      im_rxto = flag_at raw 7,
      im_mdac = flag_at raw 9,
      im_phyint = flag_at raw 12,
      im_lsecpn = flag_at raw 14,
      im_txd_low = flag_at raw 15\<rparr>"

definition im_into :: "imask_register \<Rightarrow> u32" where
  "im_into r =
     (let result = 0;
          result = put_flag (im_txdw r) 0 result;
          result = put_flag (im_txqe r) 1 result;
          result = put_flag (im_lsc r) 2 result;
          result = put_flag (im_rxdmto r) 4 result;
          result = put_flag (im_dsw r) 5 result;
          result = put_flag (im_rxo r) 6 result;
          result = put_flag (im_rxto r) 7 result;
          result = put_flag (im_mdac r) 9 result;
          result = put_flag (im_phyint r) 12 result;
          result = put_flag (im_lsecpn r) 14 result;
          result = put_flag (im_txd_low r) 15 result
      in result)"

definition im_default :: imask_register where
  "im_default =
     \<lparr>im_txdw = False,
      im_txqe = False,
      im_lsc = False,
      im_rxdmto = False,
      im_dsw = False,
      im_rxo = False,
      im_rxto = False,
      im_mdac = False,
      im_phyint = False,
      im_lsecpn = False,
      im_txd_low = False\<rparr>"

definition reg_IMASK :: "imask_register rw_register" where
  "reg_IMASK = \<lparr>reg_addr = 0x00D0, reg_from = im_from, reg_into = im_into\<rparr>"

definition im_set_txdw :: "bool \<Rightarrow> imask_register \<Rightarrow> imask_register" where
  "im_set_txdw value r = r\<lparr>im_txdw := value\<rparr>"

definition im_set_txqe :: "bool \<Rightarrow> imask_register \<Rightarrow> imask_register" where
  "im_set_txqe value r = r\<lparr>im_txqe := value\<rparr>"

definition im_set_lsc :: "bool \<Rightarrow> imask_register \<Rightarrow> imask_register" where
  "im_set_lsc value r = r\<lparr>im_lsc := value\<rparr>"

definition im_set_rxdmto :: "bool \<Rightarrow> imask_register \<Rightarrow> imask_register" where
  "im_set_rxdmto value r = r\<lparr>im_rxdmto := value\<rparr>"

definition im_set_dsw :: "bool \<Rightarrow> imask_register \<Rightarrow> imask_register" where
  "im_set_dsw value r = r\<lparr>im_dsw := value\<rparr>"

definition im_set_rxo :: "bool \<Rightarrow> imask_register \<Rightarrow> imask_register" where
  "im_set_rxo value r = r\<lparr>im_rxo := value\<rparr>"

definition im_set_rxto :: "bool \<Rightarrow> imask_register \<Rightarrow> imask_register" where
  "im_set_rxto value r = r\<lparr>im_rxto := value\<rparr>"

definition im_set_mdac :: "bool \<Rightarrow> imask_register \<Rightarrow> imask_register" where
  "im_set_mdac value r = r\<lparr>im_mdac := value\<rparr>"

definition im_set_phyint :: "bool \<Rightarrow> imask_register \<Rightarrow> imask_register" where
  "im_set_phyint value r = r\<lparr>im_phyint := value\<rparr>"

definition im_set_lsecpn :: "bool \<Rightarrow> imask_register \<Rightarrow> imask_register" where
  "im_set_lsecpn value r = r\<lparr>im_lsecpn := value\<rparr>"

definition im_set_txd_low :: "bool \<Rightarrow> imask_register \<Rightarrow> imask_register" where
  "im_set_txd_low value r = r\<lparr>im_txd_low := value\<rparr>"

subsection \<open>Interrupt cause\<close>

record interrupt_cause_register =
  ic_txdw :: bool
  ic_txqe :: bool
  ic_lsc :: bool
  ic_rxdmt :: bool
  ic_dsw :: bool
  ic_rxo :: bool
  ic_rxt :: bool
  ic_txd_low :: bool
  ic_int_asserted :: bool

definition ic_from :: "u32 \<Rightarrow> interrupt_cause_register" where
  "ic_from raw =
     \<lparr>ic_txdw = flag_at raw 0,
      ic_txqe = flag_at raw 1,
      ic_lsc = flag_at raw 2,
      ic_rxdmt = flag_at raw 4,
      ic_dsw = flag_at raw 5,
      ic_rxo = flag_at raw 6,
      ic_rxt = flag_at raw 7,
      ic_txd_low = flag_at raw 15,
      ic_int_asserted = flag_at raw 31\<rparr>"

definition ic_into :: "interrupt_cause_register \<Rightarrow> u32" where
  "ic_into r =
     (let result = 0;
          result = put_flag (ic_txdw r) 0 result;
          result = put_flag (ic_txqe r) 1 result;
          result = put_flag (ic_lsc r) 2 result;
          result = put_flag (ic_rxdmt r) 4 result;
          result = put_flag (ic_dsw r) 5 result;
          result = put_flag (ic_rxo r) 6 result;
          result = put_flag (ic_rxt r) 7 result;
          result = put_flag (ic_txd_low r) 15 result;
          result = put_flag (ic_int_asserted r) 31 result
      in result)"

definition ic_default :: interrupt_cause_register where
  "ic_default =
     \<lparr>ic_txdw = False,
      ic_txqe = False,
      ic_lsc = False,
      ic_rxdmt = False,
      ic_dsw = False,
      ic_rxo = False,
      ic_rxt = False,
      ic_txd_low = False,
      ic_int_asserted = False\<rparr>"

definition reg_ICAUSE :: "interrupt_cause_register rw_register" where
  "reg_ICAUSE = \<lparr>reg_addr = 0x00c0, reg_from = ic_from, reg_into = ic_into\<rparr>"

definition ic_set_txdw :: "bool \<Rightarrow> interrupt_cause_register \<Rightarrow> interrupt_cause_register" where
  "ic_set_txdw value r = r\<lparr>ic_txdw := value\<rparr>"

definition ic_set_txqe :: "bool \<Rightarrow> interrupt_cause_register \<Rightarrow> interrupt_cause_register" where
  "ic_set_txqe value r = r\<lparr>ic_txqe := value\<rparr>"

definition ic_set_txd_low :: "bool \<Rightarrow> interrupt_cause_register \<Rightarrow> interrupt_cause_register" where
  "ic_set_txd_low value r = r\<lparr>ic_txd_low := value\<rparr>"

definition ic_set_asserted :: "bool \<Rightarrow> interrupt_cause_register \<Rightarrow> interrupt_cause_register" where
  "ic_set_asserted value r = r\<lparr>ic_int_asserted := value\<rparr>"

section \<open>Codecs\<close>

lemma flag_at_bit [simp]: "flag_at raw n \<longleftrightarrow> bit raw n"
  by (auto simp: flag_at_def and_one_eq bit_iff_odd_drop_bit odd_iff_mod_2_eq_one split: if_splits)

lemma bit_put_flag [simp]: "bit (put_flag b m r) n \<longleftrightarrow> bit r n \<or> b \<and> n = m \<and> m < 32"
  by (auto simp: put_flag_def bit_simps)

text \<open>
  A register content type: reading what was written gives the content back, and writing what was
  read keeps the bits the type names and clears the reserved ones.
\<close>

locale register_codec =
  fixes from_raw :: "u32 \<Rightarrow> 't" and into_raw :: "'t \<Rightarrow> u32"
    and content_ok :: "'t \<Rightarrow> bool" and named :: "nat set"
  assumes from_into: "content_ok r \<Longrightarrow> from_raw (into_raw r) = r"
    and into_from: "bit (into_raw (from_raw raw)) n \<longleftrightarrow> n \<in> named \<and> bit raw n"
    and from_ok: "content_ok (from_raw raw)"
begin

lemma into_inj: "inj_on into_raw {r. content_ok r}"
  by (rule inj_on_inverseI [of _ from_raw]) (simp add: from_into)

lemma reserved_ignored:
  assumes "\<And>n. n \<in> named \<Longrightarrow> bit raw n = bit raw' n"
  shows "from_raw raw = from_raw raw'"
proof -
  have "into_raw (from_raw raw) = into_raw (from_raw raw')"
    by (rule bit_word_eqI) (use assms in \<open>auto simp: into_from\<close>)
  then show ?thesis by (metis from_into from_ok)
qed

end

lemma two_bit_field:
  fixes raw :: u32
  shows "bit (ucast (drop_bit k raw AND 0b11) :: u8) n \<longleftrightarrow> n < 2 \<and> bit raw (k + n)"
proof -
  have "(0b11 :: u32) = mask 2" by (simp add: mask_eq_exp_minus_1)
  then have "drop_bit k raw AND 0b11 = take_bit 2 (drop_bit k raw)" by (simp add: take_bit_eq_mask)
  then show ?thesis by (auto simp: bit_simps dest: bit_imp_le_length)
qed

definition ctrl_named :: "nat set" where
  "ctrl_named = {0, 2, 8, 9, 11, 12, 16, 17, 24, 25, 26, 27, 28, 30, 31}"

definition im_named :: "nat set" where
  "im_named = {0, 1, 2, 4, 5, 6, 7, 9, 12, 14, 15}"

definition ic_named :: "nat set" where
  "ic_named = {0, 1, 2, 4, 5, 6, 7, 15, 31}"

lemma small_field_bit:
  fixes s :: u8
  assumes "unat s < 4" and "bit s n"
  shows "n < 2"
proof -
  have "take_bit 2 s = s" using assms(1) by (simp add: small_take_bit)
  then show ?thesis using assms(2) by (metis bit_take_bit_iff)
qed

lemma ctrl_into_bit:
  assumes "unat (ctrl_speed_selection r) < 4"
  shows "bit (ctrl_into r) n \<longleftrightarrow>
    ctrl_full_duplex r \<and> n = 0 \<or> ctrl_master_disable r \<and> n = 2 \<or>
    bit (ctrl_speed_selection r) 0 \<and> n = 8 \<or> bit (ctrl_speed_selection r) 1 \<and> n = 9 \<or>
    ctrl_force_speed r \<and> n = 11 \<or> ctrl_force_duplex r \<and> n = 12 \<or>
    ctrl_lanphypc_override r \<and> n = 16 \<or> ctrl_lanphypc_value r \<and> n = 17 \<or>
    ctrl_lcd_power_down r \<and> n = 24 \<or> ctrl_host_to_me_interrupt r \<and> n = 25 \<or>
    ctrl_host_software_reset r \<and> n = 26 \<or> ctrl_receive_flow_control_enable r \<and> n = 27 \<or>
    ctrl_transmit_flow_control_enable r \<and> n = 28 \<or> ctrl_vlan_mode_enable r \<and> n = 30 \<or>
    ctrl_lan_connected_device_reset r \<and> n = 31"
proof -
  have "bit (push_bit 8 (ucast (ctrl_speed_selection r)) :: u32) n \<longleftrightarrow>
      bit (ctrl_speed_selection r) 0 \<and> n = 8 \<or> bit (ctrl_speed_selection r) 1 \<and> n = 9"
  proof -
    have "bit (ctrl_speed_selection r) (n - 8) \<Longrightarrow> 8 \<le> n \<Longrightarrow> n = 8 \<or> n = 9"
      using small_field_bit [OF assms, of "n - 8"] by linarith
    then show ?thesis by (auto simp: bit_push_bit_iff bit_ucast_iff)
  qed
  then show ?thesis by (simp add: ctrl_into_def bit_or_iff disj_assoc)
qed

interpretation ctrl_codec: register_codec ctrl_from ctrl_into "\<lambda>r. unat (ctrl_speed_selection r) < 4" ctrl_named
proof unfold_locales
  have ok: "unat (ctrl_speed_selection (ctrl_from raw)) < 4" for raw
  proof -
    have "take_bit 2 (ctrl_speed_selection (ctrl_from raw)) = ctrl_speed_selection (ctrl_from raw)"
      by (rule bit_word_eqI) (auto simp: ctrl_from_def two_bit_field bit_take_bit_iff)
    moreover have "unat (take_bit 2 x) < 4" for x :: u8
      using take_bit_nat_less_exp [of 2 "unat x"] by (simp add: unsigned_take_bit_eq)
    ultimately show ?thesis by metis
  qed
  then show "unat (ctrl_speed_selection (ctrl_from raw)) < 4" for raw .
  show "bit (ctrl_into (ctrl_from raw)) n = (n \<in> ctrl_named \<and> bit raw n)" for raw n
  proof (cases "n \<in> ctrl_named")
    case True
    then show ?thesis
      unfolding ctrl_into_bit [OF ok] ctrl_named_def insert_iff empty_iff
      by (elim disjE FalseE) (simp_all add: ctrl_from_def two_bit_field)
  qed (simp add: ctrl_into_bit [OF ok] ctrl_named_def)
  show "ctrl_from (ctrl_into r) = r" if r: "unat (ctrl_speed_selection r) < 4" for r
  proof -
    have "ucast (drop_bit 8 (ctrl_into r) AND 0b11) = ctrl_speed_selection r"
    proof (rule bit_word_eqI)
      fix n :: nat
      consider "n = 0" | "n = 1" | "\<not> n < 2" by linarith
      then show "bit (ucast (drop_bit 8 (ctrl_into r) AND 0b11) :: u8) n = bit (ctrl_speed_selection r) n"
      proof cases
        case 3
        then show ?thesis using small_field_bit [OF r, of n] by (auto simp: two_bit_field)
      qed (simp_all add: two_bit_field ctrl_into_bit [OF r])
    qed
    then show ?thesis by (simp add: ctrl_from_def ctrl_into_bit [OF r])
  qed
qed

interpretation im_codec: register_codec im_from im_into "\<lambda>r. True" im_named
proof unfold_locales
  show "im_from (im_into r) = r" for r
    by (simp add: im_from_def im_into_def)
  show "bit (im_into (im_from raw)) n = (n \<in> im_named \<and> bit raw n)" for raw n
    by (auto simp: im_from_def im_into_def im_named_def)
qed simp

interpretation ic_codec: register_codec ic_from ic_into "\<lambda>r. True" ic_named
proof unfold_locales
  show "ic_from (ic_into r) = r" for r
    by (simp add: ic_from_def ic_into_def)
  show "bit (ic_into (ic_from raw)) n = (n \<in> ic_named \<and> bit raw n)" for raw n
    by (auto simp: ic_from_def ic_into_def ic_named_def)
qed simp

section \<open>Properties\<close>

text \<open>
  C31: the contents of the control, interrupt mask and interrupt cause registers survive being
  written and read back, for the control register when the speed selection is one of its two-bit
  values; and writing back what was read keeps exactly the bits the types name.
\<close>

theorem register_contents_roundtrip:
  assumes "unat (ctrl_speed_selection c) < 4"
  shows "ctrl_from (ctrl_into c) = c \<and> im_from (im_into m) = m \<and> ic_from (ic_into i) = i \<and>
    bit (ctrl_into (ctrl_from raw)) n = (n \<in> ctrl_named \<and> bit raw n) \<and>
    bit (im_into (im_from raw)) n = (n \<in> im_named \<and> bit raw n) \<and>
    bit (ic_into (ic_from raw)) n = (n \<in> ic_named \<and> bit raw n)"
  using assms ctrl_codec.from_into im_codec.from_into ic_codec.from_into
    ctrl_codec.into_from im_codec.into_from ic_codec.into_from by simp

theorem register_contents_roundtrip_witness:
  "ctrl_from (ctrl_into ctrl_default) = ctrl_default \<and> im_from (im_into im_default) = im_default"
  using register_contents_roundtrip [of ctrl_default im_default ic_default 0 0]
  by (simp add: ctrl_default_def)

end
