(* ===== verification/E1000_Card.thy ===== *)
theory E1000_Card
  imports E1000_Regs Net_Api
begin

text \<open>
  \<^verbatim>\<open>hardware/device/e1000.rs\<close> and \<^verbatim>\<open>hardware/device/e1000/descriptors.rs\<close>: the driver of the
  network card, its descriptor rings and its interrupt handler.

  The rings and the packet buffers lie in memory the card accesses on its own. That memory, the
  allocator, the address translation and the registers are the operations \<open>card_ops\<close> on a world
  \<open>'w\<close>; nothing is assumed of them in the definitions. An address is the \<open>u64\<close> value of a
  pointer or a \<^verbatim>\<open>VirtAddr\<close>, the null pointer is 0. The diagnostic read of the status register in
  \<^verbatim>\<open>init\<close> is kept, since reading may have an effect.
\<close>

section \<open>Descriptors\<close>

record rx_desc =
  rd_addr :: u64
  rd_length :: u16
  rd_checksum :: u16
  rd_status :: u8
  rd_errors :: u8
  rd_special :: u16

definition rx_desc_default :: rx_desc where
  "rx_desc_default =
     \<lparr>rd_addr = 0, rd_length = 0, rd_checksum = 0, rd_status = 0, rd_errors = 0, rd_special = 0\<rparr>"

record tx_desc =
  td_addr :: u64
  td_length :: u16
  td_cso :: u8
  td_cmd :: u8
  td_status :: u8
  td_css :: u8
  td_special :: u16

definition tx_desc_default :: tx_desc where
  "tx_desc_default =
     \<lparr>td_addr = 0, td_length = 0, td_cso = 0, td_cmd = 0, td_status = 0, td_css = 0, td_special = 0\<rparr>"

text \<open>Both descriptor structures are packed: 16 bytes, the step between two of them.\<close>

definition desc_size :: nat where
  "desc_size = 16"

section \<open>Memory and registers\<close>

record 'w card_ops = "'w mmio_ops" +
  co_net :: "'w net_ops"
  rx_desc_read :: "u64 \<Rightarrow> 'w \<Rightarrow> rx_desc \<times> 'w"
  rx_desc_write :: "u64 \<Rightarrow> rx_desc \<Rightarrow> 'w \<Rightarrow> 'w"
  tx_desc_read :: "u64 \<Rightarrow> 'w \<Rightarrow> tx_desc \<times> 'w"
  tx_desc_write :: "u64 \<Rightarrow> tx_desc \<Rightarrow> 'w \<Rightarrow> 'w"
  mem_slice :: "u64 \<Rightarrow> nat \<Rightarrow> 'w \<Rightarrow> bytes"
  box_into_raw :: "bytes \<Rightarrow> 'w \<Rightarrow> u64 \<times> 'w"
  box_drop :: "u64 \<Rightarrow> 'w \<Rightarrow> 'w"
  heap_alloc :: "nat \<Rightarrow> nat \<Rightarrow> 'w \<Rightarrow> u64 \<times> 'w"
  mapping_ready :: "'w \<Rightarrow> bool"
  translate_addr :: "u64 \<Rightarrow> 'w \<Rightarrow> u64 option"

definition mmio :: "'w card_ops \<Rightarrow> 'w mmio_ops" where
  "mmio ops = \<lparr>mmio_write = mmio_write ops, mmio_read = mmio_read ops\<rparr>"

text \<open>\<^verbatim>\<open>MEMORY_MAPPING.get().unwrap().translate_addr(a).unwrap().as_u64()\<close>\<close>

definition phys_addr :: "'w card_ops \<Rightarrow> u64 \<Rightarrow> 'w \<Rightarrow> u64 exec" where
  "phys_addr ops a w = (if mapping_ready ops w then unwrap (translate_addr ops a w) else Panic UnwrapFailed)"

text \<open>The address of the descriptor with the given index in a ring.\<close>

definition desc_at :: "u64 \<Rightarrow> u32 \<Rightarrow> u64" where
  "desc_at base index = base + ucast index * of_nat desc_size"

text \<open>\<^verbatim>\<open>Buffer::into_raw\<close> and the drop of \<^verbatim>\<open>Buffer::from_raw\<close>.\<close>

definition buffer_into_raw :: "'w card_ops \<Rightarrow> buffer \<Rightarrow> 'w \<Rightarrow> (u64 \<times> nat) \<times> 'w" where
  "buffer_into_raw ops b w = (case box_into_raw ops (buf_data b) w of (ptr, w) \<Rightarrow> ((ptr, buf_len b), w))"

definition drop_from_raw :: "'w card_ops \<Rightarrow> u64 \<Rightarrow> 'w \<Rightarrow> 'w" where
  "drop_from_raw ops ptr w = box_drop ops ptr w"

section \<open>Constants\<close>

definition REG_TCTRL :: u16 where "REG_TCTRL = 0x400"
definition REG_TXDESCLO :: u16 where "REG_TXDESCLO = 0x3800"
definition REG_TXDESCHI :: u16 where "REG_TXDESCHI = 0x3804"
definition REG_TXDESCLEN :: u16 where "REG_TXDESCLEN = 0x3808"
definition REG_TXDESCHEAD :: u16 where "REG_TXDESCHEAD = 0x3810"
definition REG_TXDESCTAIL :: u16 where "REG_TXDESCTAIL = 0x3818"
definition REG_TXDESCCTRL :: u16 where "REG_TXDESCCTRL = 0x3828"
definition REG_RCTRL :: u16 where "REG_RCTRL = 0x0100"
definition REG_RXDESCLO :: u16 where "REG_RXDESCLO = 0x2800"
definition REG_RXDESCHI :: u16 where "REG_RXDESCHI = 0x2804"
definition REG_RXDESCLEN :: u16 where "REG_RXDESCLEN = 0x2808"
definition REG_RXDESCHEAD :: u16 where "REG_RXDESCHEAD = 0x2810"
definition REG_RXDESCTAIL :: u16 where "REG_RXDESCTAIL = 0x2818"
definition REG_TIPG :: u16 where "REG_TIPG = 0x0410"

definition RCTL_EN :: u32 where "RCTL_EN = push_bit 1 1"
definition RCTL_SBP :: u32 where "RCTL_SBP = push_bit 2 1"
definition RCTL_UPE :: u32 where "RCTL_UPE = push_bit 3 1"
definition RCTL_MPE :: u32 where "RCTL_MPE = push_bit 4 1"
definition RCTL_LBM_NONE :: u32 where "RCTL_LBM_NONE = push_bit 7 0"
definition RTCL_RDMTS_HALF :: u32 where "RTCL_RDMTS_HALF = push_bit 8 0"
definition RCTL_BAM :: u32 where "RCTL_BAM = push_bit 15 1"
definition RCTL_SECRC :: u32 where "RCTL_SECRC = push_bit 26 1"
definition RCTL_BSIZE_2048 :: u32 where "RCTL_BSIZE_2048 = push_bit 16 0"

definition TCTL_EN :: u32 where "TCTL_EN = push_bit 1 1"
definition TCTL_PSP :: u32 where "TCTL_PSP = push_bit 3 1"
definition TCTL_CT_SHIFT :: nat where "TCTL_CT_SHIFT = 4"
definition TCTL_COLD_SHIFT :: nat where "TCTL_COLD_SHIFT = 12"
definition TCTL_RTLC :: u32 where "TCTL_RTLC = push_bit 24 1"

definition TSTA_DD :: u8 where "TSTA_DD = push_bit 0 1"

definition CMD_EOP :: u8 where "CMD_EOP = push_bit 0 1"
definition CMD_IFCS :: u8 where "CMD_IFCS = push_bit 1 1"
definition CMD_RS :: u8 where "CMD_RS = push_bit 3 1"

definition RX_DESC :: nat where "RX_DESC = 32"
definition TX_DESC :: nat where "TX_DESC = 8"

section \<open>The card\<close>

record e1000_card =
  ec_id :: nat
  ec_com :: coms
  ec_has_eeprom :: bool
  ec_rx_ptr :: u64
  ec_tx_ptr :: u64
  ec_cur_tx :: u32
  ec_cur_rx :: u32
  ec_last_reclaimed_tx :: u32
  ec_rx_buffers :: "u64 list"
  ec_tx_buffers :: "u64 list"
  ec_packet_queue :: packet_queue_receiver

text \<open>A run of \<^verbatim>\<open>coms.write_command\<close> calls.\<close>

fun write_commands :: "'w mmio_ops \<Rightarrow> coms \<Rightarrow> (u16 \<times> u32) list \<Rightarrow> 'w \<Rightarrow> 'w exec" where
  "write_commands ops com [] w = Ret w"
| "write_commands ops com ((r, v) # cs) w =
     xbind (write_command ops com r v w) (\<lambda>w. write_commands ops com cs w)"

text \<open>\<^verbatim>\<open>(0..n).any(|_| coms.read_command(0x0014) & 0x10 > 0)\<close>\<close>

fun detect_eeprom :: "'w mmio_ops \<Rightarrow> coms \<Rightarrow> nat \<Rightarrow> 'w \<Rightarrow> (bool \<times> 'w) exec" where
  "detect_eeprom ops com 0 w = Ret (False, w)"
| "detect_eeprom ops com (Suc n) w =
     xbind (read_command ops com 0x0014 w) (\<lambda>(v, w).
     if v AND 0x10 > 0 then Ret (True, w) else detect_eeprom ops com n w)"

text \<open>\<^verbatim>\<open>Layout::from_size_align\<close> and \<^verbatim>\<open>allocate_buffer\<close>, with the volatile write of the array.\<close>

definition layout_from_size_align :: "nat \<Rightarrow> nat \<Rightarrow> (nat \<times> nat) option" where
  "layout_from_size_align n align =
     (if align \<noteq> 0 \<and> of_nat align AND (of_nat align - 1 :: u64) = 0 \<and> n + align \<le> 2 ^ 63
      then Some (n, align) else None)"

definition allocate_buffer ::
  "(nat \<Rightarrow> nat \<Rightarrow> 'w \<Rightarrow> u64 \<times> 'w) \<Rightarrow> (u64 \<Rightarrow> 't \<Rightarrow> 'w \<Rightarrow> 'w) \<Rightarrow> 't list \<Rightarrow> 'w \<Rightarrow> (u64 \<times> 'w) exec" where
  "allocate_buffer alloc write_t descriptors w =
     xbind (unwrap (layout_from_size_align (length descriptors * desc_size) desc_size)) (\<lambda>(n, align).
     case alloc n align w of
       (raw_ptr, w) \<Rightarrow>
         Ret (raw_ptr,
           fold (\<lambda>(i, d) w. write_t (desc_at raw_ptr (of_nat i)) d w) (enumerate 0 descriptors) w))"

text \<open>
  The receive ring of \<^verbatim>\<open>init\<close>: a buffer of 2064 zeros per descriptor, its physical address in the
  descriptor, its pointer in \<^verbatim>\<open>rx_buffers\<close> where the index is in range. There is one descriptor
  more than there are pointers.
\<close>

fun rx_fill :: "'w card_ops \<Rightarrow> nat list \<Rightarrow> rx_desc list \<Rightarrow> u64 list \<Rightarrow> 'w \<Rightarrow> (rx_desc list \<times> u64 list \<times> 'w) exec" where
  "rx_fill ops [] descriptors rx_buffers w = Ret (descriptors, rx_buffers, w)"
| "rx_fill ops (index # rest) descriptors rx_buffers w =
     (case box_into_raw ops (replicate (2048 + 16) 0) w of
        (raw_ptr, w) \<Rightarrow>
          xbind (phys_addr ops raw_ptr w) (\<lambda>phys.
          let descriptors = descriptors[index := (descriptors ! index)\<lparr>rd_addr := phys, rd_status := 0\<rparr>];
              rx_buffers = (if index < length rx_buffers then rx_buffers[index := raw_ptr] else rx_buffers)
          in rx_fill ops rest descriptors rx_buffers w))"

definition init_rx :: "'w card_ops \<Rightarrow> coms \<Rightarrow> 'w \<Rightarrow> (u64 \<times> u64 list \<times> 'w) exec" where
  "init_rx ops com w =
     xbind (rx_fill ops [0 ..< RX_DESC + 1] (replicate (RX_DESC + 1) rx_desc_default) (replicate RX_DESC 0) w)
       (\<lambda>(descriptors, rx_buffers, w).
     xbind (allocate_buffer (heap_alloc ops) (rx_desc_write ops) descriptors w) (\<lambda>(desc_virt_ptr, w).
     xbind (phys_addr ops desc_virt_ptr w) (\<lambda>ptr.
     xbind (write_commands (mmio ops) com
       [(REG_TXDESCLO, ucast (drop_bit 32 ptr)),
        (REG_TXDESCHI, ucast ptr),
        (REG_RXDESCLO, ucast ptr),
        (REG_RXDESCHI, 0),
        (REG_RXDESCLEN, of_nat RX_DESC * 16),
        (REG_RXDESCHEAD, 0),
        (REG_RXDESCTAIL, of_nat RX_DESC - 1),
        (REG_RCTRL, RCTL_EN OR RCTL_SBP OR RCTL_UPE OR RCTL_MPE OR RCTL_LBM_NONE OR RTCL_RDMTS_HALF
           OR RCTL_BAM OR RCTL_SECRC OR RCTL_BSIZE_2048)] w) (\<lambda>w.
     Ret (desc_virt_ptr, rx_buffers, w)))))"

definition init_tx :: "'w card_ops \<Rightarrow> coms \<Rightarrow> 'w \<Rightarrow> (u64 \<times> 'w) exec" where
  "init_tx ops com w =
     (let descriptors = map (\<lambda>desc. desc\<lparr>td_addr := 0, td_cmd := 0, td_status := TSTA_DD\<rparr>)
            (replicate (TX_DESC + 1) tx_desc_default)
      in
     xbind (allocate_buffer (heap_alloc ops) (tx_desc_write ops) descriptors w) (\<lambda>(desc_virt_ptr, w).
     xbind (phys_addr ops desc_virt_ptr w) (\<lambda>ptr.
     xbind (write_commands (mmio ops) com
       [(REG_TXDESCHI, ucast (drop_bit 32 ptr)),
        (REG_TXDESCLO, ucast ptr),
        (REG_TXDESCLEN, of_nat TX_DESC * 16),
        (REG_TXDESCHEAD, 0),
        (REG_TXDESCTAIL, 0),
        (REG_TCTRL, TCTL_EN OR TCTL_PSP OR push_bit TCTL_CT_SHIFT 15 OR push_bit TCTL_COLD_SHIFT 64
           OR TCTL_RTLC),
        (REG_TIPG, 0x0060200A)] w) (\<lambda>w.
     Ret (desc_virt_ptr, w)))))"

text \<open>The closure \<^verbatim>\<open>init\<close> returns beside the card, the notify function of the packet queue.\<close>

definition send_notify :: "'w card_ops \<Rightarrow> coms \<Rightarrow> 'w \<Rightarrow> 'w exec" where
  "send_notify ops com w =
     (let cause = ic_set_asserted False (ic_set_txd_low True ic_default)
      in write_command (mmio ops) com 0xc8 (ic_into cause) w)"

definition e1000_init ::
  "'w card_ops \<Rightarrow> nat \<Rightarrow> base_address_register \<Rightarrow> u64 \<Rightarrow> packet_queue_receiver \<Rightarrow> 'w \<Rightarrow>
     (e1000_card \<times> ('w \<Rightarrow> 'w exec) \<times> 'w) exec" where
  "e1000_init ops cid bar offset packet_queue w =
     (let com = coms_new bar offset in
     xbind (register_read (mmio ops) reg_STATUS com w) (\<lambda>(_, w).
     xbind (write_command (mmio ops) com 0x0014 0x1 w) (\<lambda>w.
     xbind (detect_eeprom (mmio ops) com 1000 w) (\<lambda>(has_eeprom, w).
     xbind (init_rx ops com w) (\<lambda>(rx_desc_ptrs, rx_buffers, w).
     xbind (init_tx ops com w) (\<lambda>(tx_desc_ptr, w).
     Ret
       (\<lparr>ec_id = cid, ec_com = com, ec_has_eeprom = has_eeprom, ec_rx_ptr = rx_desc_ptrs,
         ec_tx_ptr = tx_desc_ptr, ec_cur_tx = 0, ec_cur_rx = 0, ec_last_reclaimed_tx = 0,
         ec_rx_buffers = rx_buffers, ec_tx_buffers = replicate TX_DESC 0,
         ec_packet_queue = packet_queue\<rparr>,
        send_notify ops com, w)))))))"

definition enable_interrupts :: "'w card_ops \<Rightarrow> e1000_card \<Rightarrow> 'w \<Rightarrow> 'w exec" where
  "enable_interrupts ops self w =
     xbind (write_command (mmio ops) (ec_com self) REG_TXDESCCTRL (0 OR push_bit 25 2) w) (\<lambda>w.
     let imask_value =
           im_set_txd_low True (im_set_rxto True (im_set_rxo False (im_set_rxdmto False
             (im_set_lsc True (im_set_txqe False (im_set_txdw True im_default))))))
     in
     xbind (register_write (mmio ops) reg_IMASK (ec_com self) imask_value w) (\<lambda>w.
     xbind (read_command (mmio ops) (ec_com self) 0xc0 w) (\<lambda>(_, w). Ret w)))"

section \<open>EEPROM\<close>

text \<open>The loop of \<^verbatim>\<open>read_eeprom\<close>, which ends only when the card sets the done bit.\<close>

partial_function (option) eeprom_wait :: "'w mmio_ops \<Rightarrow> coms \<Rightarrow> 'w \<Rightarrow> (u32 \<times> 'w) exec option" where
  "eeprom_wait ops com w =
     (case read_command ops com 0x0014 w of
        Panic p \<Rightarrow> Some (Panic p)
      | Ret r \<Rightarrow> if fst r AND push_bit 4 1 > 0 then Some (Ret r) else eeprom_wait ops com (snd r))"

definition read_eeprom :: "'w card_ops \<Rightarrow> e1000_card \<Rightarrow> u8 \<Rightarrow> 'w \<Rightarrow> (u16 \<times> 'w) exec option" where
  "read_eeprom ops self addr w =
     (if ec_has_eeprom self then
        lbind (lift_x (write_command (mmio ops) (ec_com self) 0x0014 (1 OR push_bit 8 (ucast addr)) w)) (\<lambda>w.
        lbind (eeprom_wait (mmio ops) (ec_com self) w) (\<lambda>(tmp, w).
        lift_x (Ret (ucast (drop_bit 16 tmp AND 0xFFFF), w))))
      else lift_x (Panic NotImplemented))"

definition read_mac_address :: "'w card_ops \<Rightarrow> e1000_card \<Rightarrow> 'w \<Rightarrow> (mac \<times> 'w) exec option" where
  "read_mac_address ops self w =
     (if ec_has_eeprom self then
        lbind (read_eeprom ops self 0 w) (\<lambda>(first2, w).
        lbind (read_eeprom ops self 1 w) (\<lambda>(second2, w).
        lbind (read_eeprom ops self 2 w) (\<lambda>(third2, w).
        lift_x (Ret
          (Mac (ucast (first2 AND 0xff)) (ucast (drop_bit 8 first2))
             (ucast (second2 AND 0xff)) (ucast (drop_bit 8 second2))
             (ucast (third2 AND 0xff)) (ucast (drop_bit 8 third2)), w)))))
      else lift_x (Panic NotImplemented))"

section \<open>Interrupts\<close>

definition get_intterupt_cause :: "'w card_ops \<Rightarrow> e1000_card \<Rightarrow> 'w \<Rightarrow> (interrupt_cause_register \<times> 'w) exec" where
  "get_intterupt_cause ops self w = register_read (mmio ops) reg_ICAUSE (ec_com self) w"

definition enqueue_packet :: "'w card_ops \<Rightarrow> e1000_card \<Rightarrow> u64 \<Rightarrow> nat \<Rightarrow> 'w \<Rightarrow> (e1000_card \<times> 'w) exec" where
  "enqueue_packet ops self data_ptr len w =
     (let base_ptr = desc_at (ec_tx_ptr self) (ec_cur_tx self) in
      xbind (phys_addr ops data_ptr w) (\<lambda>phys.
      case tx_desc_read ops base_ptr w of (desc, w) \<Rightarrow>
      let w = tx_desc_write ops base_ptr
            (desc\<lparr>td_addr := phys, td_length := of_nat len, td_cmd := CMD_EOP OR CMD_IFCS OR CMD_RS,
               td_status := 0\<rparr>) w
      in
      xbind (set_at (ec_tx_buffers self) (unat (ec_cur_tx self)) data_ptr) (\<lambda>tx_buffers.
      let self = self\<lparr>ec_tx_buffers := tx_buffers\<rparr> in
      xbind (add_w (ec_cur_tx self) 1) (\<lambda>n.
      let next_tail = n mod 8 in
      xbind (write_command (mmio ops) (ec_com self) REG_TXDESCTAIL next_tail w) (\<lambda>w.
      Ret (self\<lparr>ec_cur_tx := next_tail\<rparr>, w))))))"

definition e1000_id :: "e1000_card \<Rightarrow> nat" where
  "e1000_id self = ec_id self"

definition e1000_mac_address :: "'w card_ops \<Rightarrow> e1000_card \<Rightarrow> 'w \<Rightarrow> (mac \<times> 'w) exec option" where
  "e1000_mac_address ops self w = read_mac_address ops self w"

definition e1000_handles_interrupt :: "e1000_card \<Rightarrow> u8 \<Rightarrow> bool" where
  "e1000_handles_interrupt self irq_offset \<longleftrightarrow> irq_offset = 0xb"

text \<open>
  The loop over received descriptors: \<open>rx_step\<close> is its body, with \<open>False\<close> when it breaks. It
  ends when it meets a descriptor the card has not filled.
\<close>

definition rx_step :: "'w card_ops \<Rightarrow> e1000_card \<Rightarrow> 'w \<Rightarrow> (bool \<times> e1000_card \<times> 'w) exec" where
  "rx_step ops self w =
     (let target_ptr = desc_at (ec_rx_ptr self) (ec_cur_rx self) in
      case rx_desc_read ops target_ptr w of (desc, w) \<Rightarrow>
      if rd_status desc AND 0b01 = 0 then Ret (False, self, w)
      else
        let len = rd_length desc in
        xbind (index_at (ec_rx_buffers self) (unat (ec_cur_rx self))) (\<lambda>addr.
        let content = mem_slice ops addr (unat len) w;
            buffer = buffer_new content;
            w = snd (op_msg_enqueue (co_net ops) (Msg_Packet \<lparr>rp_id = ec_id self, rp_buffer = buffer\<rparr>) w);
            w = rx_desc_write ops target_ptr (desc\<lparr>rd_status := 0\<rparr>) w;
            old_rx = ec_cur_rx self
        in
        xbind (add_w (ec_cur_rx self) 1) (\<lambda>n.
        let self = self\<lparr>ec_cur_rx := n mod of_nat RX_DESC\<rparr> in
        xbind (write_command (mmio ops) (ec_com self) REG_RXDESCTAIL old_rx w) (\<lambda>w.
        Ret (True, self, w)))))"

partial_function (option) rx_loop :: "'w card_ops \<Rightarrow> e1000_card \<Rightarrow> 'w \<Rightarrow> (e1000_card \<times> 'w) exec option" where
  "rx_loop ops self w =
     (case rx_step ops self w of
        Panic p \<Rightarrow> Some (Panic p)
      | Ret r \<Rightarrow> if fst r then rx_loop ops (fst (snd r)) (snd (snd r)) else Some (Ret (snd r)))"

text \<open>\<^verbatim>\<open>for _ in 0..TX_DESC\<close> over the packets waiting in the queue.\<close>

fun tx_send :: "'w card_ops \<Rightarrow> nat \<Rightarrow> e1000_card \<Rightarrow> 'w \<Rightarrow> (e1000_card \<times> 'w) exec" where
  "tx_send ops 0 self w = Ret (self, w)"
| "tx_send ops (Suc n) self w =
     (case packet_queue_dequeue (co_net ops) (ec_packet_queue self) w of
        (None, w) \<Rightarrow> Ret (self, w)
      | (Some packet, w) \<Rightarrow>
          (case buffer_into_raw ops (eth_into_buffer packet) w of
             ((data_ptr, len), w) \<Rightarrow>
               xbind (enqueue_packet ops self data_ptr len w) (\<lambda>(self, w). tx_send ops n self w)))"

text \<open>
  The loop over \<^verbatim>\<open>(0..8).cycle().skip(last_reclaimed_tx).take_while(|i| *i != cur_tx_head)\<close>. It
  does not end when the head is no index of the ring.
\<close>

definition reclaim_step :: "'w card_ops \<Rightarrow> u32 \<Rightarrow> e1000_card \<Rightarrow> 'w \<Rightarrow> (e1000_card \<times> 'w) exec" where
  "reclaim_step ops tx_index self w =
     (case tx_desc_read ops (desc_at (ec_tx_ptr self) tx_index) w of (desc, w) \<Rightarrow>
      if td_status desc \<noteq> 1 then Ret (self, w)
      else
        xbind (index_at (ec_tx_buffers self) (unat tx_index)) (\<lambda>tx_data_ptr.
        let w = drop_from_raw ops tx_data_ptr w in
        xbind (set_at (ec_tx_buffers self) (unat tx_index) 0) (\<lambda>tx_buffers.
        xbind (add_w tx_index 1) (\<lambda>n.
        Ret (self\<lparr>ec_tx_buffers := tx_buffers, ec_last_reclaimed_tx := n mod of_nat TX_DESC\<rparr>, w)))))"

partial_function (option) reclaim_loop ::
  "'w card_ops \<Rightarrow> u32 \<Rightarrow> u32 \<Rightarrow> e1000_card \<Rightarrow> 'w \<Rightarrow> (e1000_card \<times> 'w) exec option" where
  "reclaim_loop ops head tx_index self w =
     (if tx_index = head then Some (Ret (self, w))
      else
        (case reclaim_step ops tx_index self w of
           Panic p \<Rightarrow> Some (Panic p)
         | Ret r \<Rightarrow> reclaim_loop ops head ((tx_index + 1) mod 8) (fst r) (snd r)))"

definition e1000_handle_interrupt :: "'w card_ops \<Rightarrow> e1000_card \<Rightarrow> 'w \<Rightarrow> (e1000_card \<times> 'w) exec option" where
  "e1000_handle_interrupt ops self w =
     lbind (lift_x (get_intterupt_cause ops self w)) (\<lambda>(cause, w).
     lbind (if ic_rxt cause then rx_loop ops self w else lift_x (Ret (self, w))) (\<lambda>(self, w).
     lbind (lift_x (read_command (mmio ops) (ec_com self) REG_TXDESCHEAD w)) (\<lambda>(cur_tx_head, w).
     lbind (lift_x (read_command (mmio ops) (ec_com self) REG_TXDESCTAIL w)) (\<lambda>(cur_tx_tail, w).
     lbind (lift_x
       (if cur_tx_head = cur_tx_tail \<and> (ic_txd_low cause \<or> ic_txdw cause)
        then tx_send ops TX_DESC self w else Ret (self, w))) (\<lambda>(self, w).
     if ic_txdw cause then reclaim_loop ops cur_tx_head (ec_last_reclaimed_tx self mod 8) self w
     else lift_x (Ret (self, w)))))))"

section \<open>Register accesses\<close>

text \<open>A window in memory whose last register is still an address of 64 bits.\<close>

definition com_ok :: "coms \<Rightarrow> bool" where
  "com_ok com \<longleftrightarrow>
     (case cm_bar com of
        MemorySpace a _ _ \<Rightarrow> unat a + 2 ^ 16 + unat (cm_offset com) \<le> 2 ^ 64
      | IOSpace _ \<Rightarrow> False)"

definition reg_target :: "coms \<Rightarrow> u16 \<Rightarrow> u64" where
  "reg_target com r = ucast (bar_address (cm_bar com)) + ucast r + cm_offset com"

lemma com_ok_address:
  assumes "com_ok com"
  shows "\<exists>a p t. cm_bar com = MemorySpace a p t \<and>
    add_w (ucast a) (ucast r) = Ret (ucast a + ucast r :: u64) \<and>
    add_w (ucast a + ucast r :: u64) (cm_offset com) = Ret (reg_target com r)"
proof -
  obtain a p t where bar: "cm_bar com = MemorySpace a p t" and le: "unat a + 2 ^ 16 + unat (cm_offset com) \<le> 2 ^ 64"
    using assms by (auto simp: com_ok_def split: base_address_register.splits)
  have r: "unat r < 2 ^ 16" using unat_lt_u16 [of r] by simp
  have s: "unat (ucast a + ucast r :: u64) = unat a + unat r"
    using le r by (subst unat_word_ariths) (simp add: unat_ucast_up)
  show ?thesis using le r s by (simp add: bar add_w_def reg_target_def unat_ucast_up)
qed

lemma write_command_eq:
  assumes "com_ok com"
  shows "write_command ops com r v w = Ret (mmio_write ops (reg_target com r) v w)"
  using com_ok_address [OF assms, of r] by (auto simp: write_command_def)

lemma read_command_eq:
  assumes "com_ok com"
  shows "read_command ops com r w = Ret (mmio_read ops (reg_target com r) w)"
  using com_ok_address [OF assms, of r] by (auto simp: read_command_def)

lemma get_intterupt_cause_eq:
  assumes "com_ok (ec_com c)"
  shows "get_intterupt_cause ops c w =
    Ret (ic_from (fst (mmio_read ops (reg_target (ec_com c) 0xc0) w)), snd (mmio_read ops (reg_target (ec_com c) 0xc0) w))"
  by (simp add: get_intterupt_cause_def register_read_def read_command_eq [OF assms] reg_ICAUSE_def split_def mmio_def)

section \<open>The card's invariant\<close>

definition card_inv :: "e1000_card \<Rightarrow> bool" where
  "card_inv c \<longleftrightarrow> unat (ec_cur_tx c) < TX_DESC \<and> unat (ec_cur_rx c) < RX_DESC \<and>
     unat (ec_last_reclaimed_tx c) < TX_DESC \<and>
     length (ec_rx_buffers c) = RX_DESC \<and> length (ec_tx_buffers c) = TX_DESC \<and> com_ok (ec_com c)"

text \<open>What the handler never changes of a card.\<close>

definition same_card :: "e1000_card \<Rightarrow> e1000_card \<Rightarrow> bool" where
  "same_card c c' \<longleftrightarrow> ec_id c' = ec_id c \<and> ec_com c' = ec_com c \<and> ec_has_eeprom c' = ec_has_eeprom c \<and>
     ec_rx_ptr c' = ec_rx_ptr c \<and> ec_tx_ptr c' = ec_tx_ptr c \<and> ec_rx_buffers c' = ec_rx_buffers c \<and>
     ec_packet_queue c' = ec_packet_queue c"

definition card_post :: "e1000_card \<Rightarrow> (e1000_card \<times> 'w) exec \<Rightarrow> bool" where
  "card_post c r \<longleftrightarrow>
     (case r of Ret (c', _) \<Rightarrow> card_inv c' \<and> same_card c c' | Panic p \<Rightarrow> p = UnwrapFailed)"

lemma same_card_refl [simp]: "same_card c c"
  by (simp add: same_card_def)

lemma card_post_trans: "same_card c c' \<Longrightarrow> card_post c' r \<Longrightarrow> card_post c r"
  by (auto simp: card_post_def same_card_def split: exec.splits)

lemma succ_index:
  fixes i :: u32
  assumes "unat i < 32"
  shows "add_w i 1 = Ret (i + 1)"
  using assms by (simp add: add_w_def)

lemma mod_index:
  fixes i :: u32
  shows "unat (i mod 8) < 8" and "unat (i mod 32) < 32"
  by (simp_all add: unat_mod_distrib)

lemma enqueue_packet_post:
  assumes "card_inv c"
  shows "card_post c (enqueue_packet ops c p n w)"
  using assms succ_index [of "ec_cur_tx c"] mod_index(1) [of "ec_cur_tx c + 1"]
  by (auto simp: enqueue_packet_def Let_def card_post_def card_inv_def same_card_def phys_addr_def unwrap_def
      set_at_def write_command_eq TX_DESC_def RX_DESC_def split: option.splits prod.splits)

lemma rx_step_post:
  assumes "card_inv c"
  shows "case rx_step ops c w of Ret (_, c', _) \<Rightarrow> card_inv c' \<and> same_card c c' | Panic p \<Rightarrow> False"
  using assms succ_index [of "ec_cur_rx c"] mod_index(2) [of "ec_cur_rx c + 1"]
  by (auto simp: rx_step_def Let_def card_inv_def same_card_def index_at_def write_command_eq RX_DESC_def
      split: prod.splits)

lemma reclaim_step_post:
  assumes "card_inv c" and "unat i < 8"
  shows "case reclaim_step ops i c w of Ret (c', _) \<Rightarrow> card_inv c' \<and> same_card c c' | Panic p \<Rightarrow> False"
  using assms succ_index [of i] mod_index(1) [of "i + 1"]
  by (auto simp: reclaim_step_def Let_def card_inv_def same_card_def index_at_def set_at_def TX_DESC_def
      split: prod.splits)

lemma tx_send_post: "card_inv c \<Longrightarrow> card_post c (tx_send ops n c w)"
proof (induction n arbitrary: c w)
  case 0
  then show ?case by (simp add: card_post_def)
next
  case (Suc n)
  show ?case
  proof (cases "packet_queue_dequeue (co_net ops) (ec_packet_queue c) w")
    case (Pair packet w1)
    show ?thesis
    proof (cases packet)
      case None
      then show ?thesis using Suc.prems by (simp add: Pair card_post_def)
    next
      case (Some p)
      obtain ptr len w2 where raw: "buffer_into_raw ops (eth_into_buffer p) w1 = ((ptr, len), w2)"
        by (metis prod.exhaust)
      have post: "card_post c (enqueue_packet ops c ptr len w2)" using Suc.prems by (rule enqueue_packet_post)
      show ?thesis
      proof (cases "enqueue_packet ops c ptr len w2")
        case (Ret r)
        obtain c' w' where r: "r = (c', w')" by (cases r)
        then have "card_inv c'" "same_card c c'" using post Ret by (simp_all add: card_post_def)
        then show ?thesis using Suc.IH [of c' w'] card_post_trans by (simp add: Pair Some raw Ret r)
      next
        case (Panic p')
        then show ?thesis using post by (simp add: Pair Some raw card_post_def)
      qed
    qed
  qed
qed

definition loop_post :: "e1000_card \<Rightarrow> (e1000_card \<times> 'w) exec \<Rightarrow> bool" where
  "loop_post c r \<longleftrightarrow> (\<exists>c' w'. r = Ret (c', w') \<and> card_inv c' \<and> same_card c c')"

lemma loop_post_trans: "same_card c c' \<Longrightarrow> loop_post c' r \<Longrightarrow> loop_post c r"
  by (auto simp: loop_post_def same_card_def)

lemma loop_post_card: "loop_post c r \<Longrightarrow> card_post c r"
  by (auto simp: loop_post_def card_post_def)

lemma rx_loop_post: "rx_loop ops c w = Some r \<Longrightarrow> card_inv c \<longrightarrow> loop_post c r"
proof (erule rx_loop.raw_induct [rotated], rule impI)
  fix loop and ops :: "'a card_ops" and c w r
  assume IH: "\<And>ops c w r. loop ops c w = Some r \<Longrightarrow> card_inv c \<longrightarrow> loop_post c r"
    and body: "(case rx_step ops c w of
        Ret x \<Rightarrow> if fst x then loop ops (fst (snd x)) (snd (snd x)) else Some (Ret (snd x))
      | Panic p \<Rightarrow> Some (Panic p)) = Some r"
    and inv: "card_inv c"
  show "loop_post c r"
  proof (cases "rx_step ops c w")
    case (Panic p)
    then show ?thesis using rx_step_post [OF inv, of ops w] by simp
  next
    case (Ret x)
    obtain b c' w' where x: "x = (b, c', w')" by (cases x)
    then have inv': "card_inv c'" "same_card c c'" using rx_step_post [OF inv, of ops w] Ret by simp_all
    show ?thesis
    proof (cases b)
      case True
      then have "loop ops c' w' = Some r" using body by (simp add: Ret x)
      then show ?thesis using IH inv' loop_post_trans by blast
    qed (use body inv' in \<open>auto simp: Ret x loop_post_def\<close>)
  qed
qed

lemma reclaim_loop_post:
  "reclaim_loop ops head i c w = Some r \<Longrightarrow> card_inv c \<and> unat i < 8 \<longrightarrow> loop_post c r"
proof (erule reclaim_loop.raw_induct [rotated], rule impI, elim conjE)
  fix loop and ops :: "'a card_ops" and head i c w r
  assume IH: "\<And>ops head i c w r. loop ops head i c w = Some r \<Longrightarrow> card_inv c \<and> unat i < 8 \<longrightarrow> loop_post c r"
    and body: "(if i = head then Some (Ret (c, w))
      else case reclaim_step ops i c w of
        Ret x \<Rightarrow> loop ops head ((i + 1) mod 8) (fst x) (snd x)
      | Panic p \<Rightarrow> Some (Panic p)) = Some r"
    and inv: "card_inv c" and i: "unat i < 8"
  show "loop_post c r"
  proof (cases "i = head")
    case True
    then show ?thesis using body inv by (auto simp: loop_post_def)
  next
    case False
    show ?thesis
    proof (cases "reclaim_step ops i c w")
      case (Ret x)
      obtain c' w' where x: "x = (c', w')" by (cases x)
      then have inv': "card_inv c'" "same_card c c'"
        using reclaim_step_post [OF inv i, of ops w] Ret by simp_all
      moreover have "loop ops head ((i + 1) mod 8) c' w' = Some r" using body False by (simp add: Ret x)
      ultimately show ?thesis using IH mod_index(1) loop_post_trans by blast
    qed (use reclaim_step_post [OF inv i, of ops w] in simp)
  qed
qed

lemma lbind_card_post:
  assumes "lbind m f = Some r" and "\<And>x. m = Some x \<Longrightarrow> card_post c x"
    and "\<And>c' w'. card_inv c' \<Longrightarrow> f (c', w') = Some r \<Longrightarrow> card_post c' r"
  shows "card_post c r"
proof -
  consider (Panic) p where "m = Some (Panic p)" "r = Panic p"
    | (Ret) c' w' where "m = Some (Ret (c', w'))" "f (c', w') = Some r"
    using assms(1) by (auto simp: lbind_Some_iff)
  then show ?thesis
  proof cases
    case Panic
    then show ?thesis using assms(2) by (auto simp: card_post_def)
  next
    case Ret
    then have "card_inv c'" "same_card c c'" using assms(2) [of "Ret (c', w')"] by (simp_all add: card_post_def)
    then show ?thesis using assms(3) Ret(2) card_post_trans by blast
  qed
qed

lemma tx_phase_post:
  assumes inv: "card_inv c"
    and "lbind (Some (if send then tx_send ops TX_DESC c w else Ret (c, w))) (\<lambda>(self, w).
      if reclaim then reclaim_loop ops head (ec_last_reclaimed_tx self mod 8) self w else Some (Ret (self, w))) = Some r"
  shows "card_post c r"
  using assms(2)
proof (rule lbind_card_post)
  show "card_post c x" if "Some (if send then tx_send ops TX_DESC c w else Ret (c, w)) = Some x" for x
    using that tx_send_post [OF inv] inv by (auto simp: card_post_def)
  show "card_post c' r"
    if c': "card_inv c'" and run: "(case (c', w') of (self, w) \<Rightarrow>
      if reclaim then reclaim_loop ops head (ec_last_reclaimed_tx self mod 8) self w else Some (Ret (self, w))) = Some r"
    for c' w'
  proof (cases reclaim)
    case True
    then show ?thesis using run reclaim_loop_post c' mod_index(1) loop_post_card by fastforce
  qed (use run c' in \<open>auto simp: card_post_def\<close>)
qed

lemma rx_phase_post:
  assumes "card_inv c" and "(if b then rx_loop ops c w else Some (Ret (c, w))) = Some x"
  shows "card_post c x"
proof (cases b)
  case True
  then show ?thesis using assms rx_loop_post loop_post_card by (metis (full_types))
qed (use assms in \<open>auto simp: card_post_def\<close>)

lemma handle_interrupt_post:
  assumes inv: "card_inv c" and run: "e1000_handle_interrupt ops c w = Some r"
  shows "card_post c r"
proof -
  have com: "com_ok (ec_com c)" if "card_inv c" for c using that by (simp add: card_inv_def)
  note run = run [unfolded e1000_handle_interrupt_def get_intterupt_cause_eq [OF com [OF inv]] lbind_simps prod.case]
  show ?thesis
  proof (rule lbind_card_post [OF run])
    show "card_post c' r" if c': "card_inv c'" and run: "(case (c', w') of (self, w) \<Rightarrow>
        lbind (Some (read_command (mmio ops) (ec_com self) REG_TXDESCHEAD w)) (\<lambda>(cur_tx_head, w).
        lbind (Some (read_command (mmio ops) (ec_com self) REG_TXDESCTAIL w)) (\<lambda>(cur_tx_tail, w).
        lbind (Some (if cur_tx_head = cur_tx_tail \<and> (ic_txd_low cause \<or> ic_txdw cause)
          then tx_send ops TX_DESC self w else Ret (self, w))) (\<lambda>(self, w).
        if ic_txdw cause then reclaim_loop ops cur_tx_head (ec_last_reclaimed_tx self mod 8) self w
        else Some (Ret (self, w)))))) = Some r" for c' w' cause
    proof -
      obtain head w1 where head: "read_command (mmio ops) (ec_com c') REG_TXDESCHEAD w' = Ret (head, w1)"
        using read_command_eq [OF com [OF c']] by (metis surj_pair)
      obtain tail w2 where tail: "read_command (mmio ops) (ec_com c') REG_TXDESCTAIL w1 = Ret (tail, w2)"
        using read_command_eq [OF com [OF c']] by (metis surj_pair)
      show ?thesis
        using run [unfolded prod.case head lbind_simps tail] by (rule tx_phase_post [OF c'])
    qed
  qed (rule rx_phase_post [OF inv])
qed

interpretation e1000: networking_device
  e1000_handles_interrupt "e1000_handle_interrupt ops" ec_id card_inv "\<lambda>p. p = UnwrapFailed"
proof unfold_locales
  fix d d' w w' p
  assume inv: "card_inv d"
  show "card_inv d' \<and> ec_id d' = ec_id d" if "e1000_handle_interrupt ops d w = Some (Ret (d', w'))"
    using handle_interrupt_post [OF inv that] by (simp add: card_post_def same_card_def)
  show "p = UnwrapFailed" if "e1000_handle_interrupt ops d w = Some (Panic p)"
    using handle_interrupt_post [OF inv that] by (simp add: card_post_def)
qed

end
