(* ===== verification/E1000_Rings.thy ===== *)
theory E1000_Rings
  imports E1000_Card
begin

text \<open>
  The descriptor rings of the network card: what the receive loop delivers, what the send loop hands
  to the card, when the reclaim loop ends, and the properties of the driver.
\<close>

section \<open>The card as memory\<close>

text \<open>
  What the driver sees of the world while the card does not act: the descriptors, the receive
  buffers, the registers, the boxes handed over as raw pointers, the messages for the handler and
  the packet queues. An access changes what it is meant to change and nothing else; reading a
  register may clear it. \<open>cm_room\<close> counts the allocations the heap can still serve: as long as there
  is room, a box gets an address no other box has.
\<close>

record card_mem =
  cm_rxd :: "u64 \<Rightarrow> rx_desc"
  cm_txd :: "u64 \<Rightarrow> tx_desc"
  cm_slice :: "u64 \<Rightarrow> nat \<Rightarrow> bytes"
  cm_regs :: "u64 \<Rightarrow> u32"
  cm_boxes :: "u64 \<rightharpoonup> bytes"
  cm_room :: nat
  cm_msgs :: "handler_message list"
  cm_queue :: "nat \<Rightarrow> eth_packet list"

definition card_laws :: "'w card_ops \<Rightarrow> ('w \<Rightarrow> card_mem) \<Rightarrow> (u64 \<Rightarrow> u64) \<Rightarrow> bool" where
  "card_laws ops view phys \<longleftrightarrow>
     (\<forall>a w. fst (rx_desc_read ops a w) = cm_rxd (view w) a \<and> view (snd (rx_desc_read ops a w)) = view w) \<and>
     (\<forall>a d w. view (rx_desc_write ops a d w) = (view w)\<lparr>cm_rxd := (cm_rxd (view w))(a := d)\<rparr>) \<and>
     (\<forall>a w. fst (tx_desc_read ops a w) = cm_txd (view w) a \<and> view (snd (tx_desc_read ops a w)) = view w) \<and>
     (\<forall>a d w. view (tx_desc_write ops a d w) = (view w)\<lparr>cm_txd := (cm_txd (view w))(a := d)\<rparr>) \<and>
     (\<forall>a n w. mem_slice ops a n w = cm_slice (view w) a n) \<and>
     (\<forall>a v w. view (mmio_write ops a v w) = (view w)\<lparr>cm_regs := (cm_regs (view w))(a := v)\<rparr>) \<and>
     (\<forall>a w. fst (mmio_read ops a w) = cm_regs (view w) a \<and>
        (\<exists>v. view (snd (mmio_read ops a w)) = (view w)\<lparr>cm_regs := (cm_regs (view w))(a := v)\<rparr>)) \<and>
     (\<forall>b w. 0 < cm_room (view w) \<longrightarrow> fst (box_into_raw ops b w) \<notin> dom (cm_boxes (view w)) \<and>
        view (snd (box_into_raw ops b w)) =
          (view w)\<lparr>cm_boxes := (cm_boxes (view w))(fst (box_into_raw ops b w) \<mapsto> b),
            cm_room := cm_room (view w) - 1\<rparr>) \<and>
     (\<forall>p w. view (box_drop ops p w) = (view w)\<lparr>cm_boxes := (cm_boxes (view w))(p := None)\<rparr>) \<and>
     (\<forall>m w. view (snd (op_msg_enqueue (co_net ops) m w)) = (view w)\<lparr>cm_msgs := cm_msgs (view w) @ [m]\<rparr>) \<and>
     (\<forall>q w. fst (op_try_dequeue (co_net ops) q w) = (case cm_queue (view w) q of [] \<Rightarrow> None | p # _ \<Rightarrow> Some p) \<and>
        view (snd (op_try_dequeue (co_net ops) q w)) =
          (view w)\<lparr>cm_queue := (cm_queue (view w))(q := tl (cm_queue (view w) q))\<rparr>) \<and>
     (\<forall>a w. mapping_ready ops w \<and> translate_addr ops a w = Some (phys a))"

lemma desc_at_inject [simp]: "desc_at base i = desc_at base j \<longleftrightarrow> i = j"
proof
  assume "desc_at base i = desc_at base j"
  then have eq: "ucast i * 16 = (ucast j * 16 :: u64)" by (simp add: desc_at_def desc_size_def)
  have u: "unat (ucast k * 16 :: u64) = unat k * 16" for k :: u32
    using unsigned_less [of k, where ?'a = nat] by (subst unat_word_ariths) (simp add: unat_ucast_up)
  have "unat i * 16 = unat j * 16" using arg_cong [OF eq, of unat] by (simp only: u)
  then show "i = j" by (simp add: word_unat_eq_iff)
qed simp

section \<open>Receiving\<close>

text \<open>The ring index \<open>j\<close> places after the current one, and whether the card has filled it.\<close>

definition rx_index :: "e1000_card \<Rightarrow> nat \<Rightarrow> u32" where
  "rx_index c j = (ec_cur_rx c + of_nat j) mod 32"

definition rx_at :: "e1000_card \<Rightarrow> card_mem \<Rightarrow> nat \<Rightarrow> rx_desc" where
  "rx_at c v j = cm_rxd v (desc_at (ec_rx_ptr c) (rx_index c j))"

definition rx_filled :: "e1000_card \<Rightarrow> card_mem \<Rightarrow> nat \<Rightarrow> bool" where
  "rx_filled c v j \<longleftrightarrow> bit (rd_status (rx_at c v j)) 0"

text \<open>The message made of the descriptor \<open>j\<close> places after the current one.\<close>

definition rx_message :: "e1000_card \<Rightarrow> card_mem \<Rightarrow> nat \<Rightarrow> handler_message" where
  "rx_message c v j =
     Msg_Packet \<lparr>rp_id = ec_id c,
       rp_buffer = buffer_new (cm_slice v (ec_rx_buffers c ! unat (rx_index c j)) (unat (rd_length (rx_at c v j))))\<rparr>"

lemma unat_rx_index: "unat (rx_index c j) = (unat (ec_cur_rx c) + j) mod 32"
proof -
  have "(32::nat) dvd 2 ^ 32" by simp
  then show ?thesis
    by (simp add: rx_index_def unat_mod_distrib unat_word_ariths unat_of_nat mod_mod_cancel mod_simps)
qed

lemma ring_offset_inject:
  fixes a j k m :: nat
  assumes "j < m" and "k < m"
  shows "(a + j) mod m = (a + k) mod m \<longleftrightarrow> j = k"
proof -
  have le: "(a + j) mod m = (a + k) mod m \<Longrightarrow> j = k" if "j \<le> k" "k < m" for j k
    using that mod_eq_dvd_iff_nat [of "a + j" "a + k" m] by (auto dest!: dvd_imp_le)
  show ?thesis using le [of j k] le [of k j] assms by (metis nle_le)
qed

lemma rx_index_inject: "j < 32 \<Longrightarrow> k < 32 \<Longrightarrow> rx_index c j = rx_index c k \<longleftrightarrow> j = k"
  by (simp add: word_unat_eq_iff unat_rx_index ring_offset_inject)

lemma rx_index_shift: "rx_index (c\<lparr>ec_cur_rx := rx_index c (Suc 0)\<rparr>) j = rx_index c (Suc j)"
  by (simp add: word_unat_eq_iff unat_rx_index mod_simps)

lemma rx_index_0: "unat (ec_cur_rx c) < 32 \<Longrightarrow> rx_index c 0 = ec_cur_rx c"
  by (simp add: word_unat_eq_iff unat_rx_index)

lemma status_clear: "rd_status d AND 0b01 = 0 \<longleftrightarrow> \<not> bit (rd_status d) 0"
  by (simp add: and_one_eq bit_0 odd_iff_mod_2_eq_one)

text \<open>One turn of the loop on a filled descriptor, and on one that is not.\<close>

lemma rx_step_filled:
  assumes laws: "card_laws ops view phys" and inv: "card_inv c" and filled: "rx_filled c (view w) 0"
  shows "\<exists>w'. rx_step ops c w = Ret (True, c\<lparr>ec_cur_rx := rx_index c 1\<rparr>, w') \<and>
    view w' = (view w)\<lparr>cm_msgs := cm_msgs (view w) @ [rx_message c (view w) 0],
      cm_rxd := (cm_rxd (view w))(desc_at (ec_rx_ptr c) (rx_index c 0) := (rx_at c (view w) 0)\<lparr>rd_status := 0\<rparr>),
      cm_regs := (cm_regs (view w))(reg_target (ec_com c) REG_RXDESCTAIL := rx_index c 0)\<rparr>"
proof -
  have cur: "unat (ec_cur_rx c) < 32" and len: "length (ec_rx_buffers c) = 32" and com: "com_ok (ec_com c)"
    using inv by (simp_all add: card_inv_def RX_DESC_def)
  have nxt: "(ec_cur_rx c + 1) mod 32 = rx_index c 1" by (simp add: rx_index_def)
  obtain d w1 where d: "rx_desc_read ops (desc_at (ec_rx_ptr c) (ec_cur_rx c)) w = (d, w1)" by fastforce
  have d': "d = rx_at c (view w) 0" and w1: "view w1 = view w"
    using laws d unfolding card_laws_def by (metis fst_conv snd_conv rx_at_def rx_index_0 [OF cur])+
  show ?thesis
    using laws filled
    by (simp add: rx_step_def Let_def d status_clear rx_filled_def d' index_at_def cur len succ_index [OF cur]
        write_command_eq [OF com] RX_DESC_def nxt card_laws_def w1 rx_message_def rx_index_0 [OF cur] mmio_def)
qed

lemma rx_step_empty:
  assumes laws: "card_laws ops view phys" and inv: "card_inv c" and filled: "\<not> rx_filled c (view w) 0"
  shows "\<exists>w'. rx_step ops c w = Ret (False, c, w') \<and> view w' = view w"
proof -
  have cur: "unat (ec_cur_rx c) < 32" using inv by (simp add: card_inv_def RX_DESC_def)
  obtain d w1 where d: "rx_desc_read ops (desc_at (ec_rx_ptr c) (ec_cur_rx c)) w = (d, w1)" by fastforce
  have d': "d = rx_at c (view w) 0" and w1: "view w1 = view w"
    using laws d unfolding card_laws_def by (metis fst_conv snd_conv rx_at_def rx_index_0 [OF cur])+
  show ?thesis using filled by (simp add: rx_step_def d status_clear rx_filled_def d' w1)
qed

text \<open>What the loop leaves behind after \<open>k\<close> filled descriptors.\<close>

definition rx_done :: "e1000_card \<Rightarrow> nat \<Rightarrow> card_mem \<Rightarrow> card_mem" where
  "rx_done c k v =
     v\<lparr>cm_msgs := cm_msgs v @ map (rx_message c v) [0 ..< k],
       cm_rxd := (\<lambda>a. if \<exists>j<k. a = desc_at (ec_rx_ptr c) (rx_index c j)
         then (cm_rxd v a)\<lparr>rd_status := 0\<rparr> else cm_rxd v a),
       cm_regs := (if k = 0 then cm_regs v
         else (cm_regs v)(reg_target (ec_com c) REG_RXDESCTAIL := rx_index c (k - 1)))\<rparr>"

lemma rx_done_shift:
  assumes "k < 32" and c': "c' = c\<lparr>ec_cur_rx := rx_index c 1\<rparr>" and v': "v' = rx_done c 1 v"
  shows "j < 31 \<Longrightarrow> rx_at c' v' j = rx_at c v (Suc j)" and "\<not> rx_filled c' v' 31"
    and "rx_done c' k v' = rx_done c (Suc k) v" and "rx_index c' k = rx_index c (Suc k)"
proof -
  have ne: "rx_index c (Suc j) \<noteq> rx_index c 0" if "j < 31" for j
    using that by (subst rx_index_inject) simp_all
  have at: "rx_at c' v' j = (if j < 31 then rx_at c v (Suc j) else (rx_at c v 0)\<lparr>rd_status := 0\<rparr>)" if "j < 32" for j
  proof -
    have "j = 31" if "\<not> j < 31" using that \<open>j < 32\<close> by simp
    moreover have "rx_index c (Suc 31) = rx_index c 0" by (simp add: word_unat_eq_iff unat_rx_index)
    ultimately show ?thesis
      using ne by (auto simp: c' v' rx_at_def rx_done_def rx_index_shift)
  qed
  show "j < 31 \<Longrightarrow> rx_at c' v' j = rx_at c v (Suc j)" by (simp add: at)
  show "\<not> rx_filled c' v' 31" by (simp add: rx_filled_def at)
  show "rx_index c' k = rx_index c (Suc k)" by (simp add: c' rx_index_shift)
  have msg: "map (rx_message c' v') [0 ..< k] = map (rx_message c v) (map Suc [0 ..< k])"
    using assms(1) by (auto simp: rx_message_def at) (simp_all add: c' v' rx_index_shift rx_done_def)
  show "rx_done c' k v' = rx_done c (Suc k) v"
  proof -
    have upt: "[0 ..< Suc k] = 0 # map Suc [0 ..< k]" by (simp add: map_Suc_upt upt_conv_Cons del: upt_Suc)
    have rxd: "cm_rxd (rx_done c' k v') a = cm_rxd (rx_done c (Suc k) v) a" for a
      by (auto simp: rx_done_def c' v' rx_index_shift less_Suc_eq_0_disj)
    have regs: "cm_regs (rx_done c' k v') = cm_regs (rx_done c (Suc k) v)"
      by (cases k) (simp_all add: rx_done_def c' v' rx_index_shift)
    have all: "cm_msgs (rx_done c n u) = cm_msgs u @ map (rx_message c u) [0 ..< n]" for c n u
      by (simp add: rx_done_def)
    have msgs: "cm_msgs (rx_done c' k v') = cm_msgs (rx_done c (Suc k) v)"
      unfolding all msg upt by (simp add: v' all)
    show ?thesis
      using rxd regs msgs by (intro card_mem.equality) (auto simp: fun_eq_iff, auto simp: rx_done_def v')
  qed
qed

lemma rx_step_first:
  assumes "card_laws ops view phys" and "card_inv c" and "rx_filled c (view w) 0"
  shows "\<exists>w'. rx_step ops c w = Ret (True, c\<lparr>ec_cur_rx := rx_index c 1\<rparr>, w') \<and> view w' = rx_done c 1 (view w)"
  using rx_step_filled [OF assms] by (auto simp: rx_done_def rx_at_def fun_upd_def cong: if_cong)

lemma rx_loop_run:
  assumes laws: "card_laws ops view phys" and inv: "card_inv c" and "k < 32"
    and "\<And>j. j < k \<Longrightarrow> rx_filled c (view w) j" and "\<not> rx_filled c (view w) k"
  shows "\<exists>w'. rx_loop ops c w = Some (Ret (c\<lparr>ec_cur_rx := rx_index c k\<rparr>, w')) \<and> view w' = rx_done c k (view w)"
  using assms(2-)
proof (induction k arbitrary: c w)
  case 0
  have cur: "unat (ec_cur_rx c) < 32" using 0 by (simp add: card_inv_def RX_DESC_def)
  obtain w' where "rx_step ops c w = Ret (False, c, w')" "view w' = view w"
    using rx_step_empty [OF laws 0(1)] 0 by auto
  then show ?case by (subst rx_loop.simps) (simp add: rx_index_0 [OF cur] rx_done_def)
next
  case (Suc k)
  let ?c = "c\<lparr>ec_cur_rx := rx_index c 1\<rparr>"
  obtain w1 where step: "rx_step ops c w = Ret (True, ?c, w1)" and v: "view w1 = rx_done c 1 (view w)"
    using rx_step_first [OF laws Suc.prems(1)] Suc.prems(3) [of 0] by auto
  have inv: "card_inv ?c" using rx_step_post [OF Suc.prems(1), of ops w] step by simp
  have k: "k < 32" "k < 31" using Suc.prems(2) by simp_all
  have "\<exists>w'. rx_loop ops ?c w1 = Some (Ret (?c\<lparr>ec_cur_rx := rx_index ?c k\<rparr>, w')) \<and> view w' = rx_done ?c k (view w1)"
    using Suc.prems rx_done_shift(1) [OF k(1) refl v]
    by (intro Suc.IH inv k) (auto simp: rx_filled_def)
  then show ?case
    using rx_done_shift(3,4) [OF k(1) refl v] by (subst rx_loop.simps) (simp add: step)
qed

lemma rx_loop_all:
  assumes laws: "card_laws ops view phys" and inv: "card_inv c" and "k \<le> 32"
    and filled: "\<And>j. j < k \<Longrightarrow> rx_filled c (view w) j" and "k < 32 \<Longrightarrow> \<not> rx_filled c (view w) k"
  shows "\<exists>w'. rx_loop ops c w = Some (Ret (c\<lparr>ec_cur_rx := rx_index c k\<rparr>, w')) \<and> view w' = rx_done c k (view w)"
proof (cases "k = 32")
  case True
  let ?c = "c\<lparr>ec_cur_rx := rx_index c 1\<rparr>"
  obtain w1 where step: "rx_step ops c w = Ret (True, ?c, w1)" and v: "view w1 = rx_done c 1 (view w)"
    using rx_step_first [OF laws inv] filled [of 0] True by auto
  have "card_inv ?c" using rx_step_post [OF inv, of ops w] step by simp
  then have "\<exists>w'. rx_loop ops ?c w1 = Some (Ret (?c\<lparr>ec_cur_rx := rx_index ?c 31\<rparr>, w')) \<and>
      view w' = rx_done ?c 31 (view w1)"
    using filled rx_done_shift(1,2) [of 31, OF _ refl v] True by (intro rx_loop_run [OF laws]) (auto simp: rx_filled_def)
  then show ?thesis
    using rx_done_shift(3,4) [of 31, OF _ refl v] by (subst rx_loop.simps) (simp add: step True)
qed (use assms in \<open>auto intro!: rx_loop_run\<close>)

section \<open>Sending\<close>

definition tx_index :: "e1000_card \<Rightarrow> nat \<Rightarrow> u32" where
  "tx_index c j = (ec_cur_tx c + of_nat j) mod 8"

definition tx_at :: "e1000_card \<Rightarrow> card_mem \<Rightarrow> nat \<Rightarrow> tx_desc" where
  "tx_at c v j = cm_txd v (desc_at (ec_tx_ptr c) (tx_index c j))"

definition tx_entry :: "tx_desc \<Rightarrow> u64 \<Rightarrow> eth_packet \<Rightarrow> tx_desc" where
  "tx_entry d a p = d\<lparr>td_addr := a, td_length := of_nat (buf_len (eth_into_buffer p)), td_cmd := 0x0B, td_status := 0\<rparr>"

lemma unat_tx_index: "unat (tx_index c j) = (unat (ec_cur_tx c) + j) mod 8"
proof -
  have "(8::nat) dvd 2 ^ 32" by simp
  then show ?thesis
    by (simp add: tx_index_def unat_mod_distrib unat_word_ariths unat_of_nat mod_mod_cancel mod_simps)
qed

lemma tx_index_inject: "j < 8 \<Longrightarrow> k < 8 \<Longrightarrow> tx_index c j = tx_index c k \<longleftrightarrow> j = k"
  by (simp add: word_unat_eq_iff unat_tx_index ring_offset_inject)

lemma tx_index_0: "unat (ec_cur_tx c) < 8 \<Longrightarrow> tx_index c 0 = ec_cur_tx c"
  by (simp add: word_unat_eq_iff unat_tx_index)

text \<open>
  The packets \<open>ps\<close> were handed to the card: each has a new box with its bytes, the next free
  descriptor points to it, and every other descriptor and slot is as before.
\<close>

definition tx_sent ::
  "(u64 \<Rightarrow> u64) \<Rightarrow> eth_packet list \<Rightarrow> e1000_card \<Rightarrow> card_mem \<Rightarrow> e1000_card \<Rightarrow> card_mem \<Rightarrow> bool" where
  "tx_sent phys ps c v c' v' \<longleftrightarrow>
     same_card c c' \<and> ec_cur_rx c' = ec_cur_rx c \<and> ec_last_reclaimed_tx c' = ec_last_reclaimed_tx c \<and>
     ec_cur_tx c' = tx_index c (length ps) \<and>
     (ps \<noteq> [] \<longrightarrow> cm_regs v' (reg_target (ec_com c) REG_TXDESCTAIL) = tx_index c (length ps)) \<and>
     (\<exists>ptrs. length ptrs = length ps \<and>
        (\<forall>j<length ps. ptrs ! j \<notin> dom (cm_boxes v) \<and>
           cm_boxes v' (ptrs ! j) = Some (buf_data (eth_into_buffer (ps ! j))) \<and>
           tx_at c v' j = tx_entry (tx_at c v j) (phys (ptrs ! j)) (ps ! j) \<and>
           ec_tx_buffers c' ! unat (tx_index c j) = ptrs ! j)) \<and>
     (\<forall>j<8. length ps \<le> j \<longrightarrow> tx_at c v' j = tx_at c v j \<and>
        ec_tx_buffers c' ! unat (tx_index c j) = ec_tx_buffers c ! unat (tx_index c j)) \<and>
     cm_boxes v \<subseteq>\<^sub>m cm_boxes v'"

lemma enqueue_packet_eq:
  assumes laws: "card_laws ops view phys" and inv: "card_inv c"
  shows "\<exists>w'. enqueue_packet ops c ptr len w =
      Ret (c\<lparr>ec_tx_buffers := (ec_tx_buffers c)[unat (ec_cur_tx c) := ptr], ec_cur_tx := tx_index c 1\<rparr>, w') \<and>
    view w' = (view w)\<lparr>cm_txd := (cm_txd (view w))(desc_at (ec_tx_ptr c) (ec_cur_tx c) :=
        (cm_txd (view w) (desc_at (ec_tx_ptr c) (ec_cur_tx c)))
          \<lparr>td_addr := phys ptr, td_length := of_nat len, td_cmd := 0x0B, td_status := 0\<rparr>),
      cm_regs := (cm_regs (view w))(reg_target (ec_com c) REG_TXDESCTAIL := tx_index c 1)\<rparr>"
proof -
  have cur: "unat (ec_cur_tx c) < 8" and len: "length (ec_tx_buffers c) = 8" and com: "com_ok (ec_com c)"
    using inv by (simp_all add: card_inv_def TX_DESC_def)
  have nxt: "(ec_cur_tx c + 1) mod 8 = tx_index c 1" by (simp add: tx_index_def)
  obtain d w1 where d: "tx_desc_read ops (desc_at (ec_tx_ptr c) (ec_cur_tx c)) w = (d, w1)" by fastforce
  have d': "d = cm_txd (view w) (desc_at (ec_tx_ptr c) (ec_cur_tx c))" and w1: "view w1 = view w"
    using laws d unfolding card_laws_def by (metis fst_conv snd_conv)+
  show ?thesis
    using laws cur succ_index [of "ec_cur_tx c"]
    by (simp add: enqueue_packet_def Let_def d set_at_def len phys_addr_def card_laws_def
        write_command_eq [OF com] nxt w1 mmio_def d' CMD_EOP_def CMD_IFCS_def CMD_RS_def)
qed

text \<open>Handing one packet over and then the rest.\<close>

text \<open>The slots counted from the next one.\<close>

lemma tx_advance:
  assumes "unat (ec_cur_tx c) < 8" and c1: "c1 = c\<lparr>ec_tx_buffers := bs, ec_cur_tx := tx_index c 1\<rparr>"
  shows "tx_index c1 j = tx_index c (Suc j)" and "tx_index c1 7 = tx_index c 0"
    and "j < 7 \<Longrightarrow> tx_index c (Suc j) \<noteq> ec_cur_tx c" and "j < 7 \<Longrightarrow> unat (tx_index c (Suc j)) \<noteq> unat (ec_cur_tx c)"
proof -
  show shift: "tx_index c1 j = tx_index c (Suc j)" for j by (simp add: word_unat_eq_iff unat_tx_index c1 mod_simps)
  show "tx_index c1 7 = tx_index c 0" unfolding shift by (simp add: word_unat_eq_iff unat_tx_index)
  assume "j < 7"
  then show "tx_index c (Suc j) \<noteq> ec_cur_tx c" "unat (tx_index c (Suc j)) \<noteq> unat (ec_cur_tx c)"
    using tx_index_inject [of "Suc j" 0 c] by (simp_all add: tx_index_0 [OF assms(1)] flip: word_unat_eq_iff)
qed

lemma tx_sent_Cons:
  assumes c: "unat (ec_cur_tx c) < 8" "length (ec_tx_buffers c) = 8" and "length ps < 8"
    and fresh: "ptr \<notin> dom (cm_boxes v)"
    and c1: "c1 = c\<lparr>ec_tx_buffers := (ec_tx_buffers c)[unat (ec_cur_tx c) := ptr], ec_cur_tx := tx_index c 1\<rparr>"
    and v1: "cm_boxes v1 = (cm_boxes v)(ptr \<mapsto> buf_data (eth_into_buffer p))"
      "cm_txd v1 = (cm_txd v)(desc_at (ec_tx_ptr c) (ec_cur_tx c) := tx_entry (tx_at c v 0) (phys ptr) p)"
      "cm_regs v1 (reg_target (ec_com c) REG_TXDESCTAIL) = tx_index c 1"
    and rest: "tx_sent phys ps c1 v1 c' v'"
    and tail: "ps = [] \<Longrightarrow> cm_regs v' (reg_target (ec_com c) REG_TXDESCTAIL) = tx_index c 1"
  shows "tx_sent phys (p # ps) c v c' v'"
proof -
  note shift = tx_advance(1) [OF c(1) c1] and ne = tx_advance(3,4) [OF c(1) c1] and shift7 = tx_advance(2) [OF c(1) c1]
  have sel: "ec_tx_ptr c1 = ec_tx_ptr c" "ec_com c1 = ec_com c" by (simp_all add: c1)
  have at1: "tx_at c1 v1 j = tx_at c v (Suc j)" "tx_at c1 v' j = tx_at c v' (Suc j)" if "j < 7" for j
    using ne(1) [OF that] by (simp_all add: tx_at_def shift v1 sel)
  have at0: "tx_at c1 u 7 = tx_at c u 0" for u using shift7 by (simp add: tx_at_def sel)
  obtain ptrs where ptrs: "length ptrs = length ps"
      "\<And>j. j < length ps \<Longrightarrow> ptrs ! j \<notin> dom (cm_boxes v1) \<and>
         cm_boxes v' (ptrs ! j) = Some (buf_data (eth_into_buffer (ps ! j))) \<and>
         tx_at c1 v' j = tx_entry (tx_at c1 v1 j) (phys (ptrs ! j)) (ps ! j) \<and>
         ec_tx_buffers c' ! unat (tx_index c1 j) = ptrs ! j"
    using rest unfolding tx_sent_def by blast
  have unused: "j < 8 \<Longrightarrow> length ps \<le> j \<Longrightarrow> tx_at c1 v' j = tx_at c1 v1 j \<and>
      ec_tx_buffers c' ! unat (tx_index c1 j) = ec_tx_buffers c1 ! unat (tx_index c1 j)" for j
    using rest unfolding tx_sent_def by blast
  have boxes: "cm_boxes v1 \<subseteq>\<^sub>m cm_boxes v'" using rest by (simp add: tx_sent_def)
  have last: "tx_at c v' 0 = tx_entry (tx_at c v 0) (phys ptr) p" "ec_tx_buffers c' ! unat (tx_index c 0) = ptr"
    using unused [of 7] assms(3) c
    by (simp_all add: at0 shift7) (simp_all add: tx_at_def v1 tx_index_0 [OF c(1)] c1)
  have slots: "\<forall>j<length (p # ps). (ptr # ptrs) ! j \<notin> dom (cm_boxes v) \<and>
      cm_boxes v' ((ptr # ptrs) ! j) = Some (buf_data (eth_into_buffer ((p # ps) ! j))) \<and>
      tx_at c v' j = tx_entry (tx_at c v j) (phys ((ptr # ptrs) ! j)) ((p # ps) ! j) \<and>
      ec_tx_buffers c' ! unat (tx_index c j) = (ptr # ptrs) ! j"
  proof (intro allI impI)
    fix j assume j: "j < length (p # ps)"
    have "cm_boxes v' ptr = Some (buf_data (eth_into_buffer p))"
      using boxes v1(1) by (metis domI fun_upd_same map_le_def)
    then show "(ptr # ptrs) ! j \<notin> dom (cm_boxes v) \<and>
      cm_boxes v' ((ptr # ptrs) ! j) = Some (buf_data (eth_into_buffer ((p # ps) ! j))) \<and>
      tx_at c v' j = tx_entry (tx_at c v j) (phys ((ptr # ptrs) ! j)) ((p # ps) ! j) \<and>
      ec_tx_buffers c' ! unat (tx_index c j) = (ptr # ptrs) ! j"
      using j fresh last ptrs(2) [of "j - 1"] at1 [of "j - 1"] assms(3) v1(1) shift [of "j - 1"]
      by (cases j) auto
  qed
  have others: "tx_at c v' j = tx_at c v j \<and>
      ec_tx_buffers c' ! unat (tx_index c j) = ec_tx_buffers c ! unat (tx_index c j)"
    if "j < 8" "length (p # ps) \<le> j" for j
    using that unused [of "j - 1"] at1 [of "j - 1"] ne(2) [of "j - 1"] shift [of "j - 1"]
    by (cases j) (auto simp: c1)
  have "cm_boxes v \<subseteq>\<^sub>m cm_boxes v1" using fresh by (auto simp: map_le_def v1(1) dom_def)
  then have le: "cm_boxes v \<subseteq>\<^sub>m cm_boxes v'" using boxes map_le_trans by blast
  have keep: "same_card c c' \<and> ec_cur_rx c' = ec_cur_rx c \<and> ec_last_reclaimed_tx c' = ec_last_reclaimed_tx c \<and>
      ec_cur_tx c' = tx_index c (length (p # ps))"
    using rest shift by (auto simp: tx_sent_def same_card_def c1)
  have tail': "cm_regs v' (reg_target (ec_com c) REG_TXDESCTAIL) = tx_index c (length (p # ps))"
    using rest tail shift by (cases ps) (auto simp: tx_sent_def sel)
  show ?thesis
    unfolding tx_sent_def using keep tail' slots others le
    by (intro conjI exI [of _ "ptr # ptrs"]) (simp_all add: ptrs(1))
qed

lemma tx_sent_Nil: "unat (ec_cur_tx c) < 8 \<Longrightarrow> cm_txd v' = cm_txd v \<Longrightarrow> cm_boxes v' = cm_boxes v \<Longrightarrow> tx_sent phys [] c v c v'"
  by (simp add: tx_sent_def tx_at_def tx_index_0)

lemma dequeue_laws:
  assumes "card_laws ops view phys"
  shows "packet_queue_dequeue (co_net ops) r w =
      (case cm_queue (view w) (pqr_queue r) of [] \<Rightarrow> None | p # _ \<Rightarrow> Some p, snd (packet_queue_dequeue (co_net ops) r w))"
    and "view (snd (packet_queue_dequeue (co_net ops) r w)) =
      (view w)\<lparr>cm_queue := (cm_queue (view w))(pqr_queue r := tl (cm_queue (view w) (pqr_queue r)))\<rparr>"
  using assms by (auto simp: card_laws_def packet_queue_dequeue_def prod_eq_iff)

lemma box_laws:
  assumes "card_laws ops view phys"
  shows "0 < cm_room (view w) \<Longrightarrow> fst (box_into_raw ops b w) \<notin> dom (cm_boxes (view w))"
    and "0 < cm_room (view w) \<Longrightarrow> view (snd (box_into_raw ops b w)) =
      (view w)\<lparr>cm_boxes := (cm_boxes (view w))(fst (box_into_raw ops b w) \<mapsto> b), cm_room := cm_room (view w) - 1\<rparr>"
  using assms by (auto simp: card_laws_def)

lemma tx_send_run:
  assumes laws: "card_laws ops view phys" and "card_inv c" and "n \<le> 8" and "n \<le> cm_room (view w)"
  shows "\<exists>c' w'. tx_send ops n c w = Ret (c', w') \<and>
    tx_sent phys (take n (cm_queue (view w) (pqr_queue (ec_packet_queue c)))) c (view w) c' (view w') \<and>
    (\<forall>r. cm_queue (view w') r = (if r = pqr_queue (ec_packet_queue c)
      then drop n (cm_queue (view w) r) else cm_queue (view w) r)) \<and>
    (take n (cm_queue (view w) (pqr_queue (ec_packet_queue c))) = [] \<longrightarrow> cm_regs (view w') = cm_regs (view w))"
  using assms(2-)
proof (induction n arbitrary: c w)
  case 0
  then show ?case by (auto intro!: tx_sent_Nil simp: card_inv_def TX_DESC_def)
next
  case (Suc n)
  let ?q = "pqr_queue (ec_packet_queue c)"
  have c: "unat (ec_cur_tx c) < 8" "length (ec_tx_buffers c) = 8" using Suc.prems by (simp_all add: card_inv_def TX_DESC_def)
  obtain w1 where deq: "packet_queue_dequeue (co_net ops) (ec_packet_queue c) w =
      (case cm_queue (view w) ?q of [] \<Rightarrow> None | p # _ \<Rightarrow> Some p, w1)"
    and v1: "view w1 = (view w)\<lparr>cm_queue := (cm_queue (view w))(?q := tl (cm_queue (view w) ?q))\<rparr>"
    using dequeue_laws [OF laws, of "ec_packet_queue c" w] by metis
  show ?case
  proof (cases "cm_queue (view w) ?q")
    case Nil
    then show ?thesis using c by (auto simp: deq v1 intro!: tx_sent_Nil)
  next
    case (Cons p ps)
    obtain ptr w2 where raw: "box_into_raw ops (buf_data (eth_into_buffer p)) w1 = (ptr, w2)" by fastforce
    have fresh: "ptr \<notin> dom (cm_boxes (view w1))"
      and v2: "view w2 = (view w1)\<lparr>cm_boxes := (cm_boxes (view w1))(ptr \<mapsto> buf_data (eth_into_buffer p)),
        cm_room := cm_room (view w1) - 1\<rparr>"
      using box_laws [OF laws, where b = "buf_data (eth_into_buffer p)" and w = w1] Suc.prems(3) by (simp_all add: raw v1)
    define c1 where "c1 = c\<lparr>ec_tx_buffers := (ec_tx_buffers c)[unat (ec_cur_tx c) := ptr], ec_cur_tx := tx_index c 1\<rparr>"
    obtain w3 where enq: "enqueue_packet ops c ptr (buf_len (eth_into_buffer p)) w2 = Ret (c1, w3)"
      and v3: "view w3 = (view w2)\<lparr>cm_txd := (cm_txd (view w2))(desc_at (ec_tx_ptr c) (ec_cur_tx c) :=
          tx_entry (tx_at c (view w2) 0) (phys ptr) p),
        cm_regs := (cm_regs (view w2))(reg_target (ec_com c) REG_TXDESCTAIL := tx_index c 1)\<rparr>"
      using enqueue_packet_eq [OF laws Suc.prems(1), of ptr "buf_len (eth_into_buffer p)" w2]
      by (auto simp: c1_def tx_entry_def tx_at_def tx_index_0 [OF c(1)])
    have "card_inv c1"
      using enqueue_packet_post [OF Suc.prems(1), of ops ptr "buf_len (eth_into_buffer p)" w2] enq by (simp add: card_post_def)
    have "cm_queue (view w3) = (cm_queue (view w))(?q := ps)" "ec_packet_queue c1 = ec_packet_queue c"
      and room: "n \<le> 8" "n \<le> cm_room (view w3)"
      using Suc.prems(2,3) by (simp_all add: v1 v2 v3 Cons c1_def)
    with Suc.IH [OF \<open>card_inv c1\<close> room] obtain c' w' where run: "tx_send ops n c1 w3 = Ret (c', w')"
      and sent: "tx_sent phys (take n ps) c1 (view w3) c' (view w')"
      and queue: "\<And>r. cm_queue (view w') r = (if r = ?q then drop n ps else cm_queue (view w) r)"
      and regs: "take n ps = [] \<Longrightarrow> cm_regs (view w') = cm_regs (view w3)"
      by auto
    have "tx_sent phys (p # take n ps) c (view w) c' (view w')"
      using Suc.prems(2) fresh sent regs
      by (intro tx_sent_Cons [OF c, where ptr = ptr and ?c1.0 = c1 and ?v1.0 = "view w3"])
        (auto simp: v1 v2 v3 tx_at_def c1_def)
    then show ?thesis by (simp add: deq Cons buffer_into_raw_def raw enq run queue)
  qed
qed

section \<open>Reclaiming\<close>

text \<open>The steps from one index of the ring to another.\<close>

definition ring_dist :: "nat \<Rightarrow> nat \<Rightarrow> nat" where
  "ring_dist i h = (if i \<le> h then h - i else h + 8 - i)"

lemma ring_dist_step: "i < 8 \<Longrightarrow> h < 8 \<Longrightarrow> ring_dist i h = Suc n \<Longrightarrow> ring_dist ((i + 1) mod 8) h = n"
  by (cases "i = 7") (auto simp: ring_dist_def split: if_splits)

lemma reclaim_loop_ends:
  assumes "card_inv c" and "unat i < 8" and "unat head < 8"
  shows "\<exists>c' w'. reclaim_loop ops head i c w = Some (Ret (c', w'))"
  using assms
proof (induction "ring_dist (unat i) (unat head)" arbitrary: i c w)
  case 0
  then have "i = head" by (auto simp: word_unat_eq_iff ring_dist_def split: if_splits)
  then show ?case by (subst reclaim_loop.simps) simp
next
  case (Suc n)
  have i': "unat ((i + 1) mod 8) = (unat i + 1) mod 8"
    using Suc.prems(2) by (simp add: unat_mod_distrib unat_word_ariths)
  have n: "n = ring_dist (unat ((i + 1) mod 8)) (unat head)"
    using ring_dist_step [OF Suc.prems(2,3) Suc.hyps(2) [symmetric]] by (simp only: i')
  have ne: "i \<noteq> head" using Suc.hyps(2) by (auto simp: ring_dist_def)
  show ?case
  proof (cases "reclaim_step ops i c w")
    case (Ret x)
    then have "card_inv (fst x)" using reclaim_step_post [OF Suc.prems(1,2), of ops w] by (auto split: prod.splits)
    from Suc.hyps(1) [OF n this mod_index(1) Suc.prems(3), of "snd x"] show ?thesis
      using ne by (subst reclaim_loop.simps) (simp add: Ret)
  qed (use reclaim_step_post [OF Suc.prems(1,2), of ops w] in simp)
qed

lemma reclaim_loop_stuck:
  "reclaim_loop ops head i c w = Some r \<Longrightarrow> card_inv c \<and> unat i < 8 \<longrightarrow> unat head < 8"
proof (erule reclaim_loop.raw_induct [rotated], rule impI, elim conjE)
  fix loop and ops :: "'a card_ops" and head i c w r
  assume IH: "\<And>ops head i c w r. loop ops head i c w = Some r \<Longrightarrow> card_inv c \<and> unat i < 8 \<longrightarrow> unat head < 8"
    and body: "(if i = head then Some (Ret (c, w))
      else case reclaim_step ops i c w of
        Ret x \<Rightarrow> loop ops head ((i + 1) mod 8) (fst x) (snd x)
      | Panic p \<Rightarrow> Some (Panic p)) = Some r"
    and inv: "card_inv c" and i: "unat i < 8"
  show "unat head < 8"
  proof (cases "i = head")
    case False
    show ?thesis
    proof (cases "reclaim_step ops i c w")
      case (Ret x)
      then have "card_inv (fst x)" using reclaim_step_post [OF inv i, of ops w] by (auto split: prod.splits)
      then show ?thesis using IH [of ops head "(i + 1) mod 8" "fst x" "snd x" r] body False mod_index(1) by (simp add: Ret)
    qed (use reclaim_step_post [OF inv i, of ops w] in simp)
  qed (use i in simp)
qed

section \<open>Whole interrupts\<close>

lemma reg_target_inject [simp]: "reg_target com r = reg_target com r' \<longleftrightarrow> r = r'"
proof
  assume "reg_target com r = reg_target com r'"
  then have "(ucast r :: u64) = ucast r'" by (simp add: reg_target_def)
  then have "unat (ucast r :: u64) = unat (ucast r' :: u64)" by simp
  then show "r = r'" by (simp add: unat_ucast_up word_unat_eq_iff)
qed simp

text \<open>The interrupt cause the card reports.\<close>

definition cause_of :: "e1000_card \<Rightarrow> card_mem \<Rightarrow> interrupt_cause_register" where
  "cause_of c v = ic_from (cm_regs v (reg_target (ec_com c) 0xc0))"

lemma mmio_read_laws:
  assumes "card_laws ops view phys"
  shows "\<exists>x w'. mmio_read ops a w = (cm_regs (view w) a, w') \<and>
    view w' = (view w)\<lparr>cm_regs := (cm_regs (view w))(a := x)\<rparr>"
proof -
  have "fst (mmio_read ops a w) = cm_regs (view w) a"
    "\<exists>x. view (snd (mmio_read ops a w)) = (view w)\<lparr>cm_regs := (cm_regs (view w))(a := x)\<rparr>"
    using assms by (simp_all add: card_laws_def)
  then show ?thesis by (metis prod.collapse)
qed

lemma read_command_laws:
  assumes "card_laws ops view phys" and "com_ok com"
  shows "\<exists>x w'. read_command (mmio ops) com r w = Ret (cm_regs (view w) (reg_target com r), w') \<and>
    view w' = (view w)\<lparr>cm_regs := (cm_regs (view w))(reg_target com r := x)\<rparr>"
  using mmio_read_laws [OF assms(1)] by (simp add: read_command_eq [OF assms(2)] mmio_def)

text \<open>
  The two parts of an interrupt without a written-back descriptor: the receive loop when the cause
  says so, then the send loop when the transmit ring is empty and low.
\<close>

lemma handle_interrupt_rx:
  assumes laws: "card_laws ops view phys" and inv: "card_inv c"
    and cause: "ic_rxt (cause_of c (view w))" "\<not> ic_txdw (cause_of c (view w))" "\<not> ic_txd_low (cause_of c (view w))"
    and k: "k \<le> 32" "\<And>j. j < k \<Longrightarrow> rx_filled c (view w) j" "k < 32 \<Longrightarrow> \<not> rx_filled c (view w) k"
  shows "\<exists>w' regs. e1000_handle_interrupt ops c w = Some (Ret (c\<lparr>ec_cur_rx := rx_index c k\<rparr>, w')) \<and>
    view w' = (rx_done c k (view w))\<lparr>cm_regs := regs\<rparr>"
proof -
  have com: "com_ok (ec_com c)" using inv by (simp add: card_inv_def)
  obtain x w1 where icr: "get_intterupt_cause ops c w = Ret (cause_of c (view w), w1)"
    and v1: "view w1 = (view w)\<lparr>cm_regs := x\<rparr>"
    using mmio_read_laws [OF laws, of "reg_target (ec_com c) 0xc0" w] by (auto simp: get_intterupt_cause_eq [OF com] cause_of_def)
  have same: "rx_filled c (view w1) j = rx_filled c (view w) j" for j
    by (simp add: rx_filled_def rx_at_def v1)
  let ?c = "c\<lparr>ec_cur_rx := rx_index c k\<rparr>"
  obtain w2 where rx: "rx_loop ops c w1 = Some (Ret (?c, w2))" and v2: "view w2 = rx_done c k (view w1)"
    using rx_loop_all [OF laws inv k(1), of w1] k(2,3) by (auto simp: same)
  obtain y w3 where head: "read_command (mmio ops) (ec_com c) REG_TXDESCHEAD w2 = Ret (y, w3)"
    and v3: "\<exists>regs. view w3 = (view w2)\<lparr>cm_regs := regs\<rparr>"
    using read_command_laws [OF laws com] by blast
  obtain z w4 where tail: "read_command (mmio ops) (ec_com c) REG_TXDESCTAIL w3 = Ret (z, w4)"
    and v4: "\<exists>regs. view w4 = (view w3)\<lparr>cm_regs := regs\<rparr>"
    using read_command_laws [OF laws com] by blast
  have msg: "rx_message c (view w1) = rx_message c (view w)"
    by (simp add: fun_eq_iff rx_message_def rx_at_def v1)
  have "(rx_done c k (view w1))\<lparr>cm_regs := r\<rparr> = (rx_done c k (view w))\<lparr>cm_regs := r\<rparr>" for r
    unfolding rx_done_def msg by (simp add: v1 cong: if_cong)
  then have "\<exists>regs. view w4 = (rx_done c k (view w))\<lparr>cm_regs := regs\<rparr>"
    using v2 v3 v4 by auto
  then show ?thesis
    using cause by (simp add: e1000_handle_interrupt_def icr rx head tail)
qed

lemma handle_interrupt_tx:
  assumes laws: "card_laws ops view phys" and inv: "card_inv c"
    and cause: "\<not> ic_rxt (cause_of c (view w))" "\<not> ic_txdw (cause_of c (view w))" "ic_txd_low (cause_of c (view w))"
    and idle: "cm_regs (view w) (reg_target (ec_com c) REG_TXDESCHEAD) = cm_regs (view w) (reg_target (ec_com c) REG_TXDESCTAIL)"
    and room: "8 \<le> cm_room (view w)"
  shows "\<exists>c' w'. e1000_handle_interrupt ops c w = Some (Ret (c', w')) \<and>
    tx_sent phys (take 8 (cm_queue (view w) (pqr_queue (ec_packet_queue c)))) c (view w) c' (view w') \<and>
    cm_queue (view w') (pqr_queue (ec_packet_queue c)) = drop 8 (cm_queue (view w) (pqr_queue (ec_packet_queue c)))"
proof -
  have com: "com_ok (ec_com c)" using inv by (simp add: card_inv_def)
  obtain x w1 where icr: "get_intterupt_cause ops c w = Ret (cause_of c (view w), w1)"
    and v1: "view w1 = (view w)\<lparr>cm_regs := (cm_regs (view w))(reg_target (ec_com c) 0xc0 := x)\<rparr>"
    using mmio_read_laws [OF laws, of "reg_target (ec_com c) 0xc0" w] by (auto simp: get_intterupt_cause_eq [OF com] cause_of_def)
  obtain y w2 where head: "read_command (mmio ops) (ec_com c) REG_TXDESCHEAD w1 =
      Ret (cm_regs (view w1) (reg_target (ec_com c) REG_TXDESCHEAD), w2)"
    and v2: "view w2 = (view w1)\<lparr>cm_regs := (cm_regs (view w1))(reg_target (ec_com c) REG_TXDESCHEAD := y)\<rparr>"
    using read_command_laws [OF laws com] by blast
  obtain z w3 where tail: "read_command (mmio ops) (ec_com c) REG_TXDESCTAIL w2 =
      Ret (cm_regs (view w2) (reg_target (ec_com c) REG_TXDESCTAIL), w3)"
    and v3: "view w3 = (view w2)\<lparr>cm_regs := (cm_regs (view w2))(reg_target (ec_com c) REG_TXDESCTAIL := z)\<rparr>"
    using read_command_laws [OF laws com] by blast
  have eq: "cm_regs (view w1) (reg_target (ec_com c) REG_TXDESCHEAD) = cm_regs (view w2) (reg_target (ec_com c) REG_TXDESCTAIL)"
    using idle by (simp add: v1 v2 REG_TXDESCHEAD_def REG_TXDESCTAIL_def)
  have same: "cm_queue (view w3) = cm_queue (view w)" "cm_room (view w3) = cm_room (view w)"
    "tx_sent phys ps c (view w3) c' v' = tx_sent phys ps c (view w) c' v'" for ps c' v'
    by (simp_all add: v1 v2 v3 tx_sent_def tx_at_def)
  obtain c' w' where run: "tx_send ops TX_DESC c w3 = Ret (c', w')"
    and sent: "tx_sent phys (take 8 (cm_queue (view w) (pqr_queue (ec_packet_queue c)))) c (view w) c' (view w')"
    and queue: "cm_queue (view w') (pqr_queue (ec_packet_queue c)) = drop 8 (cm_queue (view w) (pqr_queue (ec_packet_queue c)))"
    using tx_send_run [OF laws inv, of 8 w3] room by (auto simp: same TX_DESC_def)
  have "e1000_handle_interrupt ops c w = Some (Ret (c', w'))"
    using cause by (simp add: e1000_handle_interrupt_def icr head eq tail run)
  then show ?thesis using sent queue by blast
qed

section \<open>Initialisation\<close>

lemma rx_fill_length:
  "rx_fill ops is ds bs w = Ret (ds', bs', w') \<Longrightarrow> length ds' = length ds \<and> length bs' = length bs"
proof (induction "is" arbitrary: ds bs w)
  case (Cons i js)
  obtain ptr w1 where box: "box_into_raw ops (replicate (2048 + 16) 0) w = (ptr, w1)" by fastforce
  show ?case
  proof (cases "phys_addr ops ptr w1")
    case (Ret phys)
    have "rx_fill ops js (ds[i := (ds ! i)\<lparr>rd_addr := phys, rd_status := 0\<rparr>])
        (if i < length bs then bs[i := ptr] else bs) w1 = Ret (ds', bs', w')"
      using Cons.prems unfolding rx_fill.simps box prod.case Ret xbind.simps Let_def .
    from Cons.IH [OF this] show ?thesis by simp
  next
    case (Panic p)
    show ?thesis using Cons.prems unfolding rx_fill.simps box prod.case Panic xbind.simps by simp
  qed
qed simp

lemma init_rx_length:
  assumes "init_rx ops com w = Ret (p, bs, w')"
  shows "length bs = RX_DESC"
proof -
  obtain ds w1 where "rx_fill ops [0 ..< RX_DESC + 1] (replicate (RX_DESC + 1) rx_desc_default) (replicate RX_DESC 0) w =
      Ret (ds, bs, w1)"
    using assms unfolding init_rx_def by (auto simp: xbind_Ret_iff simp del: write_commands.simps rx_fill.simps)
  then show ?thesis using rx_fill_length by fastforce
qed

lemma e1000_init_inv:
  assumes init: "e1000_init ops cid bar offset q w = Ret (c, notify, w')" and com: "com_ok (coms_new bar offset)"
  shows "card_inv c" and "ec_id c = cid" and "ec_packet_queue c = q" and "ec_com c = coms_new bar offset"
    and "notify = send_notify ops (coms_new bar offset)"
proof -
  obtain eeprom rx bs tx w1 w2 where rx: "init_rx ops (coms_new bar offset) w1 = Ret (rx, bs, w2)"
    and c: "c = \<lparr>ec_id = cid, ec_com = coms_new bar offset, ec_has_eeprom = eeprom, ec_rx_ptr = rx, ec_tx_ptr = tx,
      ec_cur_tx = 0, ec_cur_rx = 0, ec_last_reclaimed_tx = 0, ec_rx_buffers = bs,
      ec_tx_buffers = replicate TX_DESC 0, ec_packet_queue = q\<rparr>"
    and "notify = send_notify ops (coms_new bar offset)"
    using init unfolding e1000_init_def Let_def by (auto simp: xbind_Ret_iff)
  then show "card_inv c" "ec_id c = cid" "ec_packet_queue c = q" "ec_com c = coms_new bar offset"
    "notify = send_notify ops (coms_new bar offset)"
    using com init_rx_length [OF rx] by (simp_all add: card_inv_def RX_DESC_def TX_DESC_def)
qed

text \<open>The notify closure raises the interrupt cause bit the send loop looks for.\<close>

lemma send_notify_eq:
  assumes "com_ok com"
  shows "send_notify ops com w = Ret (mmio_write ops (reg_target com 0xc8) 0x8000 w)"
proof -
  have "ic_into (ic_set_asserted False (ic_set_txd_low True ic_default)) = 0x8000"
    by (simp add: ic_into_def ic_set_asserted_def ic_set_txd_low_def ic_default_def put_flag_def Let_def)
  then show ?thesis by (simp add: send_notify_def write_command_eq [OF assms] mmio_def)
qed

section \<open>A concrete card\<close>

text \<open>Memory that does what the driver expects, with the boxes in a list indexed by their address.\<close>

record card_world =
  cw_mem :: card_mem
  cw_boxes :: "bytes option list"

definition box_map :: "bytes option list \<Rightarrow> u64 \<rightharpoonup> bytes" where
  "box_map bs p = (if unat p < length bs then bs ! unat p else None)"

definition cw_view :: "card_world \<Rightarrow> card_mem" where
  "cw_view w = (cw_mem w)
     \<lparr>cm_boxes := box_map (cw_boxes w),
      cm_room := 2 ^ 64 - length (cw_boxes w)\<rparr>"

definition on_mem :: "(card_mem \<Rightarrow> card_mem) \<Rightarrow> card_world \<Rightarrow> card_world" where
  "on_mem f w = w\<lparr>cw_mem := f (cw_mem w)\<rparr>"

definition mem_net_ops :: "card_world net_ops" where
  "mem_net_ops =
     \<lparr>op_queue_new = (\<lambda>w. (0, w)),
      op_enqueue = (\<lambda>q p w. (Some (), on_mem (\<lambda>m. m\<lparr>cm_queue := (cm_queue m)(q := cm_queue m q @ [p])\<rparr>) w)),
      op_try_dequeue = (\<lambda>q w. (case cm_queue (cw_mem w) q of [] \<Rightarrow> None | p # _ \<Rightarrow> Some p,
        on_mem (\<lambda>m. m\<lparr>cm_queue := (cm_queue m)(q := tl (cm_queue m q))\<rparr>) w)),
      op_msg_enqueue = (\<lambda>msg w. (Some (), on_mem (\<lambda>m. m\<lparr>cm_msgs := cm_msgs m @ [msg]\<rparr>) w)),
      op_arp_new = (\<lambda>w. (0, w)),
      op_arp_try_enqueue = (\<lambda>q m w. (Some (), w)),
      op_udp_try_enqueue = (\<lambda>q p w. (Some (), w)),
      op_wake = (\<lambda>k w. w)\<rparr>"

definition mem_ops :: "card_world card_ops" where
  "mem_ops =
     \<lparr>mmio_write = (\<lambda>a v. on_mem (\<lambda>m. m\<lparr>cm_regs := (cm_regs m)(a := v)\<rparr>)),
      mmio_read = (\<lambda>a w. (cm_regs (cw_mem w) a, w)),
      co_net = mem_net_ops,
      rx_desc_read = (\<lambda>a w. (cm_rxd (cw_mem w) a, w)),
      rx_desc_write = (\<lambda>a d. on_mem (\<lambda>m. m\<lparr>cm_rxd := (cm_rxd m)(a := d)\<rparr>)),
      tx_desc_read = (\<lambda>a w. (cm_txd (cw_mem w) a, w)),
      tx_desc_write = (\<lambda>a d. on_mem (\<lambda>m. m\<lparr>cm_txd := (cm_txd m)(a := d)\<rparr>)),
      mem_slice = (\<lambda>a n w. cm_slice (cw_mem w) a n),
      box_into_raw = (\<lambda>b w. (of_nat (length (cw_boxes w)), w\<lparr>cw_boxes := cw_boxes w @ [Some b]\<rparr>)),
      box_drop = (\<lambda>p w. w\<lparr>cw_boxes := (cw_boxes w)[unat p := None]\<rparr>),
      heap_alloc = (\<lambda>n al w. (0, w)),
      mapping_ready = (\<lambda>w. True),
      translate_addr = (\<lambda>a w. Some a)\<rparr>"

lemma box_map_drop: "box_map (bs[unat p := None]) = (box_map bs)(p := None)"
  by (rule ext) (auto simp: box_map_def nth_list_update simp flip: word_unat_eq_iff)

lemma box_map_append:
  assumes "length bs < 2 ^ 64"
  shows "of_nat (length bs) \<notin> dom (box_map bs)" and "box_map (bs @ [Some b]) = (box_map bs)(of_nat (length bs) \<mapsto> b)"
proof -
  have u: "unat (of_nat (length bs) :: u64) = length bs" using assms by (simp add: unat_of_nat)
  then have p: "unat p = length bs \<longleftrightarrow> p = of_nat (length bs)" for p :: u64
    by (metis word_unat_eq_iff)
  show "of_nat (length bs) \<notin> dom (box_map bs)" by (simp add: box_map_def dom_def u)
  show "box_map (bs @ [Some b]) = (box_map bs)(of_nat (length bs) \<mapsto> b)"
    by (rule ext) (auto simp: box_map_def nth_append less_Suc_eq p u)
qed

lemma mem_ops_laws: "card_laws mem_ops cw_view (\<lambda>a. a)"
proof -
  have read: "\<exists>v. cw_view w = (cw_view w)\<lparr>cm_regs := (cm_regs (cw_mem w))(a := v)\<rparr>" for a w
    by (rule exI [of _ "cm_regs (cw_mem w) a"]) (simp add: cw_view_def)
  have room: "length (cw_boxes w) < 2 ^ 64" if "0 < cm_room (cw_view w)" for w
    using that by (simp add: cw_view_def)
  show ?thesis
    unfolding card_laws_def
  proof (intro conjI allI impI)
    fix b w
    assume "0 < cm_room (cw_view w)"
    note app = box_map_append [OF room [OF this]]
    show "fst (box_into_raw mem_ops b w) \<notin> dom (cm_boxes (cw_view w))"
      using app(1) by (simp add: mem_ops_def cw_view_def)
    show "cw_view (snd (box_into_raw mem_ops b w)) = (cw_view w)
      \<lparr>cm_boxes := (cm_boxes (cw_view w))(fst (box_into_raw mem_ops b w) \<mapsto> b), cm_room := cm_room (cw_view w) - 1\<rparr>"
      using app(2) by (simp add: mem_ops_def cw_view_def)
  qed (use read in \<open>simp_all add: mem_ops_def mem_net_ops_def cw_view_def on_mem_def box_map_drop\<close>)
qed

end
