(* ===== verification/E1000_Properties.thy ===== *)
theory E1000_Properties
  imports E1000_Rings
begin

text \<open>The properties of the network card driver, each with the concrete card it holds on.\<close>

definition sample_card :: e1000_card where
  "sample_card =
     \<lparr>ec_id = 3, ec_com = coms_new (MemorySpace 0xFEBC0000 False 0) 0x18000000000, ec_has_eeprom = True,
      ec_rx_ptr = 0x1000, ec_tx_ptr = 0x2000, ec_cur_tx = 0, ec_cur_rx = 31, ec_last_reclaimed_tx = 0,
      ec_rx_buffers = replicate 32 0x9000, ec_tx_buffers = replicate 8 0, ec_packet_queue = \<lparr>pqr_queue = 0\<rparr>\<rparr>"

text \<open>The last descriptor of the ring is filled, one packet waits, and the cause register reads \<open>icr\<close>.\<close>

definition sample_mem :: "u32 \<Rightarrow> eth_packet list \<Rightarrow> card_mem" where
  "sample_mem icr ps =
     \<lparr>cm_rxd = (\<lambda>a. rx_desc_default\<lparr>rd_length := 60, rd_status := (if a = desc_at 0x1000 31 then 1 else 0)\<rparr>),
      cm_txd = (\<lambda>a. tx_desc_default\<lparr>td_status := 1\<rparr>), cm_slice = (\<lambda>a n. replicate n 0xFF),
      cm_regs = (\<lambda>a. if a = reg_target (ec_com sample_card) 0xc0 then icr else 0),
      cm_boxes = Map.empty, cm_room = 0, cm_msgs = [], cm_queue = (\<lambda>q. ps)\<rparr>"

definition sample_card_world :: "u32 \<Rightarrow> eth_packet list \<Rightarrow> card_world" where
  "sample_card_world icr ps = \<lparr>cw_mem = sample_mem icr ps, cw_boxes = []\<rparr>"

lemma sample_card_inv: "card_inv sample_card"
  by (simp add: card_inv_def sample_card_def TX_DESC_def RX_DESC_def com_ok_def coms_new_def)

lemma sample_view: "cw_view (sample_card_world icr ps) = (sample_mem icr ps)\<lparr>cm_boxes := box_map [], cm_room := 2 ^ 64\<rparr>"
  by (simp add: cw_view_def sample_card_world_def)

lemma sample_cause: "cause_of sample_card (cw_view (sample_card_world icr ps)) = ic_from icr"
  by (simp add: cause_of_def sample_view sample_mem_def)

lemma sample_view_sel:
  "cm_msgs (cw_view (sample_card_world icr ps)) = []" "cm_queue (cw_view (sample_card_world icr ps)) q = ps"
  "cm_room (cw_view (sample_card_world icr ps)) = 2 ^ 64"
  "cm_regs (cw_view (sample_card_world icr ps)) (reg_target (ec_com sample_card) REG_TXDESCHEAD) = 0"
  "cm_regs (cw_view (sample_card_world icr ps)) (reg_target (ec_com sample_card) REG_TXDESCTAIL) = 0"
  by (simp_all add: sample_view sample_mem_def REG_TXDESCHEAD_def REG_TXDESCTAIL_def)

lemma sample_filled:
  assumes "v = cw_view (sample_card_world icr ps)"
  shows "rx_filled sample_card v j \<longleftrightarrow> rx_index sample_card j = 31"
  by (simp add: assms rx_filled_def rx_at_def sample_view sample_mem_def sample_card_def)

lemma sample_index: "rx_index sample_card 0 = 31" "rx_index sample_card (Suc 0) = 0"
  by (simp_all add: rx_index_def sample_card_def)

lemma sample_receives_run:
  "\<exists>w'. e1000_handle_interrupt mem_ops sample_card (sample_card_world 0x80 []) = Some (Ret (sample_card\<lparr>ec_cur_rx := 0\<rparr>, w'))"
  using handle_interrupt_rx [OF mem_ops_laws sample_card_inv, of "sample_card_world 0x80 []" 1]
  by (auto simp: sample_cause ic_from_def sample_filled [OF refl] sample_index)

section \<open>Reading the EEPROM\<close>

text \<open>
  The read port of the EEPROM as the card documents it: \<open>st w\<close> is the word being read and how many
  more times the port is polled before it is there; the done bit then comes with the word in the upper
  half.
\<close>

definition eeprom_laws :: "'w card_ops \<Rightarrow> coms \<Rightarrow> (u8 \<Rightarrow> u16) \<Rightarrow> ('w \<Rightarrow> u8 \<times> nat) \<Rightarrow> bool" where
  "eeprom_laws ops com rom st \<longleftrightarrow>
     (\<forall>addr w. fst (st (mmio_write ops (reg_target com 0x0014) (1 OR push_bit 8 (ucast addr)) w)) = addr) \<and>
     (\<forall>w addr. st w = (addr, 0) \<longrightarrow>
        bit (fst (mmio_read ops (reg_target com 0x0014) w)) 4 \<and>
        drop_bit 16 (fst (mmio_read ops (reg_target com 0x0014) w)) = ucast (rom addr)) \<and>
     (\<forall>w addr n. st w = (addr, Suc n) \<longrightarrow>
        \<not> bit (fst (mmio_read ops (reg_target com 0x0014) w)) 4 \<and>
        st (snd (mmio_read ops (reg_target com 0x0014) w)) = (addr, n))"

lemma done_bit: "(0 < v AND 16) = bit v 4" for v :: u32
  by (simp add: bit_iff_and_push_bit_not_eq_0 word_gt_0)

lemma eeprom_wait_ends:
  assumes laws: "eeprom_laws ops com rom st" and com: "com_ok com" and "st w = (addr, n)"
  shows "\<exists>v w'. eeprom_wait (mmio ops) com w = Some (Ret (v, w')) \<and> drop_bit 16 v = ucast (rom addr)"
  using assms(3)
proof (induction n arbitrary: w)
  case 0
  obtain v w' where r: "mmio_read ops (reg_target com 0x0014) w = (v, w')" by fastforce
  then have "bit v 4 \<and> drop_bit 16 v = ucast (rom addr)"
    using laws 0 unfolding eeprom_laws_def by (metis fst_conv)
  then show ?case
    using r by (subst eeprom_wait.simps) (simp add: read_command_eq [OF com] mmio_def done_bit)
next
  case (Suc n)
  obtain v w' where r: "mmio_read ops (reg_target com 0x0014) w = (v, w')" by fastforce
  then have "\<not> bit v 4" "st w' = (addr, n)"
    using laws Suc.prems unfolding eeprom_laws_def by (metis fst_conv, metis snd_conv)
  with Suc.IH [of w'] show ?case
    using r by (subst eeprom_wait.simps) (simp add: read_command_eq [OF com] mmio_def done_bit)
qed

lemma read_eeprom_word:
  assumes laws: "eeprom_laws ops (ec_com c) rom st" and com: "com_ok (ec_com c)" and "ec_has_eeprom c"
  shows "\<exists>w'. read_eeprom ops c addr w = Some (Ret (rom addr, w'))"
proof -
  let ?w = "mmio_write ops (reg_target (ec_com c) 0x0014) (1 OR push_bit 8 (ucast addr)) w"
  have "st ?w = (addr, snd (st ?w))" using laws unfolding eeprom_laws_def by (metis prod.collapse)
  then obtain v w' where "eeprom_wait (mmio ops) (ec_com c) ?w = Some (Ret (v, w'))" "drop_bit 16 v = ucast (rom addr)"
    using eeprom_wait_ends [OF laws com] by blast
  moreover have "ucast ((ucast (rom addr) :: u32) AND 0xFFFF) = rom addr"
    by (rule bit_word_eqI) (auto simp: masked_dword bit_simps)
  ultimately show ?thesis
    using assms(3) by (simp add: read_eeprom_def write_command_eq [OF com] mmio_def)
qed

text \<open>A read port that answers at the third poll.\<close>

record eeprom_world =
  ew_addr :: u8
  ew_left :: nat

definition slow_eeprom :: "(u8 \<Rightarrow> u16) \<Rightarrow> eeprom_world card_ops \<Rightarrow> eeprom_world card_ops" where
  "slow_eeprom rom ops = ops
     \<lparr>mmio_write := (\<lambda>a v w. \<lparr>ew_addr = ucast (drop_bit 8 v), ew_left = 2\<rparr>),
      mmio_read := (\<lambda>a w. if ew_left w = 0 then (push_bit 16 (ucast (rom (ew_addr w))) OR 0x10, w)
        else (0, w\<lparr>ew_left := ew_left w - 1\<rparr>))\<rparr>"

lemma slow_eeprom_laws: "eeprom_laws (slow_eeprom rom ops) com rom (\<lambda>w. (ew_addr w, ew_left w))"
proof -
  have "ucast (drop_bit 8 (1 OR push_bit 8 (ucast addr :: u32))) = addr" for addr :: u8
    by (rule bit_word_eqI) (auto simp: bit_simps)
  moreover have "bit (push_bit 16 (ucast x :: u32) OR 0x10) 4 \<and> drop_bit 16 (push_bit 16 (ucast x :: u32) OR 0x10) = ucast x"
    for x :: u16
    using bit_imp_le_length [of x] by (auto intro!: bit_word_eqI simp: bit_simps)
  ultimately show ?thesis by (simp add: eeprom_laws_def slow_eeprom_def)
qed

section \<open>Properties\<close>







text \<open>
  C27: an interrupt for a low transmit ring hands the first eight waiting packets to the card, in order, each
  with its bytes in a box of its own, when the ring is empty. With eight packets or more waiting the tail
  register is written back to the index it had, the value that means an empty ring.
\<close>

theorem interrupt_sends:
  assumes "card_laws ops view phys" and "card_inv c"
    and "\<not> ic_rxt (cause_of c (view w))" "\<not> ic_txdw (cause_of c (view w))" "ic_txd_low (cause_of c (view w))"
    and "cm_regs (view w) (reg_target (ec_com c) REG_TXDESCHEAD) = cm_regs (view w) (reg_target (ec_com c) REG_TXDESCTAIL)"
    and "8 \<le> cm_room (view w)" and "ps = cm_queue (view w) (pqr_queue (ec_packet_queue c))"
  shows "\<exists>c' w'. e1000_handle_interrupt ops c w = Some (Ret (c', w')) \<and>
    tx_sent phys (take 8 ps) c (view w) c' (view w') \<and>
    cm_queue (view w') (pqr_queue (ec_packet_queue c)) = drop 8 ps \<and>
    (8 \<le> length ps \<longrightarrow> cm_regs (view w') (reg_target (ec_com c) REG_TXDESCTAIL) = ec_cur_tx c)"
proof -
  obtain c' w' where *: "e1000_handle_interrupt ops c w = Some (Ret (c', w'))"
      "tx_sent phys (take 8 ps) c (view w) c' (view w')"
      "cm_queue (view w') (pqr_queue (ec_packet_queue c)) = drop 8 ps"
    using handle_interrupt_tx [OF assms(1-7)] assms(8) by auto
  have "unat (ec_cur_tx c) < 8" using assms(2) by (simp add: card_inv_def TX_DESC_def)
  then have "tx_index c 8 = ec_cur_tx c" by (simp add: word_unat_eq_iff unat_tx_index)
  moreover have "8 \<le> length ps \<Longrightarrow> take 8 ps \<noteq> [] \<and> length (take 8 ps) = 8" by auto
  ultimately have "8 \<le> length ps \<longrightarrow> cm_regs (view w') (reg_target (ec_com c) REG_TXDESCTAIL) = ec_cur_tx c"
    using *(2) unfolding tx_sent_def by metis
  with * show ?thesis by blast
qed

theorem interrupt_sends_witness:
  "\<exists>c' w'. e1000_handle_interrupt mem_ops sample_card (sample_card_world 0x8000 (replicate 9 (eth_packet_new (buffer_new [])))) =
      Some (Ret (c', w')) \<and> cm_queue (cw_view w') 0 = [eth_packet_new (buffer_new [])]"
proof -
  have q: "pqr_queue (ec_packet_queue sample_card) = 0" by (simp add: sample_card_def)
  show ?thesis
    using interrupt_sends [OF mem_ops_laws sample_card_inv _ _ _ _ _ refl,
        of "sample_card_world 0x8000 (replicate 9 (eth_packet_new (buffer_new [])))"]
    by (simp add: sample_cause ic_from_def sample_view_sel q) blast
qed

text \<open>
  C29: with an EEPROM that answers each read after some polls, however many, reading the hardware address
  ends and gives the first three words of the EEPROM, low byte first; without one it panics.
\<close>

theorem mac_address_read:
  assumes "eeprom_laws ops (ec_com c) rom st" and "com_ok (ec_com c)"
  shows "(ec_has_eeprom c \<longrightarrow> (\<exists>w'. read_mac_address ops c w = Some (Ret
      (Mac (ucast (rom 0)) (ucast (drop_bit 8 (rom 0))) (ucast (rom 1)) (ucast (drop_bit 8 (rom 1)))
        (ucast (rom 2)) (ucast (drop_bit 8 (rom 2))), w')))) \<and>
    (\<not> ec_has_eeprom c \<longrightarrow> read_mac_address ops c w = Some (Panic NotImplemented))"
proof -
  have low: "(ucast (x AND 0xff) :: u8) = ucast x" for x :: u16
  proof -
    have "x AND 0xff = take_bit 8 x" by (simp add: take_bit_eq_mask mask_eq_exp_minus_1)
    then show ?thesis by (auto intro: bit_word_eqI simp: bit_simps)
  qed
  show ?thesis
  proof (cases "ec_has_eeprom c")
    case True
    obtain w1 where "read_eeprom ops c 0 w = Some (Ret (rom 0, w1))"
      using read_eeprom_word [OF assms True] by blast
    moreover obtain w2 where "read_eeprom ops c 1 w1 = Some (Ret (rom 1, w2))"
      using read_eeprom_word [OF assms True] by blast
    moreover obtain w3 where "read_eeprom ops c 2 w2 = Some (Ret (rom 2, w3))"
      using read_eeprom_word [OF assms True] by blast
    ultimately show ?thesis using True by (simp add: read_mac_address_def low)
  qed (simp add: read_mac_address_def)
qed

theorem mac_address_read_witness:
  "\<forall>ops w. \<exists>w'. read_mac_address (slow_eeprom (\<lambda>a. if a = 0 then 0x5452 else if a = 1 then 0x1200 else 0x5634) ops)
     sample_card w = Some (Ret (Mac 0x52 0x54 0x00 0x12 0x34 0x56, w'))"
proof (intro allI)
  fix ops :: "eeprom_world card_ops" and w
  have reduce: "(0x5452 :: u8) = 0x52" "(0x1200 :: u8) = 0" "(0x5634 :: u8) = 0x34" by simp_all
  have "com_ok (ec_com sample_card)" "ec_has_eeprom sample_card"
    using sample_card_inv by (simp_all add: card_inv_def sample_card_def)
  from mac_address_read [OF slow_eeprom_laws [of "\<lambda>a. if a = 0 then 0x5452 else if a = 1 then 0x1200 else 0x5634" ops]
      this(1), of w] this(2)
  show "\<exists>w'. read_mac_address (slow_eeprom (\<lambda>a. if a = 0 then 0x5452 else if a = 1 then 0x1200 else 0x5634) ops)
     sample_card w = Some (Ret (Mac 0x52 0x54 0x00 0x12 0x34 0x56, w'))"
    by (simp add: reduce)
qed

end
