(* ===== verification/Gdt.thy ===== *)
theory Gdt
  imports Rust_Prelude
begin

text \<open>
  \<^verbatim>\<open>gdt.rs\<close>: the task state segment with the stack for double faults, the table of segments, and the order in which they
  are made known to the processor. The tables come from the crate \<^verbatim>\<open>x86_64\<close> and are the operations \<open>gdt_ops\<close>: a
  segment table is the list of its entries, a task state segment the list of its interrupt stacks.
\<close>

section \<open>State\<close>

definition DOUBLE_FAULT_IST_INDEX :: u16 where
  "DOUBLE_FAULT_IST_INDEX = 0"

definition STACK_SIZE :: nat where
  "STACK_SIZE = 4096 * 5"

datatype segment_descriptor = Kernel_Code_Segment | Kernel_Data_Segment | Tss_Segment "u64 list"

record 'w gdt_ops =
  gdt_stack :: u64
  virt_add_usize :: "u64 \<Rightarrow> nat \<Rightarrow> u64 exec"
  tss_new :: "u64 list"
  gdt_new :: "u64 list"
  gdt_add_entry :: "segment_descriptor \<Rightarrow> u64 list \<Rightarrow> (u16 \<times> u64 list) exec"
  gdt_load :: "u64 list \<Rightarrow> 'w \<Rightarrow> 'w"
  set_cs :: "u16 \<Rightarrow> 'w \<Rightarrow> 'w"
  load_tss :: "u16 \<Rightarrow> 'w \<Rightarrow> 'w"

record selectors =
  sel_code_selector :: u16
  sel_tss_selector :: u16

section \<open>The tables\<close>

definition TSS :: "('w, 'x) gdt_ops_scheme \<Rightarrow> u64 list exec" where
  "TSS ops =
     (let tss = tss_new ops; stack_start = gdt_stack ops in
      xbind (virt_add_usize ops stack_start STACK_SIZE) (\<lambda>stack_end.
      xbind (index_at tss (unat DOUBLE_FAULT_IST_INDEX)) (\<lambda>_.
      Ret (tss[unat DOUBLE_FAULT_IST_INDEX := stack_end]))))"

definition GDT :: "('w, 'x) gdt_ops_scheme \<Rightarrow> (u64 list \<times> selectors) exec" where
  "GDT ops =
     (let gdt = gdt_new ops in
      xbind (gdt_add_entry ops Kernel_Code_Segment gdt) (\<lambda>(code_selector, gdt).
      xbind (gdt_add_entry ops Kernel_Data_Segment gdt) (\<lambda>(_, gdt).
      xbind (TSS ops) (\<lambda>tss.
      xbind (gdt_add_entry ops (Tss_Segment tss) gdt) (\<lambda>(tss_selector, gdt).
      Ret (gdt, \<lparr>sel_code_selector = code_selector, sel_tss_selector = tss_selector\<rparr>))))))"

definition gdt_init :: "('w, 'x) gdt_ops_scheme \<Rightarrow> 'w \<Rightarrow> 'w exec" where
  "gdt_init ops w =
     xbind (GDT ops) (\<lambda>(gdt, selectors).
     let w = gdt_load ops gdt w;
         w = set_cs ops (sel_code_selector selectors) w
     in Ret (load_tss ops (sel_tss_selector selectors) w))"

section \<open>What the tables are\<close>

text \<open>
  A new table has the null entry only and room for eight; a code or data segment takes one entry, a task
  state segment two, and the selector of a segment is eight times its index.
\<close>

definition entry_words :: "segment_descriptor \<Rightarrow> nat" where
  "entry_words d = (case d of Tss_Segment _ \<Rightarrow> 2 | _ \<Rightarrow> 1)"

definition gdt_laws :: "('w, 'x) gdt_ops_scheme \<Rightarrow> (segment_descriptor \<Rightarrow> u64 list) \<Rightarrow> bool" where
  "gdt_laws ops enc \<longleftrightarrow>
     length (tss_new ops) = 7 \<and> gdt_new ops = [0] \<and>
     virt_add_usize ops (gdt_stack ops) STACK_SIZE = Ret (gdt_stack ops + of_nat STACK_SIZE) \<and>
     (\<forall>d. length (enc d) = entry_words d) \<and>
     (\<forall>d t. length t + entry_words d \<le> 8 \<longrightarrow> gdt_add_entry ops d t = Ret (of_nat (8 * length t), t @ enc d))"

lemma TSS_stack:
  assumes "gdt_laws ops enc"
  shows "TSS ops = Ret ((tss_new ops)[0 := gdt_stack ops + of_nat STACK_SIZE])"
  using assms by (auto simp: TSS_def gdt_laws_def DOUBLE_FAULT_IST_INDEX_def index_at_def Let_def)

text \<open>
  The processor is given a table with the null entry, code, data and the task state segment, in this order, then the
  selector of the code segment, then that of the task state segment, whose stack for the index the
  double fault handler is installed with ends where the reserved one ends.
\<close>

lemma gdt_init_run:
  assumes "gdt_laws ops enc"
  shows "gdt_init ops w = Ret (load_tss ops 24 (set_cs ops 8 (gdt_load ops
    ([0] @ enc Kernel_Code_Segment @ enc Kernel_Data_Segment @
      enc (Tss_Segment ((tss_new ops)[unat DOUBLE_FAULT_IST_INDEX := gdt_stack ops + of_nat STACK_SIZE]))) w)))"
proof -
  have add: "gdt_add_entry ops d t = Ret (of_nat (8 * length t), t @ enc d)" if "length t + entry_words d \<le> 8" for d t
    using assms that by (simp add: gdt_laws_def)
  have len: "length (enc Kernel_Code_Segment) = 1" "length (enc Kernel_Data_Segment) = 1" "gdt_new ops = [0]"
    using assms by (simp_all add: gdt_laws_def entry_words_def)
  show ?thesis
    by (simp add: gdt_init_def GDT_def TSS_stack [OF assms] add len entry_words_def DOUBLE_FAULT_IST_INDEX_def Let_def)
qed

section \<open>A plain table\<close>

definition plain_words :: "segment_descriptor \<Rightarrow> u64 list" where
  "plain_words d = (case d of Kernel_Code_Segment \<Rightarrow> [1] | Kernel_Data_Segment \<Rightarrow> [2] | Tss_Segment t \<Rightarrow> [3, t ! 0])"

definition plain_add_entry :: "segment_descriptor \<Rightarrow> u64 list \<Rightarrow> (u16 \<times> u64 list) exec" where
  "plain_add_entry d t = (if length t + entry_words d \<le> 8 then Ret (of_nat (8 * length t), t @ plain_words d) else Panic ExplicitPanic)"

lemma plain_words_length: "length (plain_words d) = entry_words d"
  by (simp add: plain_words_def entry_words_def split: segment_descriptor.splits)

end
