(* ===== verification/Interrupts.thy ===== *)
theory Interrupts
  imports Gdt
begin

text \<open>
  \<^verbatim>\<open>interrupts.rs\<close> with \<^verbatim>\<open>keyboard.rs\<close>, \<^verbatim>\<open>timer.rs\<close>, \<^verbatim>\<open>done_guard.rs\<close>, and \<^verbatim>\<open>init\<close> of \<^verbatim>\<open>lib.rs\<close>: the
  descriptor table that is replaced when a driver installs a handler, the masks of the two interrupt
  controllers, the handlers of timer and keyboard and the order of the initialisation.

  The table type, the controllers, the timer and the ports come from the crates \<^verbatim>\<open>x86_64\<close>, \<^verbatim>\<open>pic8259\<close> and
  \<^verbatim>\<open>rucoon\<close>: they are the operations \<open>idt_ops\<close> on tables \<open>'t\<close> and a world \<open>'w\<close>. Boxed tables are kept in an
  explicit heap, so that a freed table is visible as such; \<open>'h\<close> are the handlers drivers bring.
\<close>

section \<open>State\<close>

definition PIC_1_OFFSET :: u8 where
  "PIC_1_OFFSET = 0x20"

definition PIC_2_OFFSET :: u8 where
  "PIC_2_OFFSET = 0x28"

datatype interrupt_index = Idx_Timer | Idx_Keyboard

fun interrupt_as_u8 :: "interrupt_index \<Rightarrow> u8" where
  "interrupt_as_u8 Idx_Timer = PIC_1_OFFSET"
| "interrupt_as_u8 Idx_Keyboard = PIC_1_OFFSET + 1"

definition interrupt_as_usize :: "interrupt_index \<Rightarrow> nat" where
  "interrupt_as_usize i = unat (interrupt_as_u8 i)"

datatype 'h handler =
    Breakpoint_Handler
  | Double_Fault_Handler u16
  | Page_Fault_Handler
  | General_Protection_Handler
  | Timer_Handler
  | Keyboard_Handler
  | Driver_Handler 'h

datatype idt_storage = Initial | Heaped nat

record ('h, 't, 'w) idt_ops = "'w gdt_ops" +
  idt_new :: 't
  idt_set_breakpoint :: "'h handler \<Rightarrow> 't \<Rightarrow> 't"
  idt_set_double_fault :: "'h handler \<Rightarrow> 't \<Rightarrow> 't"
  idt_set_page_fault :: "'h handler \<Rightarrow> 't \<Rightarrow> 't"
  idt_set_general_protection :: "'h handler \<Rightarrow> 't \<Rightarrow> 't"
  idt_index_set :: "nat \<Rightarrow> 'h handler \<Rightarrow> 't \<Rightarrow> 't exec"
  pic_read_masks :: "'w \<Rightarrow> (u8 \<times> u8) \<times> 'w"
  pic_write_masks :: "u8 \<Rightarrow> u8 \<Rightarrow> 'w \<Rightarrow> 'w"
  pic_initialize :: "'w \<Rightarrow> 'w"
  pic_notify_end :: "u8 \<Rightarrow> 'w \<Rightarrow> 'w"
  timer_update :: "'w \<Rightarrow> 'w"
  port8_read :: "u16 \<Rightarrow> 'w \<Rightarrow> u8 \<times> 'w"
  port8_write :: "u16 \<Rightarrow> u8 \<Rightarrow> 'w \<Rightarrow> 'w"

text \<open>\<open>is_loaded\<close> is the table the processor's register points to, \<open>is_enabled\<close> its interrupt flag.\<close>

record ('t, 'w) intr_state =
  is_idt :: idt_storage
  is_loaded :: "idt_storage option"
  is_boxes :: "nat \<rightharpoonup> 't"
  is_next_box :: nat
  is_enabled :: bool
  is_world :: 'w

section \<open>Storage of the table\<close>

definition INITIAL_IDT :: "('h, 't, 'w) idt_ops \<Rightarrow> 't exec" where
  "INITIAL_IDT ops =
     (let idt = idt_set_breakpoint ops Breakpoint_Handler (idt_new ops);
          idt = idt_set_double_fault ops (Double_Fault_Handler DOUBLE_FAULT_IST_INDEX) idt;
          idt = idt_set_page_fault ops Page_Fault_Handler idt;
          idt = idt_set_general_protection ops General_Protection_Handler idt
      in xbind (idt_index_set ops (interrupt_as_usize Idx_Timer) Timer_Handler idt) (\<lambda>idt.
         idt_index_set ops (interrupt_as_usize Idx_Keyboard) Keyboard_Handler idt))"

definition storage_new :: "'t \<Rightarrow> ('t, 'w) intr_state \<Rightarrow> idt_storage \<times> ('t, 'w) intr_state" where
  "storage_new idt st =
     (Heaped (is_next_box st),
      st\<lparr>is_boxes := (is_boxes st)(is_next_box st \<mapsto> idt), is_next_box := Suc (is_next_box st)\<rparr>)"

text \<open>A table behind a pointer that is not allocated is an error.\<close>

fun storage_idt :: "('h, 't, 'w) idt_ops \<Rightarrow> idt_storage \<Rightarrow> ('t, 'w) intr_state \<Rightarrow> 't exec" where
  "storage_idt ops Initial st = INITIAL_IDT ops"
| "storage_idt ops (Heaped p) st = unwrap (is_boxes st p)"

definition storage_load ::
  "('h, 't, 'w) idt_ops \<Rightarrow> idt_storage \<Rightarrow> ('t, 'w) intr_state \<Rightarrow> ('t, 'w) intr_state exec" where
  "storage_load ops s st = xbind (storage_idt ops s st) (\<lambda>_. Ret (st\<lparr>is_loaded := Some s\<rparr>))"

fun storage_drop :: "idt_storage \<Rightarrow> ('t, 'w) intr_state \<Rightarrow> ('t, 'w) intr_state" where
  "storage_drop Initial st = st"
| "storage_drop (Heaped p) st = st\<lparr>is_boxes := (is_boxes st)(p := None)\<rparr>"

definition without_interrupts ::
  "(('t, 'w) intr_state \<Rightarrow> ('t, 'w) intr_state exec) \<Rightarrow> ('t, 'w) intr_state \<Rightarrow> ('t, 'w) intr_state exec" where
  "without_interrupts f st =
     xbind (f (st\<lparr>is_enabled := False\<rparr>)) (\<lambda>st'. Ret (st'\<lparr>is_enabled := is_enabled st\<rparr>))"

section \<open>Installing a handler\<close>

text \<open>The mask bit of a line is cleared in the controller it belongs to; other lines are left as they are.\<close>

definition unmask_line :: "nat \<Rightarrow> u8 \<times> u8 \<Rightarrow> u8 \<times> u8" where
  "unmask_line irq_line m =
     (if irq_line < 8 then (fst m AND NOT (push_bit irq_line 1), snd m)
      else if irq_line < 16 then (fst m, snd m AND NOT (push_bit (irq_line - 8) 1))
      else m)"

definition set_interrupt ::
  "('h, 't, 'w) idt_ops \<Rightarrow> nat \<Rightarrow> 'h \<Rightarrow> ('t, 'w) intr_state \<Rightarrow> ('t, 'w) intr_state exec" where
  "set_interrupt ops line entry st =
     xbind (storage_idt ops (is_idt st) st) (\<lambda>n_idt.
     xbind (idt_index_set ops line (Driver_Handler entry) n_idt) (\<lambda>n_idt.
     without_interrupts (\<lambda>st.
       case storage_new n_idt st of (new, st) \<Rightarrow>
       let old_idt = is_idt st; st = st\<lparr>is_idt := new\<rparr> in
       xbind (storage_load ops (is_idt st) st) (\<lambda>st.
       case pic_read_masks ops (is_world st) of (prev_mask, w) \<Rightarrow>
       xbind (sub_usize line (unat PIC_1_OFFSET)) (\<lambda>irq_line.
       let mask = unmask_line irq_line prev_mask;
           w = pic_write_masks ops (fst mask) (snd mask) w
       in Ret (storage_drop old_idt (st\<lparr>is_world := w\<rparr>))))) st))"

section \<open>Timer, keyboard, acknowledgement\<close>

definition FREQUENCY :: nat where
  "FREQUENCY = 100"

definition MSTIME :: nat where
  "MSTIME = 1000 div FREQUENCY"

definition DIVISOR :: u16 where
  "DIVISOR = of_nat (1193182 div FREQUENCY)"

definition configure_pit :: "('h, 't, 'w) idt_ops \<Rightarrow> 'w \<Rightarrow> 'w" where
  "configure_pit ops w =
     (let high = u16_to_be DIVISOR ! 0; low = u16_to_be DIVISOR ! 1
      in port8_write ops 0x40 high (port8_write ops 0x40 low (port8_write ops 0x43 0x36 w)))"

definition timer_interrupt_handler :: "('h, 't, 'w) idt_ops \<Rightarrow> 'w \<Rightarrow> 'w" where
  "timer_interrupt_handler ops w = pic_notify_end ops (interrupt_as_u8 Idx_Timer) (timer_update ops w)"

definition keyboard_key :: "u8 \<Rightarrow> char option" where
  "keyboard_key scancode =
     (let code = scancode AND 0x0f in
      if code = 0x02 then Some CHR ''1'' else if code = 0x03 then Some CHR ''2''
      else if code = 0x04 then Some CHR ''3'' else if code = 0x05 then Some CHR ''4''
      else if code = 0x06 then Some CHR ''5'' else if code = 0x07 then Some CHR ''6''
      else if code = 0x08 then Some CHR ''7'' else if code = 0x09 then Some CHR ''8''
      else if code = 0x0a then Some CHR ''9'' else if code = 0x0b then Some CHR ''0''
      else if code = 12 then None else if code = 14 then None else if code = 15 then None
      else if code = 16 then Some CHR ''q'' else if code = 17 then Some CHR ''w''
      else if code = 18 then Some CHR ''e'' else if code = 19 then Some CHR ''r''
      else if code = 20 then Some CHR ''t'' else if code = 21 then Some CHR ''z''
      else if code = 22 then Some CHR ''u'' else if code = 23 then Some CHR ''i''
      else if code = 24 then Some CHR ''o'' else if code = 25 then Some CHR ''p''
      else if code = 30 then Some CHR ''a'' else if code = 31 then Some CHR ''s''
      else if code = 32 then Some CHR ''d'' else if code = 33 then Some CHR ''f''
      else if code = 34 then Some CHR ''g'' else if code = 35 then Some CHR ''h''
      else if code = 36 then Some CHR ''j'' else if code = 37 then Some CHR ''k''
      else if code = 38 then Some CHR ''l''
      else if code \<in> {44, 45, 46, 47, 48, 49, 50} then Some CHR ''y''
      else None)"

text \<open>The decoded key and whether it was pressed are computed and not used.\<close>

definition keyboard_interrupt_handler ::
  "('h, 't, 'w) idt_ops \<Rightarrow> 'w \<Rightarrow> (bool \<times> char option) \<times> 'w" where
  "keyboard_interrupt_handler ops w =
     (case port8_read ops 0x60 w of (scancode, w) \<Rightarrow>
        let down = (scancode AND 0x80 = 0); key = keyboard_key scancode
        in ((down, key), pic_notify_end ops (interrupt_as_u8 Idx_Keyboard) w))"

record interrupt_done_guard =
  guard_id :: u8

definition interrupt_done_guard_new :: "u8 \<Rightarrow> interrupt_done_guard" where
  "interrupt_done_guard_new i = \<lparr>guard_id = i\<rparr>"

definition interrupt_done_guard_drop :: "('h, 't, 'w) idt_ops \<Rightarrow> interrupt_done_guard \<Rightarrow> 'w \<Rightarrow> 'w" where
  "interrupt_done_guard_drop ops self w = pic_notify_end ops (guard_id self) w"

section \<open>Initialisation\<close>

definition init_idt :: "('h, 't, 'w) idt_ops \<Rightarrow> ('t, 'w) intr_state \<Rightarrow> ('t, 'w) intr_state exec" where
  "init_idt ops st =
     xbind (storage_load ops (is_idt st) st) (\<lambda>st. Ret (st\<lparr>is_world := configure_pit ops (is_world st)\<rparr>))"

text \<open>\<^verbatim>\<open>init\<close> of the library: segments, table, controllers, and only then interrupts.\<close>

definition lib_init :: "('h, 't, 'w) idt_ops \<Rightarrow> ('t, 'w) intr_state \<Rightarrow> ('t, 'w) intr_state exec" where
  "lib_init ops st =
     (let st = st\<lparr>is_enabled := False\<rparr> in
      xbind (gdt_init ops (is_world st)) (\<lambda>w.
      xbind (init_idt ops (st\<lparr>is_world := w\<rparr>)) (\<lambda>st.
      Ret (st\<lparr>is_world := pic_initialize ops (is_world st), is_enabled := True\<rparr>))))"

text \<open>The statics before \<^verbatim>\<open>init\<close>; what several drivers do one after the other.\<close>

definition intr_boot :: "'w \<Rightarrow> ('t, 'w) intr_state" where
  "intr_boot w = \<lparr>is_idt = Initial, is_loaded = None, is_boxes = Map.empty, is_next_box = 0, is_enabled = False,
     is_world = w\<rparr>"

fun set_interrupts ::
  "('h, 't, 'w) idt_ops \<Rightarrow> (nat \<times> 'h) list \<Rightarrow> ('t, 'w) intr_state \<Rightarrow> ('t, 'w) intr_state exec" where
  "set_interrupts ops [] st = Ret st"
| "set_interrupts ops ((line, h) # rs) st = xbind (set_interrupt ops line h st) (\<lambda>st. set_interrupts ops rs st)"

section \<open>Assumptions on the crates\<close>

text \<open>
  \<open>vec\<close> gives the handler of a vector in a table and \<open>masks\<close> the mask registers of the controllers: the named
  entries are the vectors 3, 8, 14 and 13, indexing reaches every vector from 32 to 255, and masks read are the
  masks last written.
\<close>

definition idt_laws ::
  "('h, 't, 'w) idt_ops \<Rightarrow> ('t \<Rightarrow> nat \<Rightarrow> 'h handler option) \<Rightarrow> ('w \<Rightarrow> u8 \<times> u8) \<Rightarrow> bool" where
  "idt_laws ops vec masks \<longleftrightarrow>
     (\<exists>enc. gdt_laws ops enc) \<and> vec (idt_new ops) = Map.empty \<and>
     (\<forall>h t. vec (idt_set_breakpoint ops h t) = (vec t)(3 \<mapsto> h) \<and> vec (idt_set_double_fault ops h t) = (vec t)(8 \<mapsto> h) \<and>
        vec (idt_set_page_fault ops h t) = (vec t)(14 \<mapsto> h) \<and> vec (idt_set_general_protection ops h t) = (vec t)(13 \<mapsto> h)) \<and>
     (\<forall>line h t. 32 \<le> line \<and> line < 256 \<longrightarrow>
        (\<exists>t'. idt_index_set ops line h t = Ret t' \<and> vec t' = (vec t)(line \<mapsto> h))) \<and>
     (\<forall>w. fst (pic_read_masks ops w) = masks w) \<and>
     (\<forall>a b w. masks (pic_write_masks ops a b w) = (a, b))"

lemma index_set_law:
  assumes "idt_laws ops vec masks" and "32 \<le> line" and "line < 256"
  obtains t' where "idt_index_set ops line h t = Ret t'" and "vec t' = (vec t)(line \<mapsto> h)"
  using assms unfolding idt_laws_def by blast

lemma gdt_init_law:
  assumes "idt_laws ops vec masks"
  shows "\<exists>t. \<forall>w. gdt_init ops w = Ret (load_tss ops 24 (set_cs ops 8 (gdt_load ops t w)))"
proof -
  obtain enc where "gdt_laws ops enc" using assms unfolding idt_laws_def by (elim conjE exE)
  from gdt_init_run [OF this] show ?thesis by (intro exI allI)
qed

lemma masks_law:
  assumes "idt_laws ops vec masks"
  shows "fst (pic_read_masks ops w) = masks w" and "masks (pic_write_masks ops a b w) = (a, b)"
  using assms by (simp_all add: idt_laws_def)

section \<open>Lemmas\<close>

text \<open>The table in use is loaded, and no other boxed table is allocated.\<close>

definition intr_inv :: "('t, 'w) intr_state \<Rightarrow> bool" where
  "intr_inv st \<longleftrightarrow> is_loaded st = Some (is_idt st) \<and>
     dom (is_boxes st) = (case is_idt st of Initial \<Rightarrow> {} | Heaped p \<Rightarrow> {p}) \<and>
     (\<forall>p \<in> dom (is_boxes st). p < is_next_box st)"

definition line_masked :: "u8 \<times> u8 \<Rightarrow> nat \<Rightarrow> bool" where
  "line_masked m i = (if i < 8 then bit (fst m) i else bit (snd m) (i - 8))"

lemma unmask_line_masked:
  assumes "i < 16"
  shows "line_masked (unmask_line j m) i \<longleftrightarrow> line_masked m i \<and> i \<noteq> j"
  using assms by (auto simp: line_masked_def unmask_line_def bit_simps)

definition initial_vectors :: "nat \<Rightarrow> 'h handler option" where
  "initial_vectors = [3 \<mapsto> Breakpoint_Handler, 8 \<mapsto> Double_Fault_Handler 0, 14 \<mapsto> Page_Fault_Handler,
     13 \<mapsto> General_Protection_Handler, 32 \<mapsto> Timer_Handler, 33 \<mapsto> Keyboard_Handler]"

fun installed :: "(nat \<times> 'h) list \<Rightarrow> (nat \<Rightarrow> 'h handler option) \<Rightarrow> nat \<Rightarrow> 'h handler option" where
  "installed [] m = m"
| "installed ((line, h) # rs) m = installed rs (m(line \<mapsto> Driver_Handler h))"

lemma initial_idt_vectors:
  assumes laws: "idt_laws ops vec masks"
  obtains t where "INITIAL_IDT ops = Ret t" and "vec t = initial_vectors"
proof -
  define t0 where "t0 = idt_set_general_protection ops General_Protection_Handler (idt_set_page_fault ops Page_Fault_Handler
    (idt_set_double_fault ops (Double_Fault_Handler DOUBLE_FAULT_IST_INDEX)
      (idt_set_breakpoint ops Breakpoint_Handler (idt_new ops))))"
  have t0: "vec t0 = [3 \<mapsto> Breakpoint_Handler, 8 \<mapsto> Double_Fault_Handler 0, 14 \<mapsto> Page_Fault_Handler,
      13 \<mapsto> General_Protection_Handler]"
    using laws by (simp add: t0_def idt_laws_def DOUBLE_FAULT_IST_INDEX_def)
  obtain t1 where t1: "idt_index_set ops 32 Timer_Handler t0 = Ret t1" "vec t1 = (vec t0)(32 \<mapsto> Timer_Handler)"
    by (rule index_set_law [OF laws, where line = 32 and h = Timer_Handler and t = t0]) simp_all
  obtain t2 where t2: "idt_index_set ops 33 Keyboard_Handler t1 = Ret t2" "vec t2 = (vec t1)(33 \<mapsto> Keyboard_Handler)"
    by (rule index_set_law [OF laws, where line = 33 and h = Keyboard_Handler and t = t1]) simp_all
  have "INITIAL_IDT ops = Ret t2"
    using t1(1) t2(1) by (simp add: INITIAL_IDT_def Let_def interrupt_as_usize_def PIC_1_OFFSET_def flip: t0_def)
  moreover have "vec t2 = initial_vectors" by (simp add: t2(2) t1(2) t0 initial_vectors_def)
  ultimately show ?thesis by (rule that)
qed

text \<open>A part of the world that segments, controllers and ports have no share in.\<close>

definition init_keeps :: "('h, 't, 'w) idt_ops \<Rightarrow> ('w \<Rightarrow> 'p) \<Rightarrow> bool" where
  "init_keeps ops part \<longleftrightarrow>
     (\<forall>t w. part (gdt_load ops t w) = part w) \<and> (\<forall>s w. part (set_cs ops s w) = part w \<and> part (load_tss ops s w) = part w) \<and>
     (\<forall>w. part (pic_initialize ops w) = part w) \<and> (\<forall>p v w. part (port8_write ops p v w) = part w)"

lemma lib_init_run:
  assumes "idt_laws ops vec masks" and "init_keeps ops part"
  shows "\<exists>st. lib_init ops (intr_boot w) = Ret st \<and> is_enabled st \<and> intr_inv st \<and> is_idt st = Initial \<and> part (is_world st) = part w"
proof -
  obtain t where t: "INITIAL_IDT ops = Ret t" by (rule initial_idt_vectors [OF assms(1)])
  obtain g where g: "\<forall>w. gdt_init ops w = Ret (load_tss ops 24 (set_cs ops 8 (gdt_load ops g w)))"
    using gdt_init_law [OF assms(1)] ..
  from assms(2) show ?thesis
    by (simp add: lib_init_def g intr_boot_def init_idt_def storage_load_def t intr_inv_def configure_pit_def init_keeps_def Let_def)
qed

lemma set_interrupt_run:
  assumes laws: "idt_laws ops vec masks" and inv: "intr_inv st" and line: "32 \<le> line" "line < 256"
    and table: "storage_idt ops (is_idt st) st = Ret t"
  obtains st' t' where "set_interrupt ops line h st = Ret st'" and "intr_inv st'"
    and "storage_idt ops (is_idt st') st' = Ret t'" and "vec t' = (vec t)(line \<mapsto> Driver_Handler h)"
    and "is_enabled st' = is_enabled st" and "masks (is_world st') = unmask_line (line - 32) (masks (is_world st))"
proof -
  obtain t' where t': "idt_index_set ops line (Driver_Handler h) t = Ret t'" "vec t' = (vec t)(line \<mapsto> Driver_Handler h)"
    by (rule index_set_law [OF laws line])
  obtain w where w: "pic_read_masks ops (is_world st) = (masks (is_world st), w)"
    using masks_law(1) [OF laws, of "is_world st"] by (metis prod.collapse)
  define m where "m = unmask_line (line - 32) (masks (is_world st))"
  define st' where "st' = storage_drop (is_idt st)
    (st\<lparr>is_boxes := (is_boxes st)(is_next_box st \<mapsto> t'), is_next_box := Suc (is_next_box st), is_enabled := is_enabled st,
       is_idt := Heaped (is_next_box st), is_loaded := Some (Heaped (is_next_box st)),
       is_world := pic_write_masks ops (fst m) (snd m) w\<rparr>)"
  have "set_interrupt ops line h st = Ret st'"
    unfolding set_interrupt_def table t'(1) xbind.simps
    using line by (cases "is_idt st") (simp_all add: without_interrupts_def storage_new_def Let_def storage_load_def w
      sub_usize_def PIC_1_OFFSET_def st'_def flip: m_def)
  moreover have "intr_inv st'" "storage_idt ops (is_idt st') st' = Ret t'"
    using inv by (cases "is_idt st"; auto simp: intr_inv_def st'_def split: if_splits)+
  moreover have "is_enabled st' = is_enabled st" "masks (is_world st') = m"
    by (cases "is_idt st"; simp add: st'_def masks_law(2) [OF laws])+
  ultimately show ?thesis using t'(2) unfolding m_def by (intro that)
qed

lemma set_interrupts_run:
  assumes laws: "idt_laws ops vec masks" and "intr_inv st" and "\<forall>(line, h) \<in> set rs. 32 \<le> line \<and> line < 256"
    and "storage_idt ops (is_idt st) st = Ret t"
  shows "\<exists>st' t'. set_interrupts ops rs st = Ret st' \<and> intr_inv st' \<and> is_enabled st' = is_enabled st \<and>
     storage_idt ops (is_idt st') st' = Ret t' \<and> vec t' = installed rs (vec t) \<and>
     (\<forall>i < 16. line_masked (masks (is_world st')) i \<longleftrightarrow>
        line_masked (masks (is_world st)) i \<and> i + 32 \<notin> fst ` set rs)"
  using assms(2-)
proof (induction rs arbitrary: st t)
  case Nil
  then show ?case by simp
next
  case (Cons r rs)
  obtain line h where r: "r = (line, h)" by (cases r)
  have line: "32 \<le> line" "line < 256" using Cons.prems(2) by (simp_all add: r)
  obtain st1 t1 where 1: "set_interrupt ops line h st = Ret st1" "intr_inv st1"
    "storage_idt ops (is_idt st1) st1 = Ret t1" "vec t1 = (vec t)(line \<mapsto> Driver_Handler h)"
    "is_enabled st1 = is_enabled st" "masks (is_world st1) = unmask_line (line - 32) (masks (is_world st))"
    by (rule set_interrupt_run [OF laws Cons.prems(1) line Cons.prems(3)])
  have sub: "\<forall>(line, h) \<in> set rs. 32 \<le> line \<and> line < 256" using Cons.prems(2) by simp
  obtain st2 t2 where 2: "set_interrupts ops rs st1 = Ret st2" "intr_inv st2" "is_enabled st2 = is_enabled st1"
    "storage_idt ops (is_idt st2) st2 = Ret t2" "vec t2 = installed rs (vec t1)"
    "\<forall>i < 16. line_masked (masks (is_world st2)) i \<longleftrightarrow> line_masked (masks (is_world st1)) i \<and> i + 32 \<notin> fst ` set rs"
    using Cons.IH [OF 1(2) sub 1(3)] by blast
  have "i + 32 \<noteq> line \<longleftrightarrow> i \<noteq> line - 32" for i using line by linarith
  with 2 show ?case by (auto simp: r 1 unmask_line_masked)
qed

section \<open>A table as a map\<close>

text \<open>With the masks of the controllers in a part of the world; nothing else in the world is changed.\<close>

definition table_idt_ops :: "('w \<Rightarrow> u8 \<times> u8) \<Rightarrow> (u8 \<times> u8 \<Rightarrow> 'w \<Rightarrow> 'w) \<Rightarrow> ('h, nat \<Rightarrow> 'h handler option, 'w) idt_ops" where
  "table_idt_ops get put =
     \<lparr>gdt_stack = 0x5000, virt_add_usize = (\<lambda>a n. Ret (a + of_nat n)), tss_new = replicate 7 0, gdt_new = [0],
      gdt_add_entry = plain_add_entry, gdt_load = (\<lambda>_ w. w), set_cs = (\<lambda>_ w. w), load_tss = (\<lambda>_ w. w),
      idt_new = Map.empty, idt_set_breakpoint = (\<lambda>h t. t(3 \<mapsto> h)), idt_set_double_fault = (\<lambda>h t. t(8 \<mapsto> h)),
      idt_set_page_fault = (\<lambda>h t. t(14 \<mapsto> h)), idt_set_general_protection = (\<lambda>h t. t(13 \<mapsto> h)),
      idt_index_set = (\<lambda>line h t. if 32 \<le> line \<and> line < 256 then Ret (t(line \<mapsto> h)) else Panic IndexOutOfRange),
      pic_read_masks = (\<lambda>w. (get w, w)), pic_write_masks = (\<lambda>a b w. put (a, b) w), pic_initialize = id, pic_notify_end = (\<lambda>_ w. w),
      timer_update = id, port8_read = (\<lambda>_ w. (0, w)), port8_write = (\<lambda>_ _ w. w)\<rparr>"

lemma table_idt_ops_laws:
  assumes "\<And>m w. get (put m w) = m"
  shows "idt_laws (table_idt_ops get put) (\<lambda>t. t) get"
proof -
  have "gdt_laws (table_idt_ops get put) plain_words"
    by (simp add: gdt_laws_def table_idt_ops_def plain_add_entry_def plain_words_length)
  then show ?thesis using assms by (auto simp: idt_laws_def table_idt_ops_def)
qed

lemma table_idt_ops_keep: "init_keeps (table_idt_ops get put) part"
  by (simp add: init_keeps_def table_idt_ops_def)

definition map_idt_ops :: "('h, nat \<Rightarrow> 'h handler option, u8 \<times> u8) idt_ops" where
  "map_idt_ops = table_idt_ops (\<lambda>w. w) (\<lambda>m w. m)"

lemma map_idt_ops_laws: "idt_laws map_idt_ops (\<lambda>t. t) (\<lambda>w. w)"
  unfolding map_idt_ops_def by (rule table_idt_ops_laws) simp

section \<open>Properties\<close>

text \<open>
  C32: after \<^verbatim>\<open>init\<close> and any sequence of handlers installed on vectors from 32 to 255, interrupts are enabled,
  the table the processor uses is the current one and is the only boxed table still allocated, it holds
  the exception handlers, the timer and keyboard handlers and for each vector the handler installed last,
  and of the sixteen lines of the controllers exactly the installed ones have been unmasked.
\<close>

theorem interrupt_lines_installed:
  assumes "idt_laws ops vec masks" and "\<forall>(line, h) \<in> set rs. 32 \<le> line \<and> line < 256"
  shows "\<exists>st0 st t. lib_init ops (intr_boot w) = Ret st0 \<and> set_interrupts ops rs st0 = Ret st \<and>
    is_enabled st \<and> intr_inv st \<and> storage_idt ops (is_idt st) st = Ret t \<and>
    vec t = installed rs initial_vectors \<and>
    (\<forall>i < 16. line_masked (masks (is_world st)) i \<longleftrightarrow>
       line_masked (masks (is_world st0)) i \<and> i + 32 \<notin> fst ` set rs)"
proof -
  obtain t where t: "INITIAL_IDT ops = Ret t" "vec t = initial_vectors" by (rule initial_idt_vectors [OF assms(1)])
  obtain g where g: "\<forall>w. gdt_init ops w = Ret (load_tss ops 24 (set_cs ops 8 (gdt_load ops g w)))"
    using gdt_init_law [OF assms(1)] ..
  obtain st0 where st0: "lib_init ops (intr_boot w) = Ret st0" "intr_inv st0" "is_enabled st0" "is_idt st0 = Initial"
    by (simp add: lib_init_def g intr_boot_def init_idt_def storage_load_def t(1) intr_inv_def Let_def)
  have "storage_idt ops (is_idt st0) st0 = Ret t" by (simp add: st0(4) t(1))
  from set_interrupts_run [OF assms(1) st0(2) assms(2) this] show ?thesis
    unfolding t(2) using st0(1,3) by blast
qed

theorem interrupt_lines_installed_witness:
  "\<exists>st t. xbind (lib_init map_idt_ops (intr_boot (0xff, 0xff))) (set_interrupts map_idt_ops [(43, ''net''), (33, ''keys'')]) = Ret st \<and>
     intr_inv st \<and> storage_idt map_idt_ops (is_idt st) st = Ret t \<and> t 32 = Some Timer_Handler \<and>
     t 33 = Some (Driver_Handler ''keys'') \<and> t 43 = Some (Driver_Handler ''net'') \<and> \<not> line_masked (is_world st) 11"
  using interrupt_lines_installed [OF map_idt_ops_laws, of "[(43, ''net''), (33, ''keys'')]" "(0xff, 0xff)"]
  by (auto simp: initial_vectors_def)

text \<open>An installation on a vector below 32 that the table accepts is followed by a panic.\<close>

lemma set_interrupt_underflow:
  assumes "storage_idt ops (is_idt st) st = Ret t" and "idt_index_set ops line (Driver_Handler h) t = Ret t'" and "line < 32"
  shows "set_interrupt ops line h st = Panic ArithOverflow"
  using assms by (simp add: set_interrupt_def without_interrupts_def storage_new_def Let_def storage_load_def
    sub_usize_def PIC_1_OFFSET_def split: prod.splits)

text \<open>The mask \<^verbatim>\<open>0x0f\<close> leaves codes below 16: no letter is ever decoded.\<close>

lemma low_nibble_below:
  fixes x :: u8
  shows "unat (x AND 0x0f) \<in> set [0 ..< 16]"
proof -
  have "x AND 0x0f \<le> 0x0f" by (rule word_and_le1)
  then show ?thesis by (simp add: word_le_nat_alt)
qed

definition digit_keys :: "(u8 \<rightharpoonup> char)" where
  "digit_keys = map_of (zip [2, 3, 4, 5, 6, 7, 8, 9, 10, 11] ''1234567890'')"

lemma keyboard_digit_keys: "keyboard_key scancode = digit_keys (scancode AND 0x0f)"
proof -
  have "\<forall>n \<in> set [0 ..< 16]. \<forall>s. s AND 0x0f = of_nat n \<longrightarrow> keyboard_key s = digit_keys (of_nat n)"
    by (simp add: upt_rec keyboard_key_def digit_keys_def)
  with low_nibble_below [of scancode] show ?thesis by (metis of_nat_unat ucast_id)
qed

lemma keyboard_only_digits:
  assumes "keyboard_key scancode = Some c"
  shows "c \<in> set ''1234567890''"
  using assms by (auto simp: keyboard_digit_keys digit_keys_def split: if_splits)

end
