(* ===== verification/Net_Setup.thy ===== *)
theory Net_Setup
  imports E1000_Properties Net_Properties Interrupts
begin

text \<open>
  \<^verbatim>\<open>E1000Driver::new\<close> of \<^verbatim>\<open>hardware/device.rs\<close> and the setup of \<^verbatim>\<open>extensions/networking.rs\<close>: the PCI enumeration
  that brings up every network card it meets, the statics of the extension, the interrupt entry and
  the handle to the queues. The enumeration is lazy, so a card is initialised before the next slot
  is looked at.
\<close>

section \<open>The driver\<close>

definition e1000_driver_new ::
  "'w port_ops \<Rightarrow> 'w card_ops \<Rightarrow> nat \<Rightarrow> pci_device \<Rightarrow> u64 \<Rightarrow> 'w \<Rightarrow>
     ((e1000_card \<times> networking_metadata \<times> 'w packet_queue_sender) option \<times> 'w) exec option" where
  "e1000_driver_new pops ops i device offset w =
     (let w = enable_bus_mastering pops device w in
      case pd_header_type device of
        Generic bars _ _ \<Rightarrow>
          lbind (lift_x (index_at bars 0)) (\<lambda>bar.
          case create_packetqueue (co_net ops) w of ((sender, receiver), w) \<Rightarrow>
          lbind (lift_x (e1000_init ops i bar offset receiver w)) (\<lambda>(card, send_notify, w).
          lbind (lift_x (enable_interrupts ops card w)) (\<lambda>w.
          lbind (read_mac_address ops card w) (\<lambda>(mac, w).
          let meta = \<lparr>nm_mac = mac, nm_ip = None, nm_dhcp = Ex_Initial\<rparr>
          in lift_x (Ret (Some (card, meta, sender send_notify), w))))))
      | Header_Unknown _ \<Rightarrow> lift_x (Ret (None, w)))"

section \<open>The enumeration\<close>

text \<open>The closure of the \<^verbatim>\<open>filter_map\<close>: a card and the record the handler works with, for a supported device.\<close>

definition setup_device ::
  "'w port_ops \<Rightarrow> 'w card_ops \<Rightarrow> u64 \<Rightarrow> nat \<Rightarrow> pci_device \<Rightarrow> 'w \<Rightarrow>
     (('w network_device \<times> e1000_card) option \<times> 'w) exec option" where
  "setup_device pops ops offset i header w =
     (if gh_id (pd_generic header) = 0x100E \<and> gh_vendor_id (pd_generic header) = 0x8086 then
        lbind (e1000_driver_new pops ops i header offset w) (\<lambda>(r, w).
        case r of
          Some (n_device, meta, n_queue) \<Rightarrow>
            lbind (e1000_mac_address ops n_device w) (\<lambda>(mac, w).
            lift_x (Ret (Some (\<lparr>nd_id = e1000_id n_device, nd_mac = mac, nd_packet_queue = n_queue, nd_metadata = meta,
              nd_udp_bindings = Map.empty\<rparr>, n_device), w)))
        | None \<Rightarrow> lift_x (Ret (None, w)))
      else lift_x (Ret (None, w)))"

fun setup_slots ::
  "'w port_ops \<Rightarrow> 'w card_ops \<Rightarrow> u64 \<Rightarrow> nat \<Rightarrow> (u8 \<times> u8) list \<Rightarrow> 'w \<Rightarrow>
     (('w network_device \<times> e1000_card) list \<times> 'w) exec option" where
  "setup_slots pops ops offset i [] w = lift_x (Ret ([], w))"
| "setup_slots pops ops offset i ((bus, device) # slots) w =
     (case load_device pops bus device w of
        (None, w) \<Rightarrow> setup_slots pops ops offset i slots w
      | (Some header, w) \<Rightarrow>
          lbind (setup_device pops ops offset i header w) (\<lambda>(r, w).
          lbind (setup_slots pops ops offset (Suc i) slots w) (\<lambda>(rs, w).
          lift_x (Ret ((case r of None \<Rightarrow> rs | Some d \<Rightarrow> d # rs), w)))))"

section \<open>The extension\<close>

datatype driver_entry = Network_Interrupt

text \<open>The statics of the extension; \<open>ns_handle_queue\<close> says whether \<^verbatim>\<open>HANDLE_QUEUE\<close> is set.\<close>

record 'w net_statics =
  ns_int_devices :: "e1000_card list option option"
  ns_device_queues :: "(nat \<rightharpoonup> 'w packet_queue_sender) option"
  ns_handle_queue :: bool
  ns_ips :: "ip_map option"

datatype 'w net_future = Missing_Offset | Network_Handler "'w network_device list"

definition call_once :: "'a option \<Rightarrow> 'a \<Rightarrow> 'a option" where
  "call_once s v = (case s of None \<Rightarrow> Some v | Some u \<Rightarrow> Some u)"

text \<open>\<^verbatim>\<open>collect\<close> into a \<^verbatim>\<open>BTreeMap\<close>: later entries replace earlier ones.\<close>

definition collect_queues :: "'w network_device list \<Rightarrow> nat \<rightharpoonup> 'w packet_queue_sender" where
  "collect_queues devs = map_of (rev (map (\<lambda>d. (nd_id d, nd_packet_queue d)) devs))"

definition network_setup ::
  "'w port_ops \<Rightarrow> 'w card_ops \<Rightarrow> (driver_entry, 't, 'w) idt_ops \<Rightarrow> u64 option \<Rightarrow>
     'w net_statics \<Rightarrow> ('t, 'w) intr_state \<Rightarrow>
     ('w net_future \<times> 'w net_statics \<times> ('t, 'w) intr_state) exec option" where
  "network_setup pops ops iops memory_offset ns st =
     (case memory_offset of
        None \<Rightarrow> lift_x (Ret (Missing_Offset, ns, st))
      | Some offset \<Rightarrow>
          lbind (setup_slots pops ops offset 0 pci_slots (is_world st)) (\<lambda>(rs, w).
          let st = st\<lparr>is_world := w\<rparr>;
              network_devices = map fst rs;
              devices = map snd rs;
              ns = ns\<lparr>ns_int_devices := init_devices devices (ns_int_devices ns)\<rparr>;
              ns = ns\<lparr>ns_device_queues := call_once (ns_device_queues ns) (collect_queues network_devices)\<rparr>;
              ns = ns\<lparr>ns_handle_queue := True\<rparr>;
              ns = ns\<lparr>ns_ips := call_once (ns_ips ns) ip_map_new\<rparr>
          in
          lbind (lift_x (set_interrupt iops (unat PIC_1_OFFSET + 0xb) Network_Interrupt st)) (\<lambda>st.
          lift_x (Ret (Network_Handler network_devices, ns, st)))))"

text \<open>The entry the extension installs.\<close>

definition network_interrupt ::
  "'w card_ops \<Rightarrow> (driver_entry, 't, 'w) idt_ops \<Rightarrow> 'w net_statics \<Rightarrow> 'w \<Rightarrow> ('w net_statics \<times> 'w) exec option" where
  "network_interrupt ops iops ns w =
     lbind (net_handle_interrupt e1000_handles_interrupt (e1000_handle_interrupt ops) (ns_handle_queue ns)
       (ns_int_devices ns) w) (\<lambda>(int_devices, w).
     lift_x (Ret (ns\<lparr>ns_int_devices := int_devices\<rparr>, pic_notify_end iops (PIC_1_OFFSET + 0xb) w)))"

record 'w network_handle =
  nh_queues :: "nat \<rightharpoonup> 'w packet_queue_sender"

definition network_handle_obtain :: "'w net_statics \<Rightarrow> 'w network_handle option" where
  "network_handle_obtain ns = map_option (\<lambda>raw_queues. \<lparr>nh_queues = raw_queues\<rparr>) (ns_device_queues ns)"

section \<open>What the setup leaves behind\<close>

text \<open>An offset that leaves room for a 32-bit base address and the register window.\<close>

definition offset_ok :: "u64 \<Rightarrow> bool" where
  "offset_ok offset \<longleftrightarrow> unat offset + 2 ^ 32 + 2 ^ 16 \<le> 2 ^ 64"

lemma e1000_init_com:
  assumes "e1000_init ops i bar offset q w = Ret r" and "offset_ok offset"
  shows "com_ok (coms_new bar offset)"
proof (cases bar)
  case (MemorySpace a p t)
  have "unat a < 2 ^ 32" using unsigned_less [of a, where ?'a = nat] by simp
  then show ?thesis using assms(2) by (simp add: MemorySpace com_ok_def coms_new_def offset_ok_def)
next
  case (IOSpace a)
  then show ?thesis
    using assms(1) by (simp add: e1000_init_def register_read_def read_command_def coms_new_def Let_def)
qed

text \<open>A card and the device record made for it.\<close>

definition pair_ok :: "'w card_ops \<Rightarrow> nat \<Rightarrow> 'w network_device \<times> e1000_card \<Rightarrow> bool" where
  "pair_ok ops i p \<longleftrightarrow>
     (case p of (d, c) \<Rightarrow> card_inv c \<and> ec_id c = i \<and> nd_id d = i \<and> nd_udp_bindings d = Map.empty \<and>
        nm_ip (nd_metadata d) = None \<and> nm_dhcp (nd_metadata d) = Ex_Initial \<and>
        pqs_queue (nd_packet_queue d) = pqr_queue (ec_packet_queue c) \<and>
        pqs_notify (nd_packet_queue d) = send_notify ops (ec_com c))"

definition supported :: "pci_device \<Rightarrow> bool" where
  "supported d \<longleftrightarrow> gh_id (pd_generic d) = 0x100E \<and> gh_vendor_id (pd_generic d) = 0x8086 \<and>
     (case pd_header_type d of Generic _ _ _ \<Rightarrow> True | Header_Unknown _ \<Rightarrow> False)"

lemma driver_new_generic:
  assumes run: "e1000_driver_new pops ops i device offset w = Some (Ret (r, w'))" and "offset_ok offset"
    and header: "pd_header_type device = Generic bs cis line"
  obtains c meta s where "r = Some (c, meta, s)" and "card_inv c" and "ec_id c = i" and "nm_ip meta = None"
    and "nm_dhcp meta = Ex_Initial" and "pqs_queue s = pqr_queue (ec_packet_queue c)"
    and "pqs_notify s = send_notify ops (ec_com c)"
proof -
  obtain q w1 where q: "op_queue_new (co_net ops) (enable_bus_mastering pops device w) = (q, w1)"
    by (cases "op_queue_new (co_net ops) (enable_bus_mastering pops device w)")
  obtain bar c notify w2 w3 mac where init: "e1000_init ops i bar offset \<lparr>pqr_queue = q\<rparr> w1 = Ret (c, notify, w2)"
    and r: "r = Some (c, \<lparr>nm_mac = mac, nm_ip = None, nm_dhcp = Ex_Initial\<rparr>, \<lparr>pqs_queue = q, pqs_notify = notify\<rparr>)"
    using run unfolding e1000_driver_new_def Let_def create_packetqueue_def
    by (simp add: header q lbind_Ret_iff) blast
  from e1000_init_inv [OF init e1000_init_com [OF init assms(2)]] show ?thesis
    by (intro that [OF r]) simp_all
qed

lemma driver_new_other:
  assumes "e1000_driver_new pops ops i device offset w = Some (Ret (r, w'))" and "pd_header_type device = Header_Unknown n"
  shows "r = None"
  using assms by (simp add: e1000_driver_new_def Let_def)

lemma setup_device_post:
  assumes run: "setup_device pops ops offset i device w = Some (Ret (r, w'))" and off: "offset_ok offset"
  shows "case r of Some p \<Rightarrow> supported device \<and> pair_ok ops i p | None \<Rightarrow> \<not> supported device"
proof (cases "gh_id (pd_generic device) = 0x100E \<and> gh_vendor_id (pd_generic device) = 0x8086")
  case True
  then obtain r1 w1 where new: "e1000_driver_new pops ops i device offset w = Some (Ret (r1, w1))"
    using run by (auto simp: setup_device_def lbind_Ret_iff)
  show ?thesis
  proof (cases "pd_header_type device")
    case (Generic bs cis line)
    from driver_new_generic [OF new off this] obtain c meta s where c: "r1 = Some (c, meta, s)" "card_inv c" "ec_id c = i"
      "nm_ip meta = None" "nm_dhcp meta = Ex_Initial" "pqs_queue s = pqr_queue (ec_packet_queue c)"
      "pqs_notify s = send_notify ops (ec_com c)" .
    then obtain mac where "r = Some (\<lparr>nd_id = i, nd_mac = mac, nd_packet_queue = s, nd_metadata = meta, nd_udp_bindings = Map.empty\<rparr>, c)"
      using run True new by (auto simp: setup_device_def lbind_Ret_iff e1000_id_def)
    then show ?thesis using True Generic c by (simp add: supported_def pair_ok_def)
  next
    case (Header_Unknown n)
    then show ?thesis using run True new driver_new_other [OF new Header_Unknown] by (simp add: setup_device_def supported_def)
  qed
next
  case False
  then show ?thesis using run by (auto simp: setup_device_def supported_def)
qed

section \<open>Configuration space during the setup\<close>

text \<open>
  The card, the allocator and the queues do not touch the PCI configuration space: \<open>cfg\<close> is what
  \<open>pci_laws\<close> calls so.
\<close>

definition leaves_config :: "'w card_ops \<Rightarrow> ('w \<Rightarrow> u32 \<Rightarrow> u32) \<Rightarrow> bool" where
  "leaves_config ops cfg \<longleftrightarrow>
     (\<forall>a v w. cfg (mmio_write ops a v w) = cfg w) \<and> (\<forall>a w. cfg (snd (mmio_read ops a w)) = cfg w) \<and>
     (\<forall>b w. cfg (snd (box_into_raw ops b w)) = cfg w) \<and> (\<forall>n al w. cfg (snd (heap_alloc ops n al w)) = cfg w) \<and>
     (\<forall>a d w. cfg (rx_desc_write ops a d w) = cfg w) \<and> (\<forall>a d w. cfg (tx_desc_write ops a d w) = cfg w) \<and>
     (\<forall>w. cfg (snd (op_queue_new (co_net ops) w)) = cfg w)"

lemma write_command_config:
  assumes "leaves_config ops cfg" and "write_command (mmio ops) com r v w = Ret w'"
  shows "cfg w' = cfg w"
  using assms by (auto simp: write_command_def xbind_Ret_iff mmio_def leaves_config_def split: base_address_register.splits)

lemma read_command_config:
  assumes "leaves_config ops cfg" and "read_command (mmio ops) com r w = Ret (v, w')"
  shows "cfg w' = cfg w"
  using assms
  by (auto simp: read_command_def xbind_Ret_iff mmio_def leaves_config_def split: base_address_register.splits) (metis snd_conv)

lemma write_commands_config:
  assumes laws: "leaves_config ops cfg"
  shows "write_commands (mmio ops) com cs w = Ret w' \<Longrightarrow> cfg w' = cfg w"
  by (induction cs arbitrary: w) (auto simp: xbind_Ret_iff write_command_config [OF laws])

lemma detect_eeprom_config:
  assumes laws: "leaves_config ops cfg"
  shows "detect_eeprom (mmio ops) com n w = Ret (b, w') \<Longrightarrow> cfg w' = cfg w"
  by (induction n arbitrary: w) (auto simp: xbind_Ret_iff split: if_splits dest: read_command_config [OF laws])

lemma rx_fill_config:
  assumes laws: "leaves_config ops cfg"
  shows "rx_fill ops is ds bs w = Ret (ds', bs', w') \<Longrightarrow> cfg w' = cfg w"
proof (induction "is" arbitrary: ds bs w)
  case (Cons i "is")
  have "cfg (snd (box_into_raw ops (replicate 2064 0) w)) = cfg w" using laws by (simp add: leaves_config_def)
  then show ?case using Cons by (auto simp: xbind_Ret_iff Let_def split: prod.splits)
qed simp

lemma fold_config:
  assumes "\<And>x w. x \<in> set xs \<Longrightarrow> cfg (f x w) = cfg w"
  shows "cfg (fold f xs w) = cfg w"
  using assms by (induction xs arbitrary: w) simp_all

lemma allocate_buffer_config:
  assumes run: "allocate_buffer alloc wr ds w = Ret (p, w')" and "\<And>n al w. cfg (snd (alloc n al w)) = cfg w"
    and wr: "\<And>a d w. cfg (wr a d w) = cfg w"
  shows "cfg w' = cfg w"
proof -
  obtain n al where "w' = fold (\<lambda>x w. wr (desc_at p (of_nat (fst x))) (snd x) w) (enumerate 0 ds) (snd (alloc n al w))"
    using run unfolding allocate_buffer_def xbind_Ret_iff by (auto split: prod.splits simp: case_prod_unfold)
  moreover have "cfg (fold (\<lambda>x w. wr (desc_at p (of_nat (fst x))) (snd x) w) (enumerate 0 ds) w1) = cfg w1" for w1
    by (rule fold_config) (rule wr)
  ultimately show ?thesis using assms(2) [of n al w] by simp
qed

lemma init_rx_config:
  assumes laws: "leaves_config ops cfg" and run: "init_rx ops com w = Ret (p, bs, w')"
  shows "cfg w' = cfg w"
proof -
  obtain ds bs' w1 w2 cs where 1: "rx_fill ops [0 ..< RX_DESC + 1] (replicate (RX_DESC + 1) rx_desc_default) (replicate RX_DESC 0) w = Ret (ds, bs', w1)"
    and 2: "allocate_buffer (heap_alloc ops) (rx_desc_write ops) ds w1 = Ret (p, w2)"
    and 3: "write_commands (mmio ops) com cs w2 = Ret w'"
    using run unfolding init_rx_def by (elim xbind_eq_RetE) (auto elim!: xbind_eq_RetE simp del: write_commands.simps rx_fill.simps)
  have "cfg w2 = cfg w1" using laws by (intro allocate_buffer_config [OF 2]) (simp_all add: leaves_config_def)
  then show ?thesis using rx_fill_config [OF laws 1] write_commands_config [OF laws 3] by simp
qed

lemma init_tx_config:
  assumes laws: "leaves_config ops cfg" and run: "init_tx ops com w = Ret (p, w')"
  shows "cfg w' = cfg w"
proof -
  obtain ds w2 cs where 2: "allocate_buffer (heap_alloc ops) (tx_desc_write ops) ds w = Ret (p, w2)"
    and 3: "write_commands (mmio ops) com cs w2 = Ret w'"
    using run unfolding init_tx_def Let_def by (elim xbind_eq_RetE) (auto elim!: xbind_eq_RetE simp del: write_commands.simps)
  have "cfg w2 = cfg w" using laws by (intro allocate_buffer_config [OF 2]) (simp_all add: leaves_config_def)
  then show ?thesis using write_commands_config [OF laws 3] by simp
qed

lemma e1000_init_config:
  assumes laws: "leaves_config ops cfg" and run: "e1000_init ops i bar offset q w = Ret (c, n, w')"
  shows "cfg w' = cfg w"
proof -
  let ?com = "coms_new bar offset"
  obtain v w1 w2 b w3 rx bs w4 tx where
    "read_command (mmio ops) ?com (reg_addr reg_STATUS) w = Ret (v, w1)" "write_command (mmio ops) ?com 0x0014 0x1 w1 = Ret w2"
    "detect_eeprom (mmio ops) ?com 1000 w2 = Ret (b, w3)" "init_rx ops ?com w3 = Ret (rx, bs, w4)"
    "init_tx ops ?com w4 = Ret (tx, w')"
    using run unfolding e1000_init_def Let_def register_read_def by (auto simp: xbind_Ret_iff)
  then show ?thesis
    using read_command_config [OF laws] write_command_config [OF laws] detect_eeprom_config [OF laws]
      init_rx_config [OF laws] init_tx_config [OF laws] by metis
qed

lemma enable_interrupts_config:
  assumes laws: "leaves_config ops cfg" and "enable_interrupts ops c w = Ret w'"
  shows "cfg w' = cfg w"
  using assms(2) unfolding enable_interrupts_def Let_def register_write_def register_write_raw_def
  by (auto simp: xbind_Ret_iff dest!: read_command_config [OF laws] write_command_config [OF laws])

lemma eeprom_wait_config:
  assumes laws: "leaves_config ops cfg"
  shows "eeprom_wait (mmio ops) com w = Some r \<Longrightarrow> \<forall>v w'. r = Ret (v, w') \<longrightarrow> cfg w' = cfg w"
proof -
  have "o' = mmio ops \<longrightarrow> (\<forall>v w'. r = Ret (v, w') \<longrightarrow> cfg w' = cfg w)" if "eeprom_wait o' com w = Some r" for o' com w r
    using that
  proof (rule eeprom_wait.raw_induct [rotated], intro impI allI)
    fix loop o' com w r v w'
    assume IH: "\<And>o' com w r. loop o' com w = Some r \<Longrightarrow>
        o' = mmio ops \<longrightarrow> (\<forall>v w'. r = Ret (v, w') \<longrightarrow> cfg w' = cfg w)"
      and body: "(case read_command o' com 0x0014 w of
          Ret r \<Rightarrow> if fst r AND push_bit 4 1 > 0 then Some (Ret r) else loop o' com (snd r)
        | Panic p \<Rightarrow> Some (Panic p)) = Some r"
      and o': "o' = mmio ops" and r: "r = Ret (v, w')"
    obtain v1 w1 where rd: "read_command o' com 0x0014 w = Ret (v1, w1)" using body r by (cases "read_command o' com 0x0014 w") auto
    have "cfg w1 = cfg w" using read_command_config [OF laws rd [unfolded o']] .
    then show "cfg w' = cfg w" using body IH [of o' com w1 r] o' r rd by (auto split: if_splits)
  qed
  then show "eeprom_wait (mmio ops) com w = Some r \<Longrightarrow> \<forall>v w'. r = Ret (v, w') \<longrightarrow> cfg w' = cfg w" by blast
qed

lemma read_eeprom_config:
  assumes laws: "leaves_config ops cfg" and "read_eeprom ops c a w = Some (Ret (v, w'))"
  shows "cfg w' = cfg w"
  using assms(2) unfolding read_eeprom_def
  by (auto simp: lbind_Ret_iff split: if_splits dest!: eeprom_wait_config [OF laws] write_command_config [OF laws])

lemma read_mac_address_config:
  assumes laws: "leaves_config ops cfg" and "read_mac_address ops c w = Some (Ret (m, w'))"
  shows "cfg w' = cfg w"
  using assms(2) unfolding read_mac_address_def
  by (auto simp: lbind_Ret_iff read_eeprom_config [OF laws] split: if_splits)

text \<open>Setting up a device sets the bus master bit of that device and changes nothing else.\<close>

lemma bus_master_config:
  assumes "pci_laws pops latch cfg"
  shows "cfg (enable_bus_mastering pops d w) =
    (cfg w)(pci_address (pd_bus d) (pd_slot d) (pd_func d) 4 := cfg w (pci_address (pd_bus d) (pd_slot d) (pd_func d) 4) OR 4)"
  using assms by (simp add: enable_bus_mastering_def Let_def split_def pci_laws_def config_address_def config_data_def pci_command_def)

lemma driver_new_config:
  assumes laws: "leaves_config ops cfg" and run: "e1000_driver_new pops ops i device offset w = Some (Ret (r, w'))"
  shows "cfg w' = cfg (enable_bus_mastering pops device w)"
proof (cases "pd_header_type device")
  case (Generic bs cis line)
  let ?w = "enable_bus_mastering pops device w"
  obtain q w1 where q: "op_queue_new (co_net ops) ?w = (q, w1)" by (cases "op_queue_new (co_net ops) ?w")
  obtain bar c n w2 w3 m where "e1000_init ops i bar offset \<lparr>pqr_queue = q\<rparr> w1 = Ret (c, n, w2)"
    "enable_interrupts ops c w2 = Ret w3" "read_mac_address ops c w3 = Some (Ret (m, w'))"
    using run unfolding e1000_driver_new_def Let_def create_packetqueue_def by (simp add: Generic q lbind_Ret_iff) blast
  moreover have "cfg w1 = cfg ?w" using laws unfolding leaves_config_def by (metis q snd_conv)
  ultimately show ?thesis
    using e1000_init_config [OF laws] enable_interrupts_config [OF laws] read_mac_address_config [OF laws] by metis
next
  case (Header_Unknown n)
  then show ?thesis using run by (simp add: e1000_driver_new_def Let_def)
qed

lemma setup_device_config:
  assumes "leaves_config ops cfg" and "setup_device pops ops offset i device w = Some (Ret (r, w'))"
  shows "cfg w' = cfg w \<or> cfg w' = cfg (enable_bus_mastering pops device w)"
  using assms(2) unfolding setup_device_def e1000_mac_address_def
  by (auto simp: lbind_Ret_iff read_mac_address_config [OF assms(1)] driver_new_config [OF assms(1)] split: if_splits option.splits)

section \<open>The devices found\<close>

text \<open>The places of the supported cards among the devices present, counted from \<open>i\<close>.\<close>

definition card_places :: "(u32 \<Rightarrow> u32) \<Rightarrow> nat \<Rightarrow> (u8 \<times> u8) list \<Rightarrow> nat list" where
  "card_places c i slots =
     map fst (filter (supported \<circ> snd) (enumerate i (map (device_view c) (filter (device_present c) slots))))"

lemma card_places_Cons:
  "card_places c i (s # slots) =
     (if device_present c s
      then (if supported (device_view c s) then [i] else []) @ card_places c (Suc i) slots
      else card_places c i slots)"
  by (simp add: card_places_def)

lemma card_places_sorted: "sorted_wrt (<) (card_places c i slots) \<and> (\<forall>k \<in> set (card_places c i slots). i \<le> k)"
  by (induction slots arbitrary: i) (auto simp: card_places_Cons card_places_def [of c _ "[]"] dest!: Suc_leD intro!: le_SucI,
      fastforce+)

lemma card_places_cong:
  "(\<And>s. s \<in> set slots \<Longrightarrow> device_view c s = device_view c' s \<and> device_present c s = device_present c' s) \<Longrightarrow>
    card_places c i slots = card_places c' i slots"
  by (induction slots arbitrary: i) (simp_all add: card_places_Cons card_places_def [of _ _ "[]"])

lemma device_view_place:
  "pd_bus (device_view c s) = fst s" "pd_slot (device_view c s) = snd s" "pd_func (device_view c s) = 0"
  by (simp_all add: device_view_def Let_def)

lemma device_view_frame:
  assumes "unat s0 < 32" and "unat s < 32" and "(b, s) \<noteq> (b0, s0)"
  shows "device_view (c(pci_address b0 s0 0 r := v)) (b, s) = device_view c (b, s)"
    and "device_present (c(pci_address b0 s0 0 r := v)) (b, s) = device_present c (b, s)"
proof -
  have "pci_address b s 0 k \<noteq> pci_address b0 s0 0 r" for k
    using assms pci_address_inject [of s 0 s0 0 b k b0 r] by auto
  then have byte: "cfg_byte (c(pci_address b0 s0 0 r := v)) b s = cfg_byte c b s"
    and d: "(c(pci_address b0 s0 0 r := v)) (pci_address b s 0 k) = c (pci_address b s 0 k)" for k
    by (auto simp: cfg_byte_def)
  then have word: "cfg_word (c(pci_address b0 s0 0 r := v)) b s = cfg_word c b s" by (auto simp: cfg_word_def)
  show "device_view (c(pci_address b0 s0 0 r := v)) (b, s) = device_view c (b, s)"
    and "device_present (c(pci_address b0 s0 0 r := v)) (b, s) = device_present c (b, s)"
    unfolding device_view_def device_present_def fst_conv snd_conv byte word d by (rule refl)+
qed

lemma setup_slots_run:
  assumes laws: "pci_laws pops latch cfg" "leaves_config ops cfg" and off: "offset_ok offset"
    and "setup_slots pops ops offset i slots w = Some (Ret (rs, w'))"
    and "distinct slots" and "\<forall>(b, s) \<in> set slots. unat s < 32"
  shows "list_all2 (pair_ok ops) (card_places (cfg w) i slots) rs"
  using assms(4-)
proof (induction slots arbitrary: i w rs)
  case Nil
  then show ?case by (simp add: card_places_def)
next
  case (Cons x slots)
  obtain b s where x: "x = (b, s)" by (cases x)
  obtain r w1 where ld: "load_device pops b s w = (r, w1)" by (cases "load_device pops b s w")
  have r: "r = (if device_present (cfg w) x then Some (device_view (cfg w) x) else None)" and c1: "cfg w1 = cfg w"
    using load_device_eq [OF laws(1), of b s w] by (simp_all add: ld x)
  have sub: "distinct slots" "\<forall>(b, s) \<in> set slots. unat s < 32" using Cons.prems(2,3) by auto
  show ?case
  proof (cases "device_present (cfg w) x")
    case False
    then show ?thesis using Cons.IH [OF _ sub, of i w1 rs] Cons.prems(1) r ld c1 by (simp add: x card_places_Cons)
  next
    case True
    let ?d = "device_view (cfg w) x"
    obtain d w2 rs' where dev: "setup_device pops ops offset i ?d w1 = Some (Ret (d, w2))"
      and rest: "setup_slots pops ops offset (Suc i) slots w2 = Some (Ret (rs', w'))"
      and rs: "rs = (case d of None \<Rightarrow> rs' | Some p \<Rightarrow> p # rs')"
      using Cons.prems(1) r ld True by (auto simp: x lbind_Ret_iff)
    have cfg: "cfg w2 = cfg w \<or> (\<exists>v. cfg w2 = (cfg w)(pci_address b s 0 4 := v))"
      using setup_device_config [OF laws(2) dev] by (auto simp: bus_master_config [OF laws(1)] c1 device_view_place x)
    have "device_view (cfg w2) y = device_view (cfg w) y \<and> device_present (cfg w2) y = device_present (cfg w) y"
      if y: "y \<in> set slots" for y
    proof -
      obtain b' s' where y': "y = (b', s')" by (cases y)
      have "unat s < 32" "unat s' < 32" "(b', s') \<noteq> (b, s)" using Cons.prems(2,3) y by (auto simp: x y')
      note frame = device_view_frame [OF this]
      show ?thesis using cfg by (auto simp: y' frame)
    qed
    then have "card_places (cfg w2) (Suc i) slots = card_places (cfg w) (Suc i) slots"
      by (rule card_places_cong)
    then have "list_all2 (pair_ok ops) (card_places (cfg w) (Suc i) slots) rs'"
      using Cons.IH [OF rest sub] by simp
    then show ?thesis
      using setup_device_post [OF dev off] True by (cases d) (simp_all add: card_places_Cons rs)
  qed
qed

section \<open>Interrupts after the setup\<close>

definition cards_ok :: "'w net_statics \<Rightarrow> nat list \<Rightarrow> bool" where
  "cards_ok ns ids \<longleftrightarrow> ns_handle_queue ns \<and>
     (\<exists>cards. ns_int_devices ns = Some (Some cards) \<and> list_all card_inv cards \<and> map ec_id cards = ids)"

lemma network_interrupt_ok:
  assumes ok: "cards_ok ns ids" and run: "network_interrupt ops iops ns w = Some r"
  shows "(\<exists>ns' w'. r = Ret (ns', w') \<and> cards_ok ns' ids) \<or> r = Panic UnwrapFailed"
proof -
  obtain cards where cards: "ns_int_devices ns = Some (Some cards)" "list_all card_inv cards" "map ec_id cards = ids"
    and ready: "ns_handle_queue ns" using ok by (auto simp: cards_ok_def)
  obtain r' where r': "net_handle_interrupt e1000_handles_interrupt (e1000_handle_interrupt ops) True (Some (Some cards)) w = Some r'"
    using run by (cases "net_handle_interrupt e1000_handles_interrupt (e1000_handle_interrupt ops) True (Some (Some cards)) w")
      (auto simp: network_interrupt_def cards ready)
  from e1000.interrupt_ok [OF cards(2) this] show ?thesis
    using run r' by (auto simp: network_interrupt_def cards ready cards_ok_def)
qed

lemma collect_queues_distinct:
  "distinct (map nd_id devs) \<Longrightarrow> collect_queues devs = map_of (map (\<lambda>d. (nd_id d, nd_packet_queue d)) devs)"
  unfolding collect_queues_def by (subst map_of_inject_set) (simp_all add: comp_def flip: rev_map)

lemma pair_list:
  assumes "list_all2 (pair_ok ops) ks rs"
  shows "map (ec_id \<circ> snd) rs = ks" and "map (nd_id \<circ> fst) rs = ks" and "list_all (card_inv \<circ> snd) rs"
    and "list_all (\<lambda>(d, c). nm_ip (nd_metadata d) = None \<and> nm_dhcp (nd_metadata d) = Ex_Initial \<and>
      pqs_queue (nd_packet_queue d) = pqr_queue (ec_packet_queue c) \<and>
      pqs_notify (nd_packet_queue d) = send_notify ops (ec_com c)) rs"
  using assms by (induction rule: list_all2_induct) (auto simp: pair_ok_def split: prod.splits)

section \<open>Properties\<close>

text \<open>
  C9: when the setup of the network extension comes back, it has brought up exactly the supported cards among the
  PCI devices present, each under its place in the enumeration: the handler gets their device records, without
  an address and before the DHCP exchange, each with the sending end of the queue its card receives from and
  the notify closure of that card; the same senders are published under the same numbers; the network
  vector is installed and its line unmasked. Every network interrupt after that keeps the cards' rings in order, or
  panics on a packet buffer that is not mapped.
\<close>

theorem network_setup_exact:
  assumes "pci_laws pops latch cfg" and "leaves_config ops cfg" and "idt_laws iops vec masks" and "offset_ok offset"
    and "intr_inv st" and "storage_idt iops (is_idt st) st = Ret t"
    and "network_setup pops ops iops (Some offset)
      \<lparr>ns_int_devices = None, ns_device_queues = None, ns_handle_queue = False, ns_ips = None\<rparr> st = Some (Ret (fut, ns, st'))"
  shows "\<exists>devs t'. fut = Network_Handler devs \<and> map nd_id devs = card_places (cfg (is_world st)) 0 pci_slots \<and>
    list_all (\<lambda>d. nm_ip (nd_metadata d) = None \<and> nm_dhcp (nd_metadata d) = Ex_Initial) devs \<and>
    (\<exists>cards. ns_int_devices ns = Some (Some cards) \<and>
       list_all2 (\<lambda>d c. ec_id c = nd_id d \<and> pqs_queue (nd_packet_queue d) = pqr_queue (ec_packet_queue c) \<and>
         pqs_notify (nd_packet_queue d) = send_notify ops (ec_com c)) devs cards) \<and>
    network_handle_obtain ns = Some \<lparr>nh_queues = map_of (map (\<lambda>d. (nd_id d, nd_packet_queue d)) devs)\<rparr> \<and>
    storage_idt iops (is_idt st') st' = Ret t' \<and> vec t' = (vec t)(43 \<mapsto> Driver_Handler Network_Interrupt) \<and>
    \<not> line_masked (masks (is_world st')) 11 \<and>
    (\<forall>w r. network_interrupt ops iops ns w = Some r \<longrightarrow>
       (\<exists>ns' w'. r = Ret (ns', w') \<and> cards_ok ns' (map nd_id devs)) \<or> r = Panic UnwrapFailed)"
proof -
  let ?places = "card_places (cfg (is_world st)) 0 pci_slots"
  obtain rs w where rs: "setup_slots pops ops offset 0 pci_slots (is_world st) = Some (Ret (rs, w))"
    and set: "set_interrupt iops 43 Network_Interrupt (st\<lparr>is_world := w\<rparr>) = Ret st'"
    and fut: "fut = Network_Handler (map fst rs)"
    and ns: "ns = \<lparr>ns_int_devices = Some (Some (map snd rs)), ns_device_queues = Some (collect_queues (map fst rs)),
      ns_handle_queue = True, ns_ips = Some ip_map_new\<rparr>"
    using assms(7) by (auto simp: network_setup_def lbind_Ret_iff Let_def init_devices_def call_once_def PIC_1_OFFSET_def)
  have ok: "list_all2 (pair_ok ops) ?places rs"
    using set_pci_slots distinct_pci_slots by (intro setup_slots_run [OF assms(1,2,4) rs]) auto
  note rsd = pair_list [OF ok]
  have inv: "intr_inv (st\<lparr>is_world := w\<rparr>)" "storage_idt iops (is_idt st) (st\<lparr>is_world := w\<rparr>) = Ret t"
    using assms(5,6) by (simp_all add: intr_inv_def) (cases "is_idt st"; simp)
  obtain st1 t' where "set_interrupt iops 43 Network_Interrupt (st\<lparr>is_world := w\<rparr>) = Ret st1" and "intr_inv st1"
    and t': "storage_idt iops (is_idt st1) st1 = Ret t'" "vec t' = (vec t)(43 \<mapsto> Driver_Handler Network_Interrupt)"
    and "is_enabled st1 = is_enabled (st\<lparr>is_world := w\<rparr>)"
    and m: "masks (is_world st1) = unmask_line (43 - 32) (masks (is_world (st\<lparr>is_world := w\<rparr>)))"
    by (rule set_interrupt_run [OF assms(3) inv(1), where line = 43 and t = t and h = Network_Interrupt]) (use inv(2) in simp_all)
  then have st1: "st1 = st'" using set by simp
  have "sorted_wrt (<) ?places" using card_places_sorted by blast
  then have "distinct ?places" by (simp add: strict_sorted_iff)
  then have "distinct (map nd_id (map fst rs))" using rsd(2) by (simp add: comp_def)
  note queues = collect_queues_distinct [OF this]
  have "cards_ok ns ?places" using rsd(1,3) by (simp add: cards_ok_def ns comp_def list_all_iff)
  note later = network_interrupt_ok [OF this]
  have masked: "\<not> line_masked (masks (is_world st')) 11" using m st1 unmask_line_masked [of 11 11] by simp
  show ?thesis
  proof (intro exI [of _ "map fst rs"] exI [of _ t'] conjI)
    show "list_all (\<lambda>d. nm_ip (nd_metadata d) = None \<and> nm_dhcp (nd_metadata d) = Ex_Initial) (map fst rs)"
      using rsd(4) by (auto simp: list_all_iff)
    show "\<exists>cards. ns_int_devices ns = Some (Some cards) \<and>
       list_all2 (\<lambda>d c. ec_id c = nd_id d \<and> pqs_queue (nd_packet_queue d) = pqr_queue (ec_packet_queue c) \<and>
         pqs_notify (nd_packet_queue d) = send_notify ops (ec_com c)) (map fst rs) cards"
      using rsd(4) rsd(1,2)
      by (intro exI [of _ "map snd rs"]) (auto simp: ns list_all2_conv_all_nth list_all_length map_eq_conv list_eq_iff_nth_eq split: prod.splits)
    show "\<forall>w r. network_interrupt ops iops ns w = Some r \<longrightarrow>
       (\<exists>ns' w'. r = Ret (ns', w') \<and> cards_ok ns' (map nd_id (map fst rs))) \<or> r = Panic UnwrapFailed"
      using later [of ops iops] unfolding rsd(2) [unfolded comp_def] map_map comp_def by blast
  qed (simp_all add: fut ns network_handle_obtain_def queues t' st1 [symmetric] rsd(2) [unfolded comp_def] comp_def
    masked [folded st1])
qed

section \<open>A machine with one card\<close>

text \<open>A configuration space and the masks of the controllers; the card's registers always read the same.\<close>

type_synonym pc_world = "pci_world \<times> u8 \<times> u8"

definition pc_ports :: "pc_world port_ops" where
  "pc_ports = \<lparr>port_write = (\<lambda>p v w. (port_write table_ops p v (fst w), snd w)),
     port_read = (\<lambda>p w. (fst (port_read table_ops p (fst w)), snd (port_read table_ops p (fst w)), snd w))\<rparr>"

definition pc_net :: "pc_world net_ops" where
  "pc_net = \<lparr>op_queue_new = (\<lambda>w. (7, w)), op_enqueue = (\<lambda>_ _ w. (Some (), w)), op_try_dequeue = (\<lambda>_ w. (None, w)),
     op_msg_enqueue = (\<lambda>_ w. (Some (), w)), op_arp_new = (\<lambda>w. (0, w)), op_arp_try_enqueue = (\<lambda>_ _ w. (Some (), w)),
     op_udp_try_enqueue = (\<lambda>_ _ w. (Some (), w)), op_wake = (\<lambda>_ w. w)\<rparr>"

definition pc_card :: "pc_world card_ops" where
  "pc_card = \<lparr>mmio_write = (\<lambda>_ _ w. w), mmio_read = (\<lambda>_ w. (0x12340010, w)), co_net = pc_net,
     rx_desc_read = (\<lambda>_ w. (rx_desc_default, w)), rx_desc_write = (\<lambda>_ _ w. w), tx_desc_read = (\<lambda>_ w. (tx_desc_default, w)),
     tx_desc_write = (\<lambda>_ _ w. w), mem_slice = (\<lambda>_ n _. replicate n 0), box_into_raw = (\<lambda>_ w. (0x2000, w)),
     box_drop = (\<lambda>_ w. w), heap_alloc = (\<lambda>_ _ w. (0x1000, w)), mapping_ready = (\<lambda>_. True), translate_addr = (\<lambda>a _. Some a)\<rparr>"

definition pc_idt :: "(driver_entry, nat \<Rightarrow> driver_entry handler option, pc_world) idt_ops" where
  "pc_idt = table_idt_ops snd (\<lambda>m w. (fst w, m))"

lemma pc_laws:
  "pci_laws pc_ports (fst \<circ> fst) (snd \<circ> fst)" "leaves_config pc_card (snd \<circ> fst)" "idt_laws pc_idt (\<lambda>t. t) snd"
  using table_ops_laws table_idt_ops_laws [of snd "\<lambda>m w. (fst w, m)"]
  by (simp_all add: pci_laws_def pc_ports_def leaves_config_def pc_card_def pc_net_def pc_idt_def)

lemma pc_com:
  assumes "com_ok com"
  shows "write_command (mmio pc_card) com r v w = Ret w" and "read_command (mmio pc_card) com r w = Ret (0x12340010, w)"
  by (simp_all add: write_command_eq [OF assms] read_command_eq [OF assms] mmio_def pc_card_def)

lemma pc_mem [simp]:
  "phys_addr pc_card a w = Ret a" "box_into_raw pc_card b w = (0x2000, w)" "op_queue_new (co_net pc_card) w = (7, w)"
  "rx_desc_write pc_card a d w = w" "tx_desc_write pc_card a e w = w"
  by (simp_all add: pc_card_def phys_addr_def pc_net_def)

lemma pc_write_commands: "com_ok com \<Longrightarrow> write_commands (mmio pc_card) com cs w = Ret w"
  by (induction cs) (auto simp: pc_com)

lemma pc_rx_fill: "\<exists>ds' bs'. rx_fill pc_card is ds bs w = Ret (ds', bs', w)"
  by (induction "is" arbitrary: ds bs) (simp_all add: Let_def)

lemma fold_id: "(\<And>x w. x \<in> set xs \<Longrightarrow> f x w = w) \<Longrightarrow> fold f xs w = w"
  by (induction xs) simp_all

lemma pc_allocate:
  assumes "length ds \<le> 100" and "\<And>a d w. wr a d w = w"
  shows "allocate_buffer (heap_alloc pc_card) wr ds w = Ret (0x1000, w)"
  using assms by (simp add: allocate_buffer_def layout_from_size_align_def desc_size_def pc_card_def fold_id case_prod_unfold)

lemma pc_init:
  assumes com: "com_ok (coms_new bar offset)"
  shows "\<exists>c n. e1000_init pc_card i bar offset q w = Ret (c, n, w) \<and> ec_has_eeprom c \<and> ec_com c = coms_new bar offset"
proof -
  obtain ds bs where rx: "rx_fill pc_card [0 ..< RX_DESC + 1] (replicate (RX_DESC + 1) rx_desc_default) (replicate RX_DESC 0) w = Ret (ds, bs, w)"
    using pc_rx_fill by blast
  have "length ds \<le> 100" using rx_fill_length [OF rx] by (simp add: RX_DESC_def)
  then have "init_rx pc_card (coms_new bar offset) w = Ret (0x1000, bs, w)"
    unfolding init_rx_def rx xbind.simps prod.case by (simp add: pc_allocate pc_write_commands [OF com] del: write_commands.simps)
  moreover have "init_tx pc_card (coms_new bar offset) w = Ret (0x1000, w)"
    by (simp add: init_tx_def Let_def pc_allocate pc_write_commands [OF com] TX_DESC_def del: write_commands.simps)
  moreover have "detect_eeprom (mmio pc_card) (coms_new bar offset) (Suc n) w = Ret (True, w)" for n
    by (simp add: pc_com [OF com])
  ultimately show ?thesis
    by (simp add: e1000_init_def Let_def register_read_def pc_com [OF com] numeral_eq_Suc)
qed

lemma pc_eeprom_wait: "com_ok com \<Longrightarrow> eeprom_wait (mmio pc_card) com w = Some (Ret (0x12340010, w))"
  by (subst eeprom_wait.simps) (simp add: pc_com)

lemma pc_card_ready:
  assumes "com_ok (ec_com c)" and "ec_has_eeprom c"
  shows "enable_interrupts pc_card c w = Ret w" and "\<exists>m. read_mac_address pc_card c w = Some (Ret (m, w))"
  using assms(2)
  by (simp_all add: enable_interrupts_def Let_def register_write_def register_write_raw_def pc_com [OF assms(1)]
      read_mac_address_def read_eeprom_def pc_eeprom_wait [OF assms(1)])

lemma pc_setup_device:
  assumes "gh_id (pd_generic d) = 0x100E" "gh_vendor_id (pd_generic d) = 0x8086" and "pd_header_type d = Generic (bar # bs) cis line"
    and com: "com_ok (coms_new bar offset)"
  shows "\<exists>p. setup_device pc_ports pc_card offset i d w = Some (Ret (Some p, enable_bus_mastering pc_ports d w))"
proof -
  let ?w = "enable_bus_mastering pc_ports d w"
  obtain c n where c: "e1000_init pc_card i bar offset \<lparr>pqr_queue = 7\<rparr> ?w = Ret (c, n, ?w)" "ec_has_eeprom c" "com_ok (ec_com c)"
    using pc_init [OF com, of i "\<lparr>pqr_queue = 7\<rparr>" ?w] com by auto
  obtain m where m: "read_mac_address pc_card c ?w = Some (Ret (m, ?w))" using pc_card_ready(2) [OF c(3,2)] by blast
  show ?thesis
    by (simp add: setup_device_def assms(1-3) e1000_driver_new_def Let_def index_at_def create_packetqueue_def c(1) m
        pc_card_ready(1) [OF c(3,2)] e1000_mac_address_def)
qed

lemma pc_masks:
  "snd (snd (load_device pc_ports b s w)) = snd w" "snd (enable_bus_mastering pc_ports d w) = snd w"
  by (simp_all add: load_device_def load_header_type_def pci_read_word_def pci_read_32bit_def enable_bus_mastering_def
      pc_ports_def Let_def split_def)

lemma pc_skip_slots:
  assumes "\<And>s. s \<in> set xs \<Longrightarrow> \<not> device_present (snd (fst w)) s"
  shows "\<exists>w'. snd (fst w') = snd (fst w) \<and> snd w' = snd w \<and>
    setup_slots pc_ports pc_card offset i (xs @ ys) w = setup_slots pc_ports pc_card offset i ys w'"
  using assms
proof (induction xs arbitrary: w)
  case (Cons x xs)
  obtain b s where x: "x = (b, s)" by (cases x)
  obtain r w1 where ld: "load_device pc_ports b s w = (r, w1)" by (cases "load_device pc_ports b s w")
  have w1: "snd (fst w1) = snd (fst w)" "snd w1 = snd w" "r = None"
    using load_device_eq [OF pc_laws(1), of b s w] pc_masks(1) [of b s w] Cons.prems [of x] by (simp_all add: ld x)
  have "\<not> device_present (snd (fst w1)) s" if "s \<in> set xs" for s using Cons.prems that w1 by simp
  from Cons.IH [OF this] obtain w' where "snd (fst w') = snd (fst w1)" "snd w' = snd w1"
    "setup_slots pc_ports pc_card offset i (xs @ ys) w1 = setup_slots pc_ports pc_card offset i ys w'" by blast
  then show ?case using w1 by (intro exI [of _ w']) (simp add: x ld)
qed auto

lemma one_card_alone:
  assumes "unat s < 32" and "(b, s) \<noteq> (0, 3)"
  shows "\<not> device_present one_card (b, s)"
proof -
  have "pci_address b s 0 0 \<noteq> pci_address 0 3 0 k" for k using assms pci_address_inject [of s 0 3 0 b 0 0 k] by auto
  then show ?thesis by (simp add: device_present_def vendor_word one_card_def)
qed

lemma one_card_view:
  "gh_id (pd_generic (device_view one_card (0, 3))) = 0x100E" "gh_vendor_id (pd_generic (device_view one_card (0, 3))) = 0x8086"
  "\<exists>bs cis line. pd_header_type (device_view one_card (0, 3)) = Generic (MemorySpace 0xFEBC0000 False 0 # bs) cis line"
  by (simp_all add: device_view_def Let_def cfg_regs) (simp_all add: one_card_def pci_address_def bar_from_def)

lemma one_card_slots:
  obtains xs ys where "pci_slots = xs @ (0, 3) # ys" and "\<forall>s \<in> set xs \<union> set ys. \<not> device_present one_card s"
    and "\<forall>s \<in> set xs \<union> set ys. unat (snd s) < 32 \<and> s \<noteq> (0, 3)"
proof -
  have "(0, 3) \<in> set pci_slots" by (simp add: set_pci_slots)
  then obtain xs ys where eq: "pci_slots = xs @ (0, 3) # ys" by (meson split_list)
  have other: "\<forall>s \<in> set xs \<union> set ys. unat (snd s) < 32 \<and> s \<noteq> (0, 3)"
  proof
    fix s assume s: "s \<in> set xs \<union> set ys"
    then have "(fst s, snd s) \<in> set pci_slots" by (simp add: eq)
    then have "unat (snd s) < 32" unfolding set_pci_slots by simp
    moreover have "s \<noteq> (0, 3)" using s distinct_pci_slots unfolding eq by auto
    ultimately show "unat (snd s) < 32 \<and> s \<noteq> (0, 3)" ..
  qed
  then have "\<forall>s \<in> set xs \<union> set ys. \<not> device_present one_card s"
    using one_card_alone by (metis prod.collapse)
  with eq other show ?thesis by (intro that)
qed

lemma pc_places: "card_places one_card 0 pci_slots = [0]"
proof -
  obtain xs ys where slots: "pci_slots = xs @ (0, 3) # ys" and absent: "\<forall>s \<in> set xs \<union> set ys. \<not> device_present one_card s"
    by (rule one_card_slots)
  have "filter (device_present one_card) xs = []" "filter (device_present one_card) ys = []"
    using absent by (simp_all add: filter_empty_conv)
  then have "filter (device_present one_card) pci_slots = [(0, 3)]"
    unfolding slots using one_card_present by simp
  moreover have "supported (device_view one_card (0, 3))" using one_card_view by (auto simp: supported_def)
  ultimately show ?thesis by (simp add: card_places_def)
qed

lemma pc_setup_slots:
  assumes w: "snd (fst w) = one_card"
  shows "\<exists>p w'. setup_slots pc_ports pc_card 0x18000000000 0 pci_slots w = Some (Ret ([p], w'))"
proof -
  let ?offset = "0x18000000000 :: u64"
  obtain xs ys where slots: "pci_slots = xs @ (0, 3) # ys" and absent: "\<forall>s \<in> set xs \<union> set ys. \<not> device_present one_card s"
    and other: "\<forall>s \<in> set xs \<union> set ys. unat (snd s) < 32 \<and> s \<noteq> (0, 3)"
    by (rule one_card_slots)
  have "\<not> device_present (snd (fst w)) s" if "s \<in> set xs" for s using absent that by (simp add: w)
  from pc_skip_slots [OF this, where offset = ?offset and i = 0 and ys = "(0, 3) # ys"] obtain w1 where w1: "snd (fst w1) = one_card"
    and eq: "setup_slots pc_ports pc_card ?offset 0 pci_slots w = setup_slots pc_ports pc_card ?offset 0 ((0, 3) # ys) w1"
    unfolding slots w by blast
  obtain w2 where ld: "load_device pc_ports 0 3 w1 = (Some (device_view one_card (0, 3)), w2)" and w2: "snd (fst w2) = one_card"
    using load_device_eq [OF pc_laws(1), of 0 3 w1] one_card_present w1
    by (cases "load_device pc_ports 0 3 w1") simp
  obtain bs cis line where header: "pd_header_type (device_view one_card (0, 3)) = Generic (MemorySpace 0xFEBC0000 False 0 # bs) cis line"
    using one_card_view(3) by blast
  have com: "com_ok (coms_new (MemorySpace 0xFEBC0000 False 0) ?offset)" by (simp add: com_ok_def coms_new_def)
  obtain p where p: "setup_device pc_ports pc_card ?offset 0 (device_view one_card (0, 3)) w2 =
      Some (Ret (Some p, enable_bus_mastering pc_ports (device_view one_card (0, 3)) w2))"
    using pc_setup_device [OF one_card_view(1,2) header com] by blast
  let ?w3 = "enable_bus_mastering pc_ports (device_view one_card (0, 3)) w2"
  have w3: "snd (fst ?w3) = one_card(pci_address 0 3 0 4 := one_card (pci_address 0 3 0 4) OR 4)"
    using bus_master_config [OF pc_laws(1), of "device_view one_card (0, 3)" w2] w2 by (simp add: device_view_place)
  have "\<not> device_present (snd (fst ?w3)) s" if s: "s \<in> set ys" for s
  proof -
    have "unat (snd s) < 32" "(fst s, snd s) \<noteq> (0, 3)" "\<not> device_present one_card (fst s, snd s)" using other absent s by auto
    then show ?thesis using device_view_frame(2) [of 3 "snd s" "fst s" 0 one_card 4] unfolding w3 by simp
  qed
  from pc_skip_slots [OF this, where offset = ?offset and i = 1 and ys = "[]"]
  obtain w4 where "setup_slots pc_ports pc_card ?offset 1 ys ?w3 = Some (Ret ([], w4))"
    unfolding append_Nil2 setup_slots.simps(1) by blast
  then have "setup_slots pc_ports pc_card ?offset 0 pci_slots w = Some (Ret ([p], w4))" by (simp add: eq ld p)
  then show ?thesis by blast
qed

theorem network_setup_exact_witness:
  "\<exists>st0 fut ns st' d. lib_init pc_idt (intr_boot ((0, one_card), 0xff, 0xff)) = Ret st0 \<and>
    network_setup pc_ports pc_card pc_idt (Some 0x18000000000)
      \<lparr>ns_int_devices = None, ns_device_queues = None, ns_handle_queue = False, ns_ips = None\<rparr> st0 = Some (Ret (fut, ns, st')) \<and>
    fut = Network_Handler [d] \<and> nd_id d = 0 \<and> \<not> line_masked (snd (is_world st')) 11"
proof -
  obtain t where t: "INITIAL_IDT pc_idt = Ret t" by (rule initial_idt_vectors [OF pc_laws(3)])
  obtain g where g: "\<forall>w. gdt_init pc_idt w = Ret (load_tss pc_idt 24 (set_cs pc_idt 8 (gdt_load pc_idt g w)))"
    using gdt_init_law [OF pc_laws(3)] ..
  obtain st0 where st0: "lib_init pc_idt (intr_boot ((0, one_card), 0xff, 0xff)) = Ret st0" "intr_inv st0"
    "is_idt st0 = Initial" "is_world st0 = ((0, one_card), 0xff, 0xff)"
    by (simp add: lib_init_def g intr_boot_def init_idt_def storage_load_def t intr_inv_def Let_def)
      (simp add: pc_idt_def table_idt_ops_def configure_pit_def Let_def)
  let ?ns = "\<lparr>ns_int_devices = None, ns_device_queues = None, ns_handle_queue = False, ns_ips = None\<rparr>"
  obtain p w' where p: "setup_slots pc_ports pc_card 0x18000000000 0 pci_slots (is_world st0) = Some (Ret ([p], w'))"
    using pc_setup_slots [of "is_world st0"] st0(4) by auto
  have table: "storage_idt pc_idt (is_idt st0) st0 = Ret t" by (simp add: st0(3) t)
  have "intr_inv (st0\<lparr>is_world := w'\<rparr>)" using st0(2) by (simp add: intr_inv_def)
  then obtain st' where "set_interrupt pc_idt 43 Network_Interrupt (st0\<lparr>is_world := w'\<rparr>) = Ret st'"
    by (rule set_interrupt_run [OF pc_laws(3), where line = 43 and t = t]) (simp_all add: st0(3) t)
  then obtain fut ns where run: "network_setup pc_ports pc_card pc_idt (Some 0x18000000000) ?ns st0 = Some (Ret (fut, ns, st'))"
    by (simp add: network_setup_def p Let_def PIC_1_OFFSET_def)
  from network_setup_exact [OF pc_laws _ st0(2) table run] show ?thesis
    using st0(1,4) run pc_places by (auto simp: offset_ok_def)
qed

end
