(* ===== verification/Net_Wire.thy ===== *)
theory Net_Wire
  imports Net_Setup
begin

text \<open>
  The driver and the handler together: frames the card has received are taken off the receive ring by the
  interrupt, answered by the handler's task, and the answers are on the transmit ring after the interrupt
  the handler raised. Between the two interrupts the card may change its registers.
\<close>

section \<open>What the parts share\<close>

text \<open>The memory of the card, and packet queues an enqueue appends to.\<close>

definition wire_laws :: "'w card_ops \<Rightarrow> ('w \<Rightarrow> card_mem) \<Rightarrow> (u64 \<Rightarrow> u64) \<Rightarrow> bool" where
  "wire_laws ops view phys \<longleftrightarrow> card_laws ops view phys \<and>
     (\<forall>q p w. view (snd (op_enqueue (co_net ops) q p w)) =
        (view w)\<lparr>cm_queue := (cm_queue (view w))(q := cm_queue (view w) q @ [p])\<rparr>)"

text \<open>A device record and the card it was made for, as the set-up pairs them.\<close>

definition paired :: "'w card_ops \<Rightarrow> e1000_card \<Rightarrow> 'w network_device \<Rightarrow> bool" where
  "paired ops c d \<longleftrightarrow> pqs_queue (nd_packet_queue d) = pqr_queue (ec_packet_queue c) \<and>
     pqs_notify (nd_packet_queue d) = send_notify ops (ec_com c)"

text \<open>
  The card raises the interrupt asked for through its cause set register, which is what that register is
  for, with nothing left to send.
\<close>

definition card_raises :: "e1000_card \<Rightarrow> card_mem \<Rightarrow> card_mem \<Rightarrow> bool" where
  "card_raises c v v' \<longleftrightarrow>
     (\<exists>regs. v' = v\<lparr>cm_regs := regs\<rparr> \<and> regs (reg_target (ec_com c) 0xc0) = cm_regs v (reg_target (ec_com c) 0xc8) \<and>
        regs (reg_target (ec_com c) REG_TXDESCHEAD) = regs (reg_target (ec_com c) REG_TXDESCTAIL))"

text \<open>The frame in a receive descriptor, requests for the address of a device, and their answers.\<close>

definition rx_packet :: "e1000_card \<Rightarrow> card_mem \<Rightarrow> nat \<Rightarrow> eth_packet" where
  "rx_packet c v j =
     eth_packet_new (buffer_new (cm_slice v (ec_rx_buffers c ! unat (rx_index c j)) (unat (rd_length (rx_at c v j)))))"

definition arp_request_to :: "'w network_device \<Rightarrow> eth_packet \<Rightarrow> arp_packet \<Rightarrow> bool" where
  "arp_request_to d p a \<longleftrightarrow> addressed_to p d \<and> eth_ether_type p = Ret Eth_Arp \<and> arp_packet_new p = Ret (Some a) \<and>
     arp_packet_operation a = Arp_Request \<and> nm_ip (nd_metadata d) = Some (arp_packet_dest_ip a)"

definition arp_reply :: "'w network_device \<Rightarrow> arp_packet \<Rightarrow> eth_packet" where
  "arp_reply d a = arp_sent 2 (nm_mac (nd_metadata d)) (arp_packet_dest_ip a) (arp_src_mac a) (arp_src_ip a)"

text \<open>Answers to the requests \<open>as\<close> in the transmit ring, in order, with the tail behind the last.\<close>

definition answered :: "(u64 \<Rightarrow> u64) \<Rightarrow> e1000_card \<Rightarrow> 'w network_device \<Rightarrow> arp_packet list \<Rightarrow> card_mem \<Rightarrow> bool" where
  "answered phys c d as v \<longleftrightarrow>
     cm_regs v (reg_target (ec_com c) REG_TXDESCTAIL) = tx_index c (length as) \<and>
     (\<forall>j < length as. \<exists>ptr r b. td_addr (tx_at c v j) = phys ptr \<and>
        td_length (tx_at c v j) = of_nat (buf_len (eth_buffer r)) \<and> cm_boxes v ptr = Some (buf_data (eth_buffer r)) \<and>
        eth_destination_mac r = Ret (arp_src_mac (as ! j)) \<and> arp_packet_new r = Ret (Some b) \<and>
        arp_packet_operation b = Arp_Response \<and> arp_src_mac b = nm_mac (nd_metadata d) \<and>
        arp_src_ip b = arp_packet_dest_ip (as ! j) \<and> arp_packet_dest_ip b = arp_src_ip (as ! j))"

section \<open>Lemmas\<close>

lemma rx_message_raw: "rx_message c v j = Msg_Packet (raw_of (ec_id c) (rx_packet c v j))"
  by (simp add: rx_message_def rx_packet_def raw_of_def eth_packet_new_def)

text \<open>What an answer does to the memory: it waits in the card's queue, and an interrupt is asked for.\<close>

definition queued_for :: "e1000_card \<Rightarrow> eth_packet list \<Rightarrow> card_mem \<Rightarrow> card_mem" where
  "queued_for c ps v =
     (if ps = [] then v
      else v\<lparr>cm_queue := (cm_queue v)(pqr_queue (ec_packet_queue c) := cm_queue v (pqr_queue (ec_packet_queue c)) @ ps),
        cm_regs := (cm_regs v)(reg_target (ec_com c) 0xc8 := 0x8000)\<rparr>)"

lemma queued_for_append: "queued_for c ps (queued_for c [p] v) = queued_for c (p # ps) v"
  by (simp add: queued_for_def)

definition sent_world :: "'w card_ops \<Rightarrow> e1000_card \<Rightarrow> eth_packet \<Rightarrow> 'w \<Rightarrow> 'w" where
  "sent_world ops c p w =
     mmio_write ops (reg_target (ec_com c) 0xc8) 0x8000 (snd (op_enqueue (co_net ops) (pqr_queue (ec_packet_queue c)) p w))"

lemma device_send_wire:
  assumes "com_ok (ec_com c)" and "paired ops c d"
  shows "device_send (co_net ops) d p (st\<lparr>hs_world := w\<rparr>) = Ret (st\<lparr>hs_world := sent_world ops c p w\<rparr>)"
  using assms(2)
  by (simp add: device_send_def packet_queue_enqueue_def paired_def send_notify_eq [OF assms(1)] sent_world_def split_def)

lemma sent_world_view:
  assumes "wire_laws ops view phys"
  shows "view (sent_world ops c p w) = queued_for c [p] (view w)"
  using assms by (simp add: sent_world_def wire_laws_def card_laws_def queued_for_def)

lemma arp_request_handled:
  assumes "find_device k (hs_devices st) = Some i" and "arp_request_to (hs_devices st ! i) p a"
  shows "handle_packet ops (raw_of k p) st = device_send ops (hs_devices st ! i) (arp_reply (hs_devices st ! i) a) st"
proof -
  have "receives st k i p" using assms by (simp add: receives_def arp_request_to_def)
  with assms(2) show ?thesis
    by (simp add: handle_packet_receives(1) arp_request_to_def handle_arp_def arp_finish_built arp_reply_def)
qed

lemma requests_answered:
  assumes laws: "wire_laws ops view phys" "com_ok (ec_com c)"
    and dev: "find_device k (hs_devices st) = Some i" "paired ops c (hs_devices st ! i)"
    and "list_all2 (arp_request_to (hs_devices st ! i)) ps as"
  shows "\<exists>w'. handler_loop (co_net ops) (map (\<lambda>p. Msg_Packet (raw_of k p)) ps) (st\<lparr>hs_world := w\<rparr>) = Ret (st\<lparr>hs_world := w'\<rparr>) \<and>
    view w' = queued_for c (map (arp_reply (hs_devices st ! i)) as) (view w)"
  using assms(5)
proof (induction ps as arbitrary: w rule: list_all2_induct)
  case Nil
  show ?case by (intro exI [of _ w]) (simp add: queued_for_def)
next
  case (Cons p ps a as)
  let ?d = "hs_devices st ! i"
  define w1 where "w1 = sent_world ops c (arp_reply ?d a) w"
  have w1: "device_send (co_net ops) ?d (arp_reply ?d a) (st\<lparr>hs_world := w\<rparr>) = Ret (st\<lparr>hs_world := w1\<rparr>)"
      "view w1 = queued_for c [arp_reply ?d a] (view w)"
    unfolding w1_def by (rule device_send_wire [OF laws(2) dev(2)], rule sent_world_view [OF laws(1)])
  obtain w' where w': "handler_loop (co_net ops) (map (\<lambda>p. Msg_Packet (raw_of k p)) ps) (st\<lparr>hs_world := w1\<rparr>) = Ret (st\<lparr>hs_world := w'\<rparr>)"
      "view w' = queued_for c (map (arp_reply ?d) as) (view w1)"
    using Cons.IH by blast
  have "handle_packet (co_net ops) (raw_of k p) (st\<lparr>hs_world := w\<rparr>) = Ret (st\<lparr>hs_world := w1\<rparr>)"
    using arp_request_handled [of k "st\<lparr>hs_world := w\<rparr>" i p a] dev(1) Cons.hyps(1) w1(1) by simp
  then have "handler_loop (co_net ops) (map (\<lambda>p. Msg_Packet (raw_of k p)) (p # ps)) (st\<lparr>hs_world := w\<rparr>) = Ret (st\<lparr>hs_world := w'\<rparr>)"
    using w'(1) by simp
  moreover have "view w' = queued_for c (map (arp_reply ?d) (a # as)) (view w)" by (simp add: w'(2) w1(2) queued_for_append)
  ultimately show ?case by blast
qed

text \<open>The interrupt entry with one card installed.\<close>

lemma network_interrupt_one:
  assumes "ns_handle_queue ns" and "ns_int_devices ns = Some (Some [c])"
    and "e1000_handle_interrupt ops c w = Some (Ret (c', w'))"
  shows "network_interrupt ops iops ns w =
    Some (Ret (ns\<lparr>ns_int_devices := Some (Some [c'])\<rparr>, pic_notify_end iops (PIC_1_OFFSET + 0xb) w'))"
  using assms by (simp add: network_interrupt_def net_handle_interrupt_def e1000_handles_interrupt_def)

text \<open>The receive interrupt and the handler's turn after it.\<close>

lemma requests_queued:
  assumes laws: "wire_laws ops view phys" and inv: "card_inv c"
    and cause: "ic_rxt (cause_of c (view w))" "\<not> ic_txdw (cause_of c (view w))" "\<not> ic_txd_low (cause_of c (view w))"
    and ring: "length as \<le> 32" "\<forall>j < length as. rx_filled c (view w) j" "length as < 32 \<longrightarrow> \<not> rx_filled c (view w) (length as)"
    and dev: "find_device (ec_id c) (hs_devices st) = Some i" "paired ops c (hs_devices st ! i)"
    and reqs: "\<forall>j < length as. arp_request_to (hs_devices st ! i) (rx_packet c (view w) j) (as ! j)"
    and eoi: "\<forall>b w. view (pic_notify_end iops b w) = view w"
    and ns: "ns_handle_queue ns" "ns_int_devices ns = Some (Some [c])"
  obtains c1 w1 w2 where "network_interrupt ops iops ns w = Some (Ret (ns\<lparr>ns_int_devices := Some (Some [c1])\<rparr>, w1))"
    and "c1 = c\<lparr>ec_cur_rx := rx_index c (length as)\<rparr>"
    and "handler_loop (co_net ops) (drop (length (cm_msgs (view w))) (cm_msgs (view w1))) (st\<lparr>hs_world := w1\<rparr>) = Ret (st\<lparr>hs_world := w2\<rparr>)"
    and "\<exists>regs. view w2 = queued_for c (map (arp_reply (hs_devices st ! i)) as) ((rx_done c (length as) (view w))\<lparr>cm_regs := regs\<rparr>)"
proof -
  let ?k = "length as" and ?d = "hs_devices st ! i"
  have card: "card_laws ops view phys" using laws by (simp add: wire_laws_def)
  let ?c1 = "c\<lparr>ec_cur_rx := rx_index c ?k\<rparr>"
  obtain w0 regs where rx: "e1000_handle_interrupt ops c w = Some (Ret (?c1, w0))"
      "view w0 = (rx_done c ?k (view w))\<lparr>cm_regs := regs\<rparr>"
    using handle_interrupt_rx [OF card inv cause ring(1)] ring(2,3) by auto
  define w1 where "w1 = pic_notify_end iops (PIC_1_OFFSET + 0xb) w0"
  have v1: "view w1 = (rx_done c ?k (view w))\<lparr>cm_regs := regs\<rparr>" using eoi rx(2) by (simp add: w1_def)
  have int: "network_interrupt ops iops ns w = Some (Ret (ns\<lparr>ns_int_devices := Some (Some [?c1])\<rparr>, w1))"
    unfolding w1_def by (rule network_interrupt_one [OF ns rx(1)])
  have msgs: "drop (length (cm_msgs (view w))) (cm_msgs (view w1)) =
      map (\<lambda>p. Msg_Packet (raw_of (ec_id c) p)) (map (rx_packet c (view w)) [0 ..< ?k])"
    by (simp add: v1 rx_done_def rx_message_raw comp_def)
  have "list_all2 (arp_request_to ?d) (map (rx_packet c (view w)) [0 ..< ?k]) as"
    using reqs by (simp add: list_all2_conv_all_nth)
  moreover have "com_ok (ec_com c)" using inv by (simp add: card_inv_def)
  ultimately obtain w2 where w2: "handler_loop (co_net ops) (drop (length (cm_msgs (view w))) (cm_msgs (view w1))) (st\<lparr>hs_world := w1\<rparr>) =
        Ret (st\<lparr>hs_world := w2\<rparr>)" "view w2 = queued_for c (map (arp_reply ?d) as) (view w1)"
    using requests_answered [OF laws _ dev] unfolding msgs by blast
  from w2(2) have "\<exists>regs. view w2 = queued_for c (map (arp_reply ?d) as) ((rx_done c ?k (view w))\<lparr>cm_regs := regs\<rparr>)"
    unfolding v1 by blast
  with int w2(1) show ?thesis by (intro that [OF int refl])
qed

lemma tx_sent_answered:
  assumes "tx_sent phys (map (arp_reply d) as) c v c' v'" and "as \<noteq> []"
  shows "answered phys c d as v'"
proof -
  obtain ptrs where ptrs: "\<And>j. j < length as \<Longrightarrow> cm_boxes v' (ptrs ! j) = Some (buf_data (eth_into_buffer (arp_reply d (as ! j)))) \<and>
      tx_at c v' j = tx_entry (tx_at c v j) (phys (ptrs ! j)) (arp_reply d (as ! j))"
    using assms(1) unfolding tx_sent_def by auto
  have "\<exists>ptr r b. td_addr (tx_at c v' j) = phys ptr \<and>
        td_length (tx_at c v' j) = of_nat (buf_len (eth_buffer r)) \<and> cm_boxes v' ptr = Some (buf_data (eth_buffer r)) \<and>
        eth_destination_mac r = Ret (arp_src_mac (as ! j)) \<and> arp_packet_new r = Ret (Some b) \<and>
        arp_packet_operation b = Arp_Response \<and> arp_src_mac b = nm_mac (nd_metadata d) \<and>
        arp_src_ip b = arp_packet_dest_ip (as ! j) \<and> arp_packet_dest_ip b = arp_src_ip (as ! j)" if "j < length as" for j
    using ptrs [OF that]
    by (intro exI [of _ "ptrs ! j"] exI [of _ "arp_reply d (as ! j)"])
      (simp add: tx_entry_def eth_into_buffer_def arp_reply_def arp_sent_read arp_packet_operation_def arp_packet_dest_ip_def)
  moreover have "cm_regs v' (reg_target (ec_com c) REG_TXDESCTAIL) = tx_index c (length as)"
    using assms by (simp add: tx_sent_def)
  ultimately show ?thesis unfolding answered_def by blast
qed

text \<open>The interrupt that was asked for.\<close>

lemma answers_sent:
  assumes "card_laws ops view phys" and "card_inv c" and "as \<noteq> []" "length as \<le> 8"
    and "cm_queue (view w) (pqr_queue (ec_packet_queue c)) = map (arp_reply d) as" "8 \<le> cm_room (view w)"
    and "cm_regs (view w) (reg_target (ec_com c) 0xc0) = 0x8000"
    and "cm_regs (view w) (reg_target (ec_com c) REG_TXDESCHEAD) = cm_regs (view w) (reg_target (ec_com c) REG_TXDESCTAIL)"
    and "\<forall>b w. view (pic_notify_end iops b w) = view w" and "ns_handle_queue ns" "ns_int_devices ns = Some (Some [c])"
  shows "\<exists>ns' w'. network_interrupt ops iops ns w = Some (Ret (ns', w')) \<and> answered phys c d as (view w')"
proof -
  have "\<not> ic_rxt (cause_of c (view w))" "\<not> ic_txdw (cause_of c (view w))" "ic_txd_low (cause_of c (view w))"
    by (simp_all add: cause_of_def assms(7) ic_from_def)
  from handle_interrupt_tx [OF assms(1,2) this assms(8,6)] obtain c' w' where
    "e1000_handle_interrupt ops c w = Some (Ret (c', w'))" "tx_sent phys (map (arp_reply d) as) c (view w) c' (view w')"
    using assms(4,5) by auto
  moreover from this(2) have "answered phys c d as (view (pic_notify_end iops (PIC_1_OFFSET + 0xb) w'))"
    unfolding assms(9) [rule_format] by (rule tx_sent_answered [OF _ assms(3)])
  ultimately show ?thesis using network_interrupt_one [OF assms(10,11)] by blast
qed

lemma raised_answers:
  assumes "card_laws ops view phys" and "card_inv (c\<lparr>ec_cur_rx := i\<rparr>)" and "as \<noteq> []" "length as \<le> 8"
    and "cm_queue (view w) (pqr_queue (ec_packet_queue c)) = map (arp_reply d) as" "8 \<le> cm_room (view w)"
    and "cm_regs (view w) (reg_target (ec_com c) 0xc8) = 0x8000" and "card_raises c (view w) (view w')"
    and "\<forall>b w. view (pic_notify_end iops b w) = view w" and "ns_handle_queue ns" "ns_int_devices ns = Some (Some [c\<lparr>ec_cur_rx := i\<rparr>])"
  shows "\<exists>ns' w''. network_interrupt ops iops ns w' = Some (Ret (ns', w'')) \<and> answered phys c d as (view w'')"
proof -
  let ?c = "c\<lparr>ec_cur_rx := i\<rparr>"
  have "\<exists>ns' w''. network_interrupt ops iops ns w' = Some (Ret (ns', w'')) \<and> answered phys ?c d as (view w'')"
  proof (rule answers_sent [OF assms(1-4) _ _ _ _ assms(9-11)])
    show "cm_queue (view w') (pqr_queue (ec_packet_queue ?c)) = map (arp_reply d) as" "8 \<le> cm_room (view w')"
        "cm_regs (view w') (reg_target (ec_com ?c) 0xc0) = 0x8000"
        "cm_regs (view w') (reg_target (ec_com ?c) REG_TXDESCHEAD) = cm_regs (view w') (reg_target (ec_com ?c) REG_TXDESCTAIL)"
      using assms(5-8) by (auto simp: card_raises_def)
  qed
  moreover have "answered phys ?c d as v \<longleftrightarrow> answered phys c d as v" for v
    by (simp add: answered_def tx_index_def tx_at_def)
  ultimately show ?thesis by simp
qed

lemma card_inv_received: "card_inv c \<Longrightarrow> card_inv (c\<lparr>ec_cur_rx := rx_index c k\<rparr>)"
  by (simp add: card_inv_def unat_rx_index RX_DESC_def)

text \<open>The sample card with a request for \<^verbatim>\<open>10.0.2.15\<close> in its last descriptor.\<close>

definition wire_request :: eth_packet where
  "wire_request = arp_sent 1 (Mac 1 2 3 4 5 6) (Ip4 10 0 2 2) broadcast_mac (Ip4 10 0 2 15)"

definition wire_world :: card_world where
  "wire_world = on_mem (\<lambda>m. m\<lparr>cm_slice := \<lambda>_ _. eth_frame broadcast_mac (Mac 1 2 3 4 5 6) (eth_type_into Eth_Arp)
     (arp_body 1 (Mac 1 2 3 4 5 6) (Ip4 10 0 2 2) broadcast_mac (Ip4 10 0 2 15) @ replicate 18 0)\<rparr>) (sample_card_world 0x80 [])"

text \<open>The card raising the interrupt.\<close>

definition wire_raise :: "card_world \<Rightarrow> card_world" where
  "wire_raise = on_mem (\<lambda>m. m\<lparr>cm_regs := \<lambda>a. if a = reg_target (ec_com sample_card) 0xc0 then cm_regs m (reg_target (ec_com sample_card) 0xc8) else 0\<rparr>)"

lemma wire_mem_laws: "wire_laws mem_ops cw_view (\<lambda>a. a)"
  by (simp add: wire_laws_def mem_ops_laws) (simp add: mem_ops_def mem_net_ops_def cw_view_def on_mem_def)

lemma wire_raises: "card_raises sample_card (cw_view w) (cw_view (wire_raise w))"
  unfolding card_raises_def
  by (intro exI [of _ "cm_regs (cw_view (wire_raise w))"])
    (simp add: wire_raise_def cw_view_def on_mem_def REG_TXDESCHEAD_def REG_TXDESCTAIL_def)

lemma wire_view: "cw_view wire_world = (cw_view (sample_card_world 0x80 []))\<lparr>cm_slice := cm_slice (cw_mem wire_world)\<rparr>"
  by (simp add: wire_world_def cw_view_def on_mem_def)

lemma wire_filled: "rx_filled sample_card (cw_view wire_world) j \<longleftrightarrow> rx_index sample_card j = 31"
  using sample_filled [OF refl, of "0x80" "[]" j] by (simp add: wire_view rx_filled_def rx_at_def)

lemma wire_cause: "cause_of sample_card (cw_view wire_world) = ic_from 0x80"
  using sample_cause [of "0x80" "[]"] by (simp add: wire_view cause_of_def)

lemma wire_packet: "rx_packet sample_card (cw_view wire_world) j = wire_request"
  by (simp add: rx_packet_def wire_request_def arp_sent_def eth_packet_of_def)
    (simp add: wire_world_def on_mem_def cw_view_def)

section \<open>From the received frames to the transmit ring\<close>

text \<open>
  Up to seven ARP requests for the address of a device that the card has received together are all answered:
  the interrupt queues them, the handler's task answers each one, and when the card raises the interrupt the
  handler asked for, the answers are in the transmit ring in the order of the requests, each with its
  bytes in a box of its own, with the tail register behind the last.
\<close>

lemma arp_answered_on_wire:
  assumes "wire_laws ops view phys" and "card_inv c"
    and "ic_rxt (cause_of c (view w))" "\<not> ic_txdw (cause_of c (view w))" "\<not> ic_txd_low (cause_of c (view w))"
    and "as \<noteq> []" "length as \<le> 7" "\<forall>j < length as. rx_filled c (view w) j" "\<not> rx_filled c (view w) (length as)"
    and "find_device (ec_id c) (hs_devices st) = Some i" "paired ops c (hs_devices st ! i)"
    and "\<forall>j < length as. arp_request_to (hs_devices st ! i) (rx_packet c (view w) j) (as ! j)"
    and "\<forall>b w. view (pic_notify_end iops b w) = view w"
    and "ns_handle_queue ns" "ns_int_devices ns = Some (Some [c])"
    and "cm_queue (view w) (pqr_queue (ec_packet_queue c)) = []" "8 \<le> cm_room (view w)"
  shows "\<exists>ns1 w1 w2. network_interrupt ops iops ns w = Some (Ret (ns1, w1)) \<and>
    handler_loop (co_net ops) (drop (length (cm_msgs (view w))) (cm_msgs (view w1))) (st\<lparr>hs_world := w1\<rparr>) = Ret (st\<lparr>hs_world := w2\<rparr>) \<and>
    (\<forall>w3. card_raises c (view w2) (view w3) \<longrightarrow>
      (\<exists>ns2 w4. network_interrupt ops iops ns1 w3 = Some (Ret (ns2, w4)) \<and> answered phys c (hs_devices st ! i) as (view w4)))"
proof -
  let ?rs = "map (arp_reply (hs_devices st ! i)) as" and ?q = "pqr_queue (ec_packet_queue c)"
  have as: "length as \<le> 32" "length as < 32 \<longrightarrow> \<not> rx_filled c (view w) (length as)" using assms(7,9) by simp_all
  have card: "card_laws ops view phys" using assms(1) by (simp add: wire_laws_def)
  obtain c1 w1 w2 where int: "network_interrupt ops iops ns w = Some (Ret (ns\<lparr>ns_int_devices := Some (Some [c1])\<rparr>, w1))"
    and c1: "c1 = c\<lparr>ec_cur_rx := rx_index c (length as)\<rparr>"
    and loop: "handler_loop (co_net ops) (drop (length (cm_msgs (view w))) (cm_msgs (view w1))) (st\<lparr>hs_world := w1\<rparr>) = Ret (st\<lparr>hs_world := w2\<rparr>)"
    and v2: "\<exists>regs. view w2 = queued_for c ?rs ((rx_done c (length as) (view w))\<lparr>cm_regs := regs\<rparr>)"
    by (rule requests_queued [OF assms(1-5) as(1) assms(8) as(2) assms(10-15)])
  have queued: "cm_queue (view w2) ?q = ?rs" "8 \<le> cm_room (view w2)" "cm_regs (view w2) (reg_target (ec_com c) 0xc8) = 0x8000"
    using v2 assms(6,16,17) by (auto simp: queued_for_def rx_done_def)
  have "\<exists>ns2 w4. network_interrupt ops iops (ns\<lparr>ns_int_devices := Some (Some [c1])\<rparr>) w3 = Some (Ret (ns2, w4)) \<and>
      answered phys c (hs_devices st ! i) as (view w4)" if "card_raises c (view w2) (view w3)" for w3
    by (rule raised_answers [OF card card_inv_received [OF assms(2)] assms(6) _ queued that assms(13)])
      (use assms(7,14) c1 in simp_all)
  with int loop show ?thesis by blast
qed

end
