(* ===== verification/Kernel_Exec.thy ===== *)
theory Kernel_Exec
  imports Rust_Prelude
begin

text \<open>
  The crate \<^verbatim>\<open>kernel\<close> (\<^verbatim>\<open>kernel/src/lib.rs\<close>, \<^verbatim>\<open>handle.rs\<close>, \<^verbatim>\<open>task.rs\<close>): the cooperative
  executor. Tasks are added through a handle, ids of runnable tasks go through a run queue,
  and the run loop takes an id, collects the tasks added meanwhile and polls the task.

  The two queues come from \<^verbatim>\<open>nolock\<close> and are parameters (\<open>kern_ops\<close>) on a world \<open>'w\<close>. A task's future
  is a state \<open>'f\<close> with a poll function, also a parameter, that gets the address of a waker and need not return.
  Wakers are boxes on the heap: \<open>ke_wakers\<close> maps an allocated address to the task id inside.
\<close>

section \<open>State\<close>

record 'f task =
  task_id :: nat
  task_future :: 'f

record ('f, 'w) kern_ops =
  run_enqueue :: "nat \<Rightarrow> 'w \<Rightarrow> unit option \<times> 'w"
  run_dequeue :: "'w \<Rightarrow> nat option \<times> 'w"
  add_enqueue :: "'f task \<Rightarrow> 'w \<Rightarrow> unit option \<times> 'w"
  add_try_dequeue :: "'w \<Rightarrow> 'f task option \<times> 'w"

record 'w kernel_env =
  ke_count :: nat
  ke_wakers :: "nat \<rightharpoonup> nat"
  ke_next_waker :: nat
  ke_world :: 'w

text \<open>A future's poll: its answer (\<^verbatim>\<open>Poll::Ready\<close> or not), its next state and its effects.\<close>

type_synonym ('f, 'w) poll_fn = "nat \<Rightarrow> 'f \<Rightarrow> 'w kernel_env \<Rightarrow> (bool \<times> 'f \<times> 'w kernel_env) exec option"

record ('f, 'w) kernel =
  k_tasks :: "'f task list"
  k_env :: "'w kernel_env"

section \<open>Handle\<close>

text \<open>\<^verbatim>\<open>fetch_add\<close> wraps around; \<^verbatim>\<open>add_task\<close> and \<^verbatim>\<open>add_raw_task\<close> differ only in boxing the future.\<close>

definition handle_add_task :: "('f, 'w) kern_ops \<Rightarrow> 'f \<Rightarrow> 'w kernel_env \<Rightarrow> 'w kernel_env" where
  "handle_add_task ops fut env =
     (let tid = ke_count env;
          env = env\<lparr>ke_count := (tid + 1) mod 2 ^ 64\<rparr>;
          w = snd (add_enqueue ops \<lparr>task_id = tid, task_future = fut\<rparr> (ke_world env));
          w = snd (run_enqueue ops tid w)
      in env\<lparr>ke_world := w\<rparr>)"

section \<open>Wakers\<close>

definition create_waker :: "nat \<Rightarrow> 'w kernel_env \<Rightarrow> nat \<times> 'w kernel_env" where
  "create_waker tid env =
     (ke_next_waker env,
      env\<lparr>ke_wakers := (ke_wakers env)(ke_next_waker env \<mapsto> tid), ke_next_waker := Suc (ke_next_waker env)\<rparr>)"

text \<open>The entries of the vtable; dereferencing an address that is not allocated is an error.\<close>

definition waker_clone :: "nat \<Rightarrow> 'w kernel_env \<Rightarrow> (nat \<times> 'w kernel_env) exec" where
  "waker_clone ptr env = xbind (unwrap (ke_wakers env ptr)) (\<lambda>tid. Ret (create_waker tid env))"

definition waker_wake :: "('f, 'w) kern_ops \<Rightarrow> nat \<Rightarrow> 'w kernel_env \<Rightarrow> 'w kernel_env exec" where
  "waker_wake ops ptr env =
     xbind (unwrap (ke_wakers env ptr)) (\<lambda>tid.
     case run_enqueue ops tid (ke_world env) of
       (r, w) \<Rightarrow> xbind (unwrap r) (\<lambda>_. Ret (env\<lparr>ke_world := w\<rparr>)))"

definition waker_wake_by_ref :: "('f, 'w) kern_ops \<Rightarrow> nat \<Rightarrow> 'w kernel_env \<Rightarrow> 'w kernel_env exec" where
  "waker_wake_by_ref ops ptr env =
     xbind (unwrap (ke_wakers env ptr)) (\<lambda>tid.
     case run_enqueue ops tid (ke_world env) of
       (r, w) \<Rightarrow> xbind (unwrap r) (\<lambda>_. Ret (env\<lparr>ke_world := w\<rparr>)))"

definition waker_drop :: "nat \<Rightarrow> 'w kernel_env \<Rightarrow> 'w kernel_env" where
  "waker_drop ptr env = env\<lparr>ke_wakers := (ke_wakers env)(ptr := None)\<rparr>"

section \<open>Task\<close>

text \<open>The waker made for the poll is dropped when \<^verbatim>\<open>run\<close> returns.\<close>

definition task_run ::
  "('f, 'w) poll_fn \<Rightarrow> 'f task \<Rightarrow> 'w kernel_env \<Rightarrow> (bool \<times> 'f task \<times> 'w kernel_env) exec option" where
  "task_run poll task env =
     (case create_waker (task_id task) env of
        (waker, env) \<Rightarrow>
          lbind (poll waker (task_future task) env) (\<lambda>(ready, fut, env).
          lift_x (Ret (ready, task\<lparr>task_future := fut\<rparr>, waker_drop waker env))))"

section \<open>Kernel\<close>

definition kernel_setup :: "'w \<Rightarrow> ('f, 'w) kernel" where
  "kernel_setup w =
     \<lparr>k_tasks = [], k_env = \<lparr>ke_count = 0, ke_wakers = Map.empty, ke_next_waker = 0, ke_world = w\<rparr>\<rparr>"

text \<open>\<^verbatim>\<open>extension.setup\<close> runs first, on the hardware, may change the world and need not return; its future becomes a task.\<close>

definition kernel_add_extension ::
  "('f, 'w) kern_ops \<Rightarrow> ('w \<Rightarrow> ('f \<times> 'w) exec option) \<Rightarrow> ('f, 'w) kernel \<Rightarrow> ('f, 'w) kernel exec option" where
  "kernel_add_extension ops ext_setup k =
     lbind (ext_setup (ke_world (k_env k))) (\<lambda>(ext_task, w).
     lift_x (Ret (k\<lparr>k_env := handle_add_task ops ext_task ((k_env k)\<lparr>ke_world := w\<rparr>)\<rparr>)))"

text \<open>\<^verbatim>\<open>while let Ok(n_task) = self.task_add_queue.try_dequeue()\<close>\<close>

partial_function (option) drain_added ::
  "('f, 'w) kern_ops \<Rightarrow> 'f task list \<Rightarrow> 'w \<Rightarrow> ('f task list \<times> 'w) option" where
  "drain_added ops tasks w =
     (case add_try_dequeue ops w of
        (None, w) \<Rightarrow> Some (tasks, w)
      | (Some n_task, w) \<Rightarrow> drain_added ops (tasks @ [n_task]) w)"

text \<open>The position \<^verbatim>\<open>iter_mut().find(|task| task.id == run_id)\<close> stops at.\<close>

fun find_task :: "nat \<Rightarrow> 'f task list \<Rightarrow> nat option" where
  "find_task tid [] = None"
| "find_task tid (t # ts) = (if task_id t = tid then Some 0 else map_option Suc (find_task tid ts))"

text \<open>
  One round of the loop of \<^verbatim>\<open>run\<close>: the queue is closed, the task is not there, or the task was
  polled.
\<close>

datatype 'k round_result =
    Closed 'k
  | Unavailable nat 'k
  | Polled nat bool 'k

definition kernel_round ::
  "('f, 'w) kern_ops \<Rightarrow> ('f, 'w) poll_fn \<Rightarrow> ('f, 'w) kernel \<Rightarrow> ('f, 'w) kernel round_result exec option" where
  "kernel_round ops poll k =
     (case run_dequeue ops (ke_world (k_env k)) of
        (None, w) \<Rightarrow> Some (Ret (Closed (k\<lparr>k_env := (k_env k)\<lparr>ke_world := w\<rparr>\<rparr>)))
      | (Some run_id, w) \<Rightarrow>
          (case drain_added ops (k_tasks k) w of
             None \<Rightarrow> None
           | Some (tasks, w) \<Rightarrow>
               (let k = k\<lparr>k_tasks := tasks, k_env := (k_env k)\<lparr>ke_world := w\<rparr>\<rparr> in
                case find_task run_id tasks of
                  None \<Rightarrow> Some (Ret (Unavailable run_id k))
                | Some i \<Rightarrow>
                    lbind (task_run poll (tasks ! i) (k_env k)) (\<lambda>(ready, t, env).
                    lift_x (Ret (Polled run_id ready (k\<lparr>k_tasks := tasks[i := t], k_env := env\<rparr>)))))))"

partial_function (option) kernel_run ::
  "('f, 'w) kern_ops \<Rightarrow> ('f, 'w) poll_fn \<Rightarrow> ('f, 'w) kernel \<Rightarrow> ('f, 'w) kernel exec option" where
  "kernel_run ops poll k =
     (case kernel_round ops poll k of
        None \<Rightarrow> None
      | Some (Panic p) \<Rightarrow> Some (Panic p)
      | Some (Ret (Closed k)) \<Rightarrow> Some (Ret k)
      | Some (Ret (Unavailable run_id k)) \<Rightarrow> kernel_run ops poll k
      | Some (Ret (Polled run_id ready k)) \<Rightarrow> kernel_run ops poll k)"

section \<open>What the executor relies on\<close>

text \<open>
  The queues, with \<open>rq w\<close> and \<open>aq w\<close> their contents: both unbounded and first in, first out. The blocking
  dequeue is only described when the queue has an element.
\<close>

definition kernel_laws :: "('f, 'w) kern_ops \<Rightarrow> ('w \<Rightarrow> nat list) \<Rightarrow> ('w \<Rightarrow> 'f task list) \<Rightarrow> bool" where
  "kernel_laws ops rq aq \<longleftrightarrow>
     (\<forall>tid w. fst (run_enqueue ops tid w) = Some () \<and>
        rq (snd (run_enqueue ops tid w)) = rq w @ [tid] \<and> aq (snd (run_enqueue ops tid w)) = aq w) \<and>
     (\<forall>t w. fst (add_enqueue ops t w) = Some () \<and>
        aq (snd (add_enqueue ops t w)) = aq w @ [t] \<and> rq (snd (add_enqueue ops t w)) = rq w) \<and>
     (\<forall>w tid rest. rq w = tid # rest \<longrightarrow> fst (run_dequeue ops w) = Some tid \<and>
        rq (snd (run_dequeue ops w)) = rest \<and> aq (snd (run_dequeue ops w)) = aq w) \<and>
     (\<forall>w. rq (snd (add_try_dequeue ops w)) = rq w \<and> aq (snd (add_try_dequeue ops w)) = tl (aq w) \<and>
        fst (add_try_dequeue ops w) = (case aq w of [] \<Rightarrow> None | t # _ \<Rightarrow> Some t))"

text \<open>
  What a future may do to the executor while it is polled: add a task (fewer than \<open>2 ^ 64\<close> are ever added),
  clone, wake or drop a waker it has, and anything that leaves the two queues and the wakers
  alone.
\<close>

inductive client_step ::
  "('f, 'w) kern_ops \<Rightarrow> ('w \<Rightarrow> nat list) \<Rightarrow> ('w \<Rightarrow> 'f task list) \<Rightarrow> 'w kernel_env \<Rightarrow> 'w kernel_env \<Rightarrow> bool"
  for ops rq aq where
  add: "ke_count env + 1 < 2 ^ 64 \<Longrightarrow> client_step ops rq aq env (handle_add_task ops fut env)"
| clone: "waker_clone ptr env = Ret (ptr', env') \<Longrightarrow> client_step ops rq aq env env'"
| wake: "waker_wake ops ptr env = Ret env' \<Longrightarrow> client_step ops rq aq env env'"
| wake_by_ref: "waker_wake_by_ref ops ptr env = Ret env' \<Longrightarrow> client_step ops rq aq env env'"
| dropped: "client_step ops rq aq env (waker_drop ptr env)"
| other: "rq w = rq (ke_world env) \<Longrightarrow> aq w = aq (ke_world env) \<Longrightarrow>
    client_step ops rq aq env (env\<lparr>ke_world := w\<rparr>)"

definition poll_ok ::
  "('f, 'w) kern_ops \<Rightarrow> ('w \<Rightarrow> nat list) \<Rightarrow> ('w \<Rightarrow> 'f task list) \<Rightarrow> ('f, 'w) poll_fn \<Rightarrow> bool" where
  "poll_ok ops rq aq poll \<longleftrightarrow>
     (\<forall>waker f env ready f' env'. poll waker f env = Some (Ret (ready, f', env')) \<longrightarrow>
        (client_step ops rq aq)\<^sup>*\<^sup>* env env')"

section \<open>The invariant\<close>

text \<open>
  Every id on the run queue and in a waker names a task that is in the list or on its way
  there, no two tasks share an id, and the counter is above all ids.
\<close>

definition env_inv :: "('w \<Rightarrow> nat list) \<Rightarrow> ('w \<Rightarrow> 'f task list) \<Rightarrow> 'f task list \<Rightarrow> 'w kernel_env \<Rightarrow> bool" where
  "env_inv rq aq tasks env \<longleftrightarrow>
     (let ids = map task_id (tasks @ aq (ke_world env)) in
      distinct ids \<and> (\<forall>tid \<in> set ids. tid < ke_count env) \<and> ke_count env < 2 ^ 64 \<and>
      set (rq (ke_world env)) \<subseteq> set ids \<and> ran (ke_wakers env) \<subseteq> set ids)"

definition kernel_inv :: "('w \<Rightarrow> nat list) \<Rightarrow> ('w \<Rightarrow> 'f task list) \<Rightarrow> ('f, 'w) kernel \<Rightarrow> bool" where
  "kernel_inv rq aq k \<longleftrightarrow> env_inv rq aq (k_tasks k) (k_env k)"

lemma run_enqueue_queues:
  assumes "kernel_laws ops rq aq"
  shows "fst (run_enqueue ops tid w) = Some ()" and "rq (snd (run_enqueue ops tid w)) = rq w @ [tid]"
    and "aq (snd (run_enqueue ops tid w)) = aq w"
  using assms by (simp_all add: kernel_laws_def)

lemma add_enqueue_queues:
  assumes "kernel_laws ops rq aq"
  shows "rq (snd (add_enqueue ops t w)) = rq w" and "aq (snd (add_enqueue ops t w)) = aq w @ [t]"
  using assms by (simp_all add: kernel_laws_def)

lemma handle_add_task_queues:
  assumes "kernel_laws ops rq aq"
  shows "rq (ke_world (handle_add_task ops fut env)) = rq (ke_world env) @ [ke_count env]"
    and "aq (ke_world (handle_add_task ops fut env)) =
      aq (ke_world env) @ [\<lparr>task_id = ke_count env, task_future = fut\<rparr>]"
    and "ke_count (handle_add_task ops fut env) = (ke_count env + 1) mod 2 ^ 64"
    and "ke_wakers (handle_add_task ops fut env) = ke_wakers env"
  by (simp_all add: handle_add_task_def Let_def run_enqueue_queues [OF assms] add_enqueue_queues [OF assms])

lemma waker_wake_by_ref_eq: "waker_wake_by_ref ops ptr env = waker_wake ops ptr env"
  by (simp add: waker_wake_by_ref_def waker_wake_def)

lemma waker_wake_Ret:
  assumes "waker_wake ops ptr env = Ret env'"
  shows "\<exists>tid. ke_wakers env ptr = Some tid \<and> env' = env\<lparr>ke_world := snd (run_enqueue ops tid (ke_world env))\<rparr>"
  using assms by (auto simp: waker_wake_def elim!: xbind_eq_RetE split: prod.splits)

lemma waker_wake_inv:
  assumes laws: "kernel_laws ops rq aq" and "waker_wake ops ptr env = Ret env'" and inv: "env_inv rq aq tasks env"
  shows "env_inv rq aq tasks env'"
proof -
  obtain tid where tid: "ke_wakers env ptr = Some tid"
      "env' = env\<lparr>ke_world := snd (run_enqueue ops tid (ke_world env))\<rparr>"
    using waker_wake_Ret [OF assms(2)] by blast
  have "tid \<in> ran (ke_wakers env)"
    using tid(1) by (rule ranI)
  then show ?thesis
    using inv by (auto simp: env_inv_def Let_def tid(2) run_enqueue_queues [OF laws])
qed

lemma client_step_inv:
  assumes laws: "kernel_laws ops rq aq" and "client_step ops rq aq env env'" and "env_inv rq aq tasks env"
  shows "env_inv rq aq tasks env'"
  using assms(2,3)
proof cases
  case (add fut)
  then show ?thesis
    using assms(3) handle_add_task_queues [OF laws, of fut env] by (auto simp: env_inv_def Let_def less_Suc_eq)
next
  case (clone ptr ptr')
  then obtain tid where "ke_wakers env ptr = Some tid" "env' = snd (create_waker tid env)"
    by (auto simp: waker_clone_def elim!: xbind_eq_RetE)
  moreover from this have "tid \<in> ran (ke_wakers env)"
    by (auto simp: ran_def)
  ultimately show ?thesis
    using assms(3) by (auto simp: env_inv_def Let_def create_waker_def ran_def split: if_splits)
next
  case (wake ptr)
  then show ?thesis
    using waker_wake_inv [OF laws _ assms(3)] by simp
next
  case (wake_by_ref ptr)
  then show ?thesis
    using waker_wake_inv [OF laws _ assms(3)] by (simp add: waker_wake_by_ref_eq)
next
  case (dropped ptr)
  then show ?thesis
    using assms(3) by (auto simp: env_inv_def Let_def waker_drop_def ran_def)
next
  case (other w)
  then show ?thesis
    using assms(3) by (simp add: env_inv_def)
qed

lemma client_step_appends:
  assumes laws: "kernel_laws ops rq aq" and "client_step ops rq aq env env'"
  shows "\<exists>xs ys. rq (ke_world env') = rq (ke_world env) @ xs \<and> aq (ke_world env') = aq (ke_world env) @ ys"
  using assms(2)
proof cases
  case (add fut)
  then show ?thesis
    using handle_add_task_queues(1,2) [OF laws] by simp
next
  case (wake ptr)
  from waker_wake_Ret [OF this] show ?thesis
    using run_enqueue_queues [OF laws] by auto
next
  case (wake_by_ref ptr)
  from waker_wake_Ret [OF this [unfolded waker_wake_by_ref_eq]] show ?thesis
    using run_enqueue_queues [OF laws] by auto
qed (auto simp: waker_clone_def waker_drop_def create_waker_def elim!: xbind_eq_RetE)

lemma client_steps:
  assumes laws: "kernel_laws ops rq aq" and "(client_step ops rq aq)\<^sup>*\<^sup>* env env'"
  shows "env_inv rq aq tasks env \<Longrightarrow> env_inv rq aq tasks env'"
    and "\<exists>xs ys. rq (ke_world env') = rq (ke_world env) @ xs \<and> aq (ke_world env') = aq (ke_world env) @ ys"
proof -
  show "env_inv rq aq tasks env \<Longrightarrow> env_inv rq aq tasks env'"
    using assms(2) by induction (auto intro: client_step_inv [OF laws])
  show "\<exists>xs ys. rq (ke_world env') = rq (ke_world env) @ xs \<and> aq (ke_world env') = aq (ke_world env) @ ys"
    using assms(2)
  proof induction
    case (step env1 env2)
    from client_step_appends [OF laws step.hyps(2)] step.IH show ?case
      by auto
  qed simp
qed

lemma drain_added_eq:
  assumes laws: "kernel_laws ops rq aq"
  shows "\<exists>w'. drain_added ops ts w = Some (ts @ aq w, w') \<and> aq w' = [] \<and> rq w' = rq w"
proof (induction "aq w" arbitrary: ts w)
  case Nil
  have "fst (add_try_dequeue ops w) = None" "aq (snd (add_try_dequeue ops w)) = []"
      "rq (snd (add_try_dequeue ops w)) = rq w"
    using laws Nil by (simp_all add: kernel_laws_def Nil [symmetric])
  then show ?case
    using Nil by (cases "add_try_dequeue ops w") (simp add: drain_added.simps)
next
  case (Cons t rest)
  have deq: "fst (add_try_dequeue ops w) = Some t" "rest = aq (snd (add_try_dequeue ops w))"
      "rq (snd (add_try_dequeue ops w)) = rq w"
    using laws by (simp_all add: kernel_laws_def Cons.hyps(2) [symmetric])
  from Cons.hyps(1) [OF deq(2), of "ts @ [t]"] deq show ?case
    by (cases "add_try_dequeue ops w") (simp add: drain_added.simps [of _ _ w] Cons.hyps(2) [symmetric])
qed

lemma find_task_Some: "find_task tid ts = Some i \<Longrightarrow> i < length ts \<and> task_id (ts ! i) = tid"
  by (induction ts arbitrary: i) (auto split: if_splits)

lemma find_task_None: "find_task tid ts = None \<longleftrightarrow> tid \<notin> task_id ` set ts"
  by (induction ts) auto

lemma map_task_id_update: "i < length ts \<Longrightarrow> map task_id (ts[i := (ts ! i)\<lparr>task_future := f\<rparr>]) = map task_id ts"
  by (simp add: map_update) (metis length_map list_update_id nth_map)

lemma task_run_Ret:
  assumes laws: "kernel_laws ops rq aq" and ok: "poll_ok ops rq aq poll"
    and run: "task_run poll t env = Some (Ret (ready, t', env'))"
    and inv: "env_inv rq aq tasks env" and known: "task_id t \<in> task_id ` set (tasks @ aq (ke_world env))"
  shows "env_inv rq aq tasks env'" and "\<exists>f. t' = t\<lparr>task_future := f\<rparr>"
    and "\<exists>xs ys. rq (ke_world env') = rq (ke_world env) @ xs \<and> aq (ke_world env') = aq (ke_world env) @ ys"
proof -
  obtain waker env1 where new: "create_waker (task_id t) env = (waker, env1)"
    by fastforce
  obtain f env2 where poll: "poll waker (task_future t) env1 = Some (Ret (ready, f, env2))"
      and t': "t' = t\<lparr>task_future := f\<rparr>" and env': "env' = waker_drop waker env2"
    using run new by (auto simp: task_run_def lbind_Ret_iff)
  have steps: "(client_step ops rq aq)\<^sup>*\<^sup>* env1 env2"
    using ok poll by (auto simp: poll_ok_def)
  have world: "ke_world env1 = ke_world env" "ke_world env' = ke_world env2"
    using new env' by (auto simp: create_waker_def waker_drop_def)
  have "ran (ke_wakers env1) \<subseteq> insert (task_id t) (ran (ke_wakers env))" "ke_count env1 = ke_count env"
    using new by (auto simp: create_waker_def ran_def split: if_splits)
  then have "env_inv rq aq tasks env1"
    using inv known by (simp add: env_inv_def Let_def world(1) subset_iff image_Un) blast
  then have "env_inv rq aq tasks env2"
    by (rule client_steps(1) [OF laws steps])
  then show "env_inv rq aq tasks env'"
    using client_step_inv [OF laws client_step.dropped] env' by blast
  show "\<exists>f. t' = t\<lparr>task_future := f\<rparr>"
    using t' by blast
  show "\<exists>xs ys. rq (ke_world env') = rq (ke_world env) @ xs \<and> aq (ke_world env') = aq (ke_world env) @ ys"
    using client_steps(2) [OF laws steps] world by simp
qed

lemma task_run_cases:
  obtains (none) "task_run poll t env = None" "\<exists>waker f env. poll waker f env = None"
  | (panic) p where "task_run poll t env = Some (Panic p)" "\<exists>waker f env. poll waker f env = Some (Panic p)"
  | (ret) ready t' env' where "task_run poll t env = Some (Ret (ready, t', env'))"
proof -
  obtain waker env1 where new: "create_waker (task_id t) env = (waker, env1)"
    by fastforce
  consider "poll waker (task_future t) env1 = None" | p where "poll waker (task_future t) env1 = Some (Panic p)"
    | r where "poll waker (task_future t) env1 = Some (Ret r)"
    by (metis exec.exhaust option.exhaust)
  then show thesis
    using that by cases (auto simp: task_run_def new split_def)
qed

text \<open>One round with a non-empty run queue polls the task at its head.\<close>

lemma kernel_round_head:
  assumes laws: "kernel_laws ops rq aq" and ok: "poll_ok ops rq aq poll" and inv: "kernel_inv rq aq k"
    and head: "rq (ke_world (k_env k)) = tid # rest"
  obtains (panic) p where "kernel_round ops poll k = Some (Panic p)"
      "\<exists>waker f env. poll waker f env = Some (Panic p)"
  | (stuck) "kernel_round ops poll k = None" "\<exists>waker f env. poll waker f env = None"
  | (polled) ready k' xs where "kernel_round ops poll k = Some (Ret (Polled tid ready k'))"
      "kernel_inv rq aq k'" "rq (ke_world (k_env k')) = rest @ xs"
      "map task_id (k_tasks k') = map task_id (k_tasks k @ aq (ke_world (k_env k)))"
proof -
  obtain w1 where deq: "run_dequeue ops (ke_world (k_env k)) = (Some tid, w1)" "rq w1 = rest"
      "aq w1 = aq (ke_world (k_env k))"
    using laws head by (cases "run_dequeue ops (ke_world (k_env k))") (fastforce simp: kernel_laws_def)
  let ?tasks = "k_tasks k @ aq (ke_world (k_env k))"
  obtain w2 where drain: "drain_added ops (k_tasks k) w1 = Some (?tasks, w2)" "aq w2 = []" "rq w2 = rest"
    using drain_added_eq [OF laws, of "k_tasks k" w1] deq by auto
  let ?env = "(k_env k)\<lparr>ke_world := w2\<rparr>"
  have inv2: "env_inv rq aq ?tasks ?env" and known: "tid \<in> task_id ` set ?tasks"
    using inv head drain by (auto simp: kernel_inv_def env_inv_def Let_def)
  obtain i where i: "find_task tid ?tasks = Some i"
    using known find_task_None [of tid ?tasks] by auto
  then have il: "i < length ?tasks" and it: "task_id (?tasks ! i) = tid"
    using find_task_Some [OF i] by simp_all
  have round: "kernel_round ops poll k = lbind (task_run poll (?tasks ! i) ?env) (\<lambda>(ready, t, env).
      lift_x (Ret (Polled tid ready (k\<lparr>k_tasks := ?tasks[i := t], k_env := env\<rparr>))))"
    by (simp add: kernel_round_def deq(1) drain(1) i Let_def)
  show thesis
  proof (cases rule: task_run_cases [of poll "?tasks ! i" ?env, case_names none panic ret])
    case none
    then show thesis
      using stuck round by simp
  next
    case (panic p)
    then show thesis
      using that(1) round by simp
  next
    case (ret ready t env')
    note x = ret
    have known': "task_id (?tasks ! i) \<in> task_id ` set (?tasks @ aq (ke_world ?env))"
      using known it by (simp add: drain)
    note run = task_run_Ret [OF laws ok x inv2 known']
    obtain f where t: "t = (?tasks ! i)\<lparr>task_future := f\<rparr>"
      using run(2) by blast
    have ids: "map task_id (?tasks[i := t]) = map task_id ?tasks"
      unfolding t by (rule map_task_id_update [OF il])
    have "env_inv rq aq (?tasks[i := t]) env'"
      using run(1) ids unfolding env_inv_def by (simp only: map_append)
    moreover obtain xs where "rq (ke_world env') = rest @ xs"
      using run(3) drain(3) by auto
    ultimately show thesis
      using polled [of ready "k\<lparr>k_tasks := ?tasks[i := t], k_env := env'\<rparr>" xs] round x ids
      by (simp add: kernel_inv_def)
  qed
qed

section \<open>Rounds in sequence\<close>

inductive kernel_polls ::
  "('f, 'w) kern_ops \<Rightarrow> ('f, 'w) poll_fn \<Rightarrow> ('f, 'w) kernel \<Rightarrow> nat list \<Rightarrow> ('f, 'w) kernel \<Rightarrow> bool"
  for ops poll where
  none: "kernel_polls ops poll k [] k"
| round: "kernel_round ops poll k = Some (Ret (Polled tid ready k')) \<Longrightarrow> kernel_polls ops poll k' ids k'' \<Longrightarrow>
    kernel_polls ops poll k (tid # ids) k''"

definition poll_total :: "('f, 'w) poll_fn \<Rightarrow> bool" where
  "poll_total poll \<longleftrightarrow> (\<forall>waker f env. \<exists>r. poll waker f env = Some (Ret r))"

lemma poll_totalD:
  assumes "poll_total poll"
  shows "poll waker f env \<noteq> None" and "poll waker f env \<noteq> Some (Panic p)"
proof -
  obtain r where "poll waker f env = Some (Ret r)" using assms unfolding poll_total_def by blast
  then show "poll waker f env \<noteq> None" "poll waker f env \<noteq> Some (Panic p)" by simp_all
qed

lemma kernel_polls_queue:
  assumes laws: "kernel_laws ops rq aq" and ok: "poll_ok ops rq aq poll" and "poll_total poll"
    and "kernel_inv rq aq k" and "rq (ke_world (k_env k)) = ids @ rest"
  shows "\<exists>k' xs. kernel_polls ops poll k ids k' \<and> kernel_inv rq aq k' \<and> rq (ke_world (k_env k')) = rest @ xs"
  using assms(4,5)
proof (induction ids arbitrary: k rest)
  case Nil
  then show ?case
    by (auto intro: kernel_polls.none)
next
  case (Cons tid ids)
  have head: "rq (ke_world (k_env k)) = tid # (ids @ rest)"
    using Cons.prems(2) by simp
  show ?case
  proof (cases rule: kernel_round_head [OF laws ok Cons.prems(1) head, case_names panic stuck polled])
    case (panic p)
    then have False
      using poll_totalD [OF assms(3)] by blast
    then show ?thesis ..
  next
    case stuck
    then have False
      using poll_totalD [OF assms(3)] by blast
    then show ?thesis ..
  next
    case (polled ready k' xs)
    obtain k'' ys where "kernel_polls ops poll k' ids k''" "kernel_inv rq aq k''"
        "rq (ke_world (k_env k'')) = (rest @ xs) @ ys"
      using Cons.IH [OF polled(2), of "rest @ xs"] polled(3) by auto
    then show ?thesis
      using kernel_polls.round [OF polled(1)] by auto
  qed
qed

section \<open>Concrete queues\<close>

record 'f list_queues =
  lq_run :: "nat list"
  lq_add :: "'f task list"

definition list_kern_ops :: "('f, 'f list_queues) kern_ops" where
  "list_kern_ops =
     \<lparr>run_enqueue = (\<lambda>tid w. (Some (), w\<lparr>lq_run := lq_run w @ [tid]\<rparr>)),
      run_dequeue = (\<lambda>w. (case lq_run w of [] \<Rightarrow> None | tid # _ \<Rightarrow> Some tid, w\<lparr>lq_run := tl (lq_run w)\<rparr>)),
      add_enqueue = (\<lambda>t w. (Some (), w\<lparr>lq_add := lq_add w @ [t]\<rparr>)),
      add_try_dequeue = (\<lambda>w. (case lq_add w of [] \<Rightarrow> None | t # _ \<Rightarrow> Some t, w\<lparr>lq_add := tl (lq_add w)\<rparr>))\<rparr>"

lemma list_kern_ops_laws: "kernel_laws list_kern_ops lq_run lq_add"
  by (simp add: kernel_laws_def list_kern_ops_def)

text \<open>A future that wakes itself until its counter is used up.\<close>

definition countdown_poll :: "(nat, nat list_queues) poll_fn" where
  "countdown_poll waker n env =
     lift_x (if n = 0 \<or> ke_wakers env waker = None then Ret (True, n, env)
      else xbind (waker_wake_by_ref list_kern_ops waker env) (\<lambda>env. Ret (False, n - 1, env)))"

lemma countdown_poll_ok: "poll_ok list_kern_ops lq_run lq_add countdown_poll"
  unfolding poll_ok_def
proof (intro allI impI)
  fix waker n env ready n' env'
  assume "countdown_poll waker n env = Some (Ret (ready, n', env'))"
  then consider "env' = env" | "waker_wake_by_ref list_kern_ops waker env = Ret env'"
    by (auto simp: countdown_poll_def split: if_splits elim!: xbind_eq_RetE)
  then show "(client_step list_kern_ops lq_run lq_add)\<^sup>*\<^sup>* env env'"
    by cases (auto intro: client_step.wake_by_ref)
qed

lemma countdown_poll_total: "poll_total countdown_poll"
  by (auto simp: poll_total_def countdown_poll_def waker_wake_by_ref_def list_kern_ops_def)

definition sample_kernel :: "(nat, nat list_queues) kernel" where
  "sample_kernel =
     (let k = kernel_setup \<lparr>lq_run = [], lq_add = []\<rparr> in
      k\<lparr>k_env := handle_add_task list_kern_ops 2 (handle_add_task list_kern_ops 1 (k_env k))\<rparr>)"

lemma sample_kernel_queues:
  "lq_run (ke_world (k_env sample_kernel)) = [0, 1]" "kernel_inv lq_run lq_add sample_kernel"
  by (simp_all add: sample_kernel_def kernel_setup_def handle_add_task_def list_kern_ops_def kernel_inv_def
      env_inv_def Let_def)

section \<open>Properties\<close>





text \<open>A future that parks by cloning its waker and is woken through the clone, \<open>n\<close> times.\<close>

fun wake_cycle :: "('f, 'w) kern_ops \<Rightarrow> nat \<Rightarrow> nat \<Rightarrow> 'w kernel_env \<Rightarrow> 'w kernel_env exec" where
  "wake_cycle ops ptr 0 env = Ret env"
| "wake_cycle ops ptr (Suc n) env =
     xbind (waker_clone ptr env) (\<lambda>(clone, env).
     xbind (waker_wake ops clone env) (wake_cycle ops ptr n))"

text \<open>
  Waking a task through a waker by value enqueues the task's id but does not release the
  waker's box: after \<open>n\<close> rounds of clone and wake the id is on the run queue \<open>n\<close> times and \<open>n\<close> more boxes
  are allocated than before.
\<close>

lemma wake_keeps_boxes:
  assumes laws: "kernel_laws ops rq aq" and "ke_wakers env ptr = Some tid"
    and "finite (dom (ke_wakers env))" and "\<forall>a \<in> dom (ke_wakers env). a < ke_next_waker env"
  shows "\<exists>env'. wake_cycle ops ptr n env = Ret env' \<and>
    rq (ke_world env') = rq (ke_world env) @ replicate n tid \<and>
    card (dom (ke_wakers env')) = card (dom (ke_wakers env)) + n"
  using assms(2-)
proof (induction n arbitrary: env)
  case (Suc n)
  let ?new = "ke_next_waker env"
  obtain w where w: "run_enqueue ops tid (ke_world env) = (Some (), w)" "rq w = rq (ke_world env) @ [tid]"
    using run_enqueue_queues(1,2) [OF laws, of tid "ke_world env"]
    by (cases "run_enqueue ops tid (ke_world env)") simp
  let ?env = "env\<lparr>ke_wakers := (ke_wakers env)(?new \<mapsto> tid), ke_next_waker := Suc ?new, ke_world := w\<rparr>"
  have step: "wake_cycle ops ptr (Suc n) env = wake_cycle ops ptr n ?env"
    using Suc.prems(1) w(1) by (simp add: waker_clone_def create_waker_def waker_wake_def)
  have fresh: "?new \<notin> dom (ke_wakers env)"
    using Suc.prems(3) by blast
  have "ptr \<noteq> ?new"
    using Suc.prems(1) fresh by auto
  then have ptr: "ke_wakers ?env ptr = Some tid"
    using Suc.prems(1) by simp
  have below: "\<forall>a \<in> dom (ke_wakers ?env). a < ke_next_waker ?env"
    using Suc.prems(3) by (auto simp: less_Suc_eq)
  have fin: "finite (dom (ke_wakers ?env))"
    using Suc.prems(2) by simp
  obtain env' where "wake_cycle ops ptr n ?env = Ret env'"
      "rq (ke_world env') = rq (ke_world ?env) @ replicate n tid"
      "card (dom (ke_wakers env')) = card (dom (ke_wakers ?env)) + n"
    using Suc.IH [OF ptr fin below] by blast
  moreover have "card (dom (ke_wakers ?env)) = Suc (card (dom (ke_wakers env)))"
    using fresh Suc.prems(2) by simp
  ultimately show ?case
    using step w(2) by auto
qed simp

end
