(* ===== verification/Net_Task.thy ===== *)
theory Net_Task
  imports Net_Wire Kernel_Exec
begin

text \<open>
  The network handler as a task of the executor: its future, what a poll of it does, and how the interrupt, the message
  queue, the waker and the run loop work together, so that frames on the card are answered without
  anything but interrupts and the run loop.
\<close>

section \<open>What an interrupt touches\<close>

text \<open>A relation between worlds that every access of the driver respects is respected by the interrupt handler.\<close>

definition card_moves :: "'w card_ops \<Rightarrow> ('w \<Rightarrow> 'w \<Rightarrow> bool) \<Rightarrow> bool" where
  "card_moves ops R \<longleftrightarrow>
     (\<forall>w. R w w) \<and> (\<forall>u v w. R u v \<longrightarrow> R v w \<longrightarrow> R u w) \<and>
     (\<forall>a w. R w (snd (rx_desc_read ops a w))) \<and> (\<forall>a d w. R w (rx_desc_write ops a d w)) \<and>
     (\<forall>a w. R w (snd (tx_desc_read ops a w))) \<and> (\<forall>a d w. R w (tx_desc_write ops a d w)) \<and>
     (\<forall>a w. R w (snd (mmio_read ops a w))) \<and> (\<forall>a v w. R w (mmio_write ops a v w)) \<and>
     (\<forall>b w. R w (snd (box_into_raw ops b w))) \<and> (\<forall>p w. R w (box_drop ops p w)) \<and>
     (\<forall>m w. R w (snd (op_msg_enqueue (co_net ops) m w))) \<and> (\<forall>q w. R w (snd (op_try_dequeue (co_net ops) q w)))"

lemma card_moves_refl: "card_moves ops R \<Longrightarrow> R w w"
  by (simp add: card_moves_def)

lemma card_moves_trans: "card_moves ops R \<Longrightarrow> R u v \<Longrightarrow> R v w \<Longrightarrow> R u w"
  unfolding card_moves_def by (elim conjE) blast

lemma card_moves_ops:
  assumes "card_moves ops R"
  shows "R w (snd (rx_desc_read ops a w))" "R w (rx_desc_write ops a d w)"
    "R w (snd (tx_desc_read ops a w))" "R w (tx_desc_write ops a d' w)"
    "R w (snd (mmio_read ops a w))" "R w (mmio_write ops a v w)"
    "R w (snd (box_into_raw ops b w))" "R w (box_drop ops a w)"
    "R w (snd (op_msg_enqueue (co_net ops) m w))" "R w (snd (op_try_dequeue (co_net ops) q w))"
  using assms by (simp_all add: card_moves_def)

lemma command_moves:
  assumes "card_moves ops R"
  shows "write_command (mmio ops) com r v w = Ret w' \<Longrightarrow> R w w'" and "read_command (mmio ops) com r w = Ret (x, w'') \<Longrightarrow> R w w''"
proof -
  show "R w w'" if "write_command (mmio ops) com r v w = Ret w'"
    using that card_moves_ops(6) [OF assms]
    by (auto simp: write_command_def mmio_def split: base_address_register.splits elim!: xbind_eq_RetE)
  show "R w w''" if "read_command (mmio ops) com r w = Ret (x, w'')"
    using that card_moves_ops(5) [OF assms]
    by (auto simp: read_command_def mmio_def split: base_address_register.splits elim!: xbind_eq_RetE) (metis snd_conv)
qed

lemma rx_step_moves:
  assumes "card_moves ops R" and "rx_step ops c w = Ret (b, c', w')"
  shows "R w w'"
proof -
  note ops = card_moves_ops [OF assms(1)] and trans = card_moves_trans [OF assms(1)]
  obtain desc w1 where rd: "rx_desc_read ops (desc_at (ec_rx_ptr c) (ec_cur_rx c)) w = (desc, w1)" by fastforce
  then have 1: "R w w1" using ops(1) by (metis snd_conv)
  show ?thesis
  proof (cases "rd_status desc AND 0b01 = 0")
    case True
    with assms(2) rd 1 show ?thesis by (simp add: rx_step_def)
  next
    case False
    then obtain m d com r v where "write_command (mmio ops) com r v (rx_desc_write ops (desc_at (ec_rx_ptr c) (ec_cur_rx c)) d
        (snd (op_msg_enqueue (co_net ops) m w1))) = Ret w'"
      using assms(2) rd by (auto simp: rx_step_def Let_def elim!: xbind_eq_RetE)
    from trans [OF trans [OF trans [OF 1 ops(9)] ops(2)] command_moves(1) [OF assms(1) this]] show ?thesis .
  qed
qed

lemma rx_loop_moves: "rx_loop ops c w = Some r \<Longrightarrow> card_moves ops R \<longrightarrow> (\<forall>x. r = Ret x \<longrightarrow> R w (snd x))"
proof (erule rx_loop.raw_induct [rotated], intro impI allI)
  fix loop and ops :: "'a card_ops" and c w r x
  assume IH: "\<And>ops c w r. loop ops c w = Some r \<Longrightarrow> card_moves ops R \<longrightarrow> (\<forall>x. r = Ret x \<longrightarrow> R w (snd x))"
    and body: "(case rx_step ops c w of
        Ret x \<Rightarrow> if fst x then loop ops (fst (snd x)) (snd (snd x)) else Some (Ret (snd x))
      | Panic p \<Rightarrow> Some (Panic p)) = Some r"
    and moves: "card_moves ops R" and r: "r = Ret x"
  obtain b c' w' where step: "rx_step ops c w = Ret (b, c', w')" using body r by (cases "rx_step ops c w") auto
  note R = rx_step_moves [OF moves step]
  show "R w (snd x)"
  proof (cases b)
    case True
    then have "loop ops c' w' = Some r" using body by (simp add: step)
    with IH moves r have "R w' (snd x)" by blast
    with R show ?thesis by (rule card_moves_trans [OF moves])
  qed (use body r R in \<open>auto simp: step\<close>)
qed

lemma enqueue_packet_moves:
  assumes "card_moves ops R" and "enqueue_packet ops c p n w = Ret (c', w')"
  shows "R w w'"
proof -
  note trans = card_moves_trans [OF assms(1)]
  obtain desc w1 where rd: "tx_desc_read ops (desc_at (ec_tx_ptr c) (ec_cur_tx c)) w = (desc, w1)" by fastforce
  then have 1: "R w w1" using card_moves_ops(3) [OF assms(1)] by (metis snd_conv)
  obtain a d com r v where "write_command (mmio ops) com r v (tx_desc_write ops a d w1) = Ret w'"
    using assms(2) rd by (auto simp: enqueue_packet_def Let_def elim!: xbind_eq_RetE)
  from trans [OF trans [OF 1 card_moves_ops(4) [OF assms(1)]] command_moves(1) [OF assms(1) this]] show ?thesis .
qed

lemma tx_send_moves: "card_moves ops R \<Longrightarrow> tx_send ops n c w = Ret (c', w') \<Longrightarrow> R w w'"
proof (induction n arbitrary: c w)
  case 0
  then show ?case by (simp add: card_moves_refl)
next
  case (Suc n)
  note trans = card_moves_trans [OF Suc.prems(1)] and ops = card_moves_ops [OF Suc.prems(1)]
  obtain p w1 where deq: "op_try_dequeue (co_net ops) (pqr_queue (ec_packet_queue c)) w = (p, w1)" by fastforce
  then have 1: "R w w1" using ops(10) by (metis snd_conv)
  show ?case
  proof (cases p)
    case None
    with Suc.prems(2) deq 1 show ?thesis by (simp add: packet_queue_dequeue_def)
  next
    case (Some packet)
    obtain ptr w2 where raw: "box_into_raw ops (buf_data (eth_into_buffer packet)) w1 = (ptr, w2)" by fastforce
    then have 2: "R w1 w2" using ops(7) by (metis snd_conv)
    obtain c3 w3 where enq: "enqueue_packet ops c ptr (buf_len (eth_into_buffer packet)) w2 = Ret (c3, w3)" "tx_send ops n c3 w3 = Ret (c', w')"
      using Suc.prems(2) deq Some raw by (auto simp: packet_queue_dequeue_def buffer_into_raw_def elim!: xbind_eq_RetE)
    show ?thesis
      by (rule trans [OF trans [OF trans [OF 1 2] enqueue_packet_moves [OF Suc.prems(1) enq(1)]] Suc.IH [OF Suc.prems(1) enq(2)]])
  qed
qed

lemma reclaim_step_moves:
  assumes "card_moves ops R" and "reclaim_step ops i c w = Ret (c', w')"
  shows "R w w'"
proof -
  obtain desc w1 where rd: "tx_desc_read ops (desc_at (ec_tx_ptr c) i) w = (desc, w1)" by fastforce
  then have 1: "R w w1" using card_moves_ops(3) [OF assms(1)] by (metis snd_conv)
  consider "w' = w1" | a where "w' = box_drop ops a w1"
    using assms(2) rd by (auto simp: reclaim_step_def drop_from_raw_def Let_def split: if_splits elim!: xbind_eq_RetE)
  then show ?thesis
    using 1 card_moves_ops(8) [OF assms(1)] card_moves_trans [OF assms(1)] by cases blast+
qed

lemma reclaim_loop_moves: "reclaim_loop ops h i c w = Some r \<Longrightarrow> card_moves ops R \<longrightarrow> (\<forall>x. r = Ret x \<longrightarrow> R w (snd x))"
proof (erule reclaim_loop.raw_induct [rotated], intro impI allI)
  fix loop and ops :: "'a card_ops" and h i c w r x
  assume IH: "\<And>ops h i c w r. loop ops h i c w = Some r \<Longrightarrow> card_moves ops R \<longrightarrow> (\<forall>x. r = Ret x \<longrightarrow> R w (snd x))"
    and body: "(if i = h then Some (Ret (c, w)) else (case reclaim_step ops i c w of
        Ret x \<Rightarrow> loop ops h ((i + 1) mod 8) (fst x) (snd x) | Panic p \<Rightarrow> Some (Panic p))) = Some r"
    and moves: "card_moves ops R" and r: "r = Ret x"
  show "R w (snd x)"
  proof (cases "i = h")
    case True
    with body r show ?thesis by (auto simp: card_moves_refl [OF moves])
  next
    case False
    then obtain c' w' where step: "reclaim_step ops i c w = Ret (c', w')" using body r by (cases "reclaim_step ops i c w") auto
    then have "loop ops h ((i + 1) mod 8) c' w' = Some r" using body False by simp
    with IH moves r have "R w' (snd x)" by blast
    with reclaim_step_moves [OF moves step] show ?thesis by (rule card_moves_trans [OF moves])
  qed
qed

lemma handle_interrupt_moves:
  assumes moves: "card_moves ops R" and "e1000_handle_interrupt ops c w = Some (Ret (c', w'))"
  shows "R w w'"
proof -
  note trans = card_moves_trans [OF moves]
  from assms(2) obtain cause w1 c2 w2 h w3 t w4 c5 w5 where
      1: "get_intterupt_cause ops c w = Ret (cause, w1)"
    and 2: "(if ic_rxt cause then rx_loop ops c w1 else lift_x (Ret (c, w1))) = Some (Ret (c2, w2))"
    and 3: "read_command (mmio ops) (ec_com c2) REG_TXDESCHEAD w2 = Ret (h, w3)"
    and 4: "read_command (mmio ops) (ec_com c2) REG_TXDESCTAIL w3 = Ret (t, w4)"
    and 5: "(if h = t \<and> (ic_txd_low cause \<or> ic_txdw cause) then tx_send ops TX_DESC c2 w4 else Ret (c2, w4)) = Ret (c5, w5)"
    and 6: "(if ic_txdw cause then reclaim_loop ops h (ec_last_reclaimed_tx c5 mod 8) c5 w5 else lift_x (Ret (c5, w5))) = Some (Ret (c', w'))"
    unfolding e1000_handle_interrupt_def by (auto simp: lbind_Ret_iff)
  have "R w w1" using 1 command_moves(2) [OF moves]
    by (auto simp: get_intterupt_cause_def register_read_def elim!: xbind_eq_RetE)
  moreover have "R w1 w2" using 2 rx_loop_moves [of ops c w1 "Ret (c2, w2)" R] moves card_moves_refl [OF moves]
    by (auto split: if_splits)
  moreover have "R w2 w3" "R w3 w4" using 3 4 command_moves(2) [OF moves] by blast+
  moreover have "R w4 w5" using 5 tx_send_moves [OF moves] card_moves_refl [OF moves] by (auto split: if_splits)
  moreover have "R w5 w'" using 6 reclaim_loop_moves [of ops h _ c5 w5 "Ret (c', w')" R] moves card_moves_refl [OF moves]
    by (auto split: if_splits)
  ultimately show ?thesis using trans by blast
qed

section \<open>The handler's future\<close>

text \<open>
  What the await on the message queue answers, the statics the handler works on and its local
  variables. The queue's receiver comes from \<^verbatim>\<open>nolock\<close>; where the statics are in the world is told by
  \<open>statics_get\<close> and \<open>statics_put\<close>.
\<close>

datatype recv_poll = Recv_Message handler_message | Recv_Closed | Recv_Pending

record handler_statics =
  hst_ips :: "ip_map option"
  hst_flags :: "nat \<Rightarrow> bool"
  hst_next_flag :: nat
  hst_notes :: "net_note list"

record 'w recv_ops =
  poll_dequeue :: "nat \<Rightarrow> 'w \<Rightarrow> recv_poll \<times> 'w"
  statics_get :: "'w \<Rightarrow> handler_statics"
  statics_put :: "handler_statics \<Rightarrow> 'w \<Rightarrow> 'w"

record 'w handler_locals =
  hl_devices :: "'w network_device list"
  hl_udp :: "u16 \<rightharpoonup> nat"
  hl_arp :: "ip4 \<rightharpoonup> nat"
  hl_ping :: "ip4 \<rightharpoonup> nat \<times> nat"

text \<open>The states of the compiled \<^verbatim>\<open>async fn\<close>: before its first poll, waiting for a message, and returned.\<close>

datatype 'w handler_future =
    Handler_Start "'w network_device list"
  | Handler_Waiting "'w handler_locals"
  | Handler_Done

definition handler_resume :: "'w recv_ops \<Rightarrow> 'w handler_locals \<Rightarrow> 'w \<Rightarrow> 'w handler_state" where
  "handler_resume rops l w =
     (let s = statics_get rops w in
      \<lparr>hs_devices = hl_devices l, hs_udp = hl_udp l, hs_arp = hl_arp l, hs_ping = hl_ping l, hs_ips = hst_ips s,
       hs_flags = hst_flags s, hs_next_flag = hst_next_flag s, hs_notes = hst_notes s, hs_world = w\<rparr>)"

definition handler_suspend :: "'w recv_ops \<Rightarrow> 'w handler_state \<Rightarrow> 'w handler_locals \<times> 'w" where
  "handler_suspend rops st =
     (\<lparr>hl_devices = hs_devices st, hl_udp = hs_udp st, hl_arp = hs_arp st, hl_ping = hs_ping st\<rparr>,
      statics_put rops \<lparr>hst_ips = hs_ips st, hst_flags = hs_flags st, hst_next_flag = hs_next_flag st, hst_notes = hs_notes st\<rparr>
        (hs_world st))"

text \<open>The loop from one await to the next that is not ready; \<open>True\<close> when the function returns.\<close>

partial_function (option) handler_await ::
  "'w net_ops \<Rightarrow> 'w recv_ops \<Rightarrow> nat \<Rightarrow> 'w handler_state \<Rightarrow> (bool \<times> 'w handler_state) exec option" where
  "handler_await ops rops waker st =
     (case fst (poll_dequeue rops waker (hs_world st)) of
        Recv_Pending \<Rightarrow> Some (Ret (False, st\<lparr>hs_world := snd (poll_dequeue rops waker (hs_world st))\<rparr>))
      | Recv_Closed \<Rightarrow> Some (Ret (True, st\<lparr>hs_world := snd (poll_dequeue rops waker (hs_world st))\<rparr>))
      | Recv_Message raw_message \<Rightarrow>
          (case handle_message ops raw_message (st\<lparr>hs_world := snd (poll_dequeue rops waker (hs_world st))\<rparr>) of
             Panic p \<Rightarrow> Some (Panic p)
           | Ret st \<Rightarrow> handler_await ops rops waker st))"

text \<open>A function that has returned must not be polled again.\<close>

definition handler_future_poll ::
  "'w net_ops \<Rightarrow> 'w recv_ops \<Rightarrow> nat \<Rightarrow> 'w handler_future \<Rightarrow> 'w \<Rightarrow> (bool \<times> 'w handler_future \<times> 'w) exec option" where
  "handler_future_poll ops rops waker fut w =
     lbind (case fut of
         Handler_Start devices \<Rightarrow>
           lift_x (handler_start ops devices
             (handler_resume rops \<lparr>hl_devices = [], hl_udp = Map.empty, hl_arp = Map.empty, hl_ping = Map.empty\<rparr> w))
       | Handler_Waiting l \<Rightarrow> lift_x (Ret (handler_resume rops l w))
       | Handler_Done \<Rightarrow> lift_x (Panic ExplicitPanic)) (\<lambda>st.
     lbind (handler_await ops rops waker st) (\<lambda>(ready, st).
     case handler_suspend rops st of (l, w) \<Rightarrow>
     lift_x (Ret (ready, if ready then Handler_Done else Handler_Waiting l, w))))"

text \<open>The handler among other tasks.\<close>

datatype ('w, 'g) net_task = Handler_Task "'w handler_future" | Other_Task 'g

definition net_task_poll ::
  "'x kernel_env net_ops \<Rightarrow> 'x kernel_env recv_ops \<Rightarrow> ('g, 'x) poll_fn \<Rightarrow> (('x kernel_env, 'g) net_task, 'x) poll_fn" where
  "net_task_poll ops rops other waker f env =
     (case f of
        Handler_Task h \<Rightarrow> lbind (handler_future_poll ops rops waker h env) (\<lambda>(ready, h, env). lift_x (Ret (ready, Handler_Task h, env)))
      | Other_Task g \<Rightarrow> lbind (other waker g env) (\<lambda>(ready, g, env). lift_x (Ret (ready, Other_Task g, env))))"

section \<open>What the parts rely on\<close>

text \<open>
  \<open>waiting x\<close> is the task the waker registered with the message queue wakes. An access of the driver other than
  a message sent leaves the executor's queues and the registration alone; a message sent wakes the registered
  task, once. The queue's receiver gives the first message, or registers the waker it is
  polled with. The executor taking an id off its queue changes nothing else.
\<close>

definition task_part ::
  "('x \<Rightarrow> nat list) \<Rightarrow> ('x \<Rightarrow> 'f task list) \<Rightarrow> ('x \<Rightarrow> nat option) \<Rightarrow> 'x kernel_env \<Rightarrow>
     (nat \<rightharpoonup> nat) \<times> nat list \<times> 'f task list \<times> nat option" where
  "task_part rq aq waiting env = (ke_wakers env, rq (ke_world env), aq (ke_world env), waiting (ke_world env))"

definition woken :: "'a \<times> nat list \<times> 'b \<times> nat option \<Rightarrow> 'a \<times> nat list \<times> 'b \<times> nat option" where
  "woken p = (case p of (wk, r, a, n) \<Rightarrow> (wk, (case n of None \<Rightarrow> r | Some tid \<Rightarrow> r @ [tid]), a, None))"

definition card_keeps :: "'w card_ops \<Rightarrow> ('w \<Rightarrow> 'p) \<Rightarrow> bool" where
  "card_keeps ops part \<longleftrightarrow>
     (\<forall>a w. part (snd (rx_desc_read ops a w)) = part w) \<and> (\<forall>a d w. part (rx_desc_write ops a d w) = part w) \<and>
     (\<forall>a w. part (snd (tx_desc_read ops a w)) = part w) \<and> (\<forall>a d w. part (tx_desc_write ops a d w) = part w) \<and>
     (\<forall>a w. part (snd (mmio_read ops a w)) = part w) \<and> (\<forall>a v w. part (mmio_write ops a v w) = part w) \<and>
     (\<forall>b w. part (snd (box_into_raw ops b w)) = part w) \<and> (\<forall>p w. part (box_drop ops p w) = part w) \<and>
     (\<forall>q p w. part (snd (op_enqueue (co_net ops) q p w)) = part w) \<and> (\<forall>q w. part (snd (op_try_dequeue (co_net ops) q w)) = part w)"

definition run_laws :: "('f, 'x) kern_ops \<Rightarrow> ('x \<Rightarrow> nat list) \<Rightarrow> ('x \<Rightarrow> 'f task list) \<Rightarrow> ('x \<Rightarrow> 'v) \<Rightarrow> bool" where
  "run_laws kops rq aq view \<longleftrightarrow>
     (\<forall>x tid rest. rq x = tid # rest \<longrightarrow> (\<exists>x'. run_dequeue kops x = (Some tid, x') \<and> rq x' = rest \<and> aq x' = aq x \<and> view x' = view x)) \<and>
     (\<forall>x. aq x = [] \<longrightarrow> (\<exists>x'. add_try_dequeue kops x = (None, x') \<and> rq x' = rq x \<and> aq x' = [] \<and> view x' = view x))"

definition recv_laws ::
  "'x kernel_env card_ops \<Rightarrow> 'x kernel_env recv_ops \<Rightarrow> ('x \<Rightarrow> nat list) \<Rightarrow> ('x \<Rightarrow> 'f task list) \<Rightarrow> ('x \<Rightarrow> nat option) \<Rightarrow> ('x \<Rightarrow> card_mem) \<Rightarrow> bool" where
  "recv_laws ops rops rq aq waiting view \<longleftrightarrow>
     (\<forall>m e. task_part rq aq waiting (snd (op_msg_enqueue (co_net ops) m e)) = woken (task_part rq aq waiting e)) \<and>
     (\<forall>ptr e m ms. cm_msgs (view (ke_world e)) = m # ms \<longrightarrow>
        (\<exists>e'. poll_dequeue rops ptr e = (Recv_Message m, e') \<and> view (ke_world e') = (view (ke_world e))\<lparr>cm_msgs := ms\<rparr> \<and>
           task_part rq aq waiting e' = task_part rq aq waiting e)) \<and>
     (\<forall>ptr e. cm_msgs (view (ke_world e)) = [] \<longrightarrow>
        (\<exists>e'. poll_dequeue rops ptr e = (Recv_Pending, e') \<and> view (ke_world e') = view (ke_world e) \<and>
           rq (ke_world e') = rq (ke_world e) \<and> aq (ke_world e') = aq (ke_world e) \<and> waiting (ke_world e') = ke_wakers e ptr)) \<and>
     (\<forall>s e. view (ke_world (statics_put rops s e)) = view (ke_world e) \<and> task_part rq aq waiting (statics_put rops s e) = task_part rq aq waiting e)"

text \<open>
  The executor idle but for the interrupts: nothing to run, no message, and the handler task \<open>tid\<close> waiting with its
  waker registered.
\<close>

definition handler_idle ::
  "('x \<Rightarrow> nat list) \<Rightarrow> (('x \<Rightarrow> (('x kernel_env, 'g) net_task) task list)) \<Rightarrow> ('x \<Rightarrow> nat option) \<Rightarrow> ('x \<Rightarrow> card_mem) \<Rightarrow> nat \<Rightarrow> 'x kernel_env handler_locals \<Rightarrow>
     (('x kernel_env, 'g) net_task, 'x) kernel \<Rightarrow> bool" where
  "handler_idle rq aq waiting view tid l k \<longleftrightarrow>
     rq (ke_world (k_env k)) = [] \<and> aq (ke_world (k_env k)) = [] \<and> waiting (ke_world (k_env k)) = Some tid \<and>
     cm_msgs (view (ke_world (k_env k))) = [] \<and>
     (\<exists>j. find_task tid (k_tasks k) = Some j \<and> task_future (k_tasks k ! j) = Handler_Task (Handler_Waiting l))"

section \<open>Lemmas\<close>

lemma woken_woken: "woken (woken p) = woken p"
  by (cases p) (simp add: woken_def)

text \<open>An interrupt that sends a message wakes what is registered; any other leaves the executor alone.\<close>

lemma interrupt_wakes:
  assumes keeps: "card_keeps ops (\<lambda>w. (part w, msgs w))" and send: "\<forall>m w. part (snd (op_msg_enqueue (co_net ops) m w)) = wake (part w)"
    and wake: "\<forall>p. wake (wake p) = wake p" and run: "e1000_handle_interrupt ops c w = Some (Ret (c', w'))"
  shows "part w' = part w \<and> msgs w' = msgs w \<or> part w' = wake (part w)"
proof -
  have "card_moves ops (\<lambda>w w'. part w' = part w \<and> msgs w' = msgs w \<or> part w' = wake (part w))"
    unfolding card_moves_def
  proof (intro conjI)
    show "\<forall>u v w. (part v = part u \<and> msgs v = msgs u \<or> part v = wake (part u)) \<longrightarrow>
        (part w = part v \<and> msgs w = msgs v \<or> part w = wake (part v)) \<longrightarrow> (part w = part u \<and> msgs w = msgs u \<or> part w = wake (part u))"
      using wake by metis
  qed (use keeps send in \<open>simp_all add: card_keeps_def\<close>)
  from handle_interrupt_moves [OF this run] show ?thesis .
qed

lemma sent_world_keeps: "card_keeps ops part \<Longrightarrow> part (sent_world ops c p w) = part w"
  by (simp add: card_keeps_def sent_world_def)

text \<open>The handler's loop on requests in the queue: it answers all of them and waits.\<close>

lemma await_pending:
  assumes "recv_laws ops rops rq aq waiting view" and "cm_msgs (view (ke_world e)) = []" and "ke_wakers e ptr = Some tid"
  shows "\<exists>e'. handler_await nops rops ptr (st\<lparr>hs_world := e\<rparr>) = Some (Ret (False, st\<lparr>hs_world := e'\<rparr>)) \<and>
    view (ke_world e') = view (ke_world e) \<and> rq (ke_world e') = rq (ke_world e) \<and> aq (ke_world e') = aq (ke_world e) \<and>
    waiting (ke_world e') = Some tid"
proof -
  have "\<exists>e'. poll_dequeue rops ptr e = (Recv_Pending, e') \<and> view (ke_world e') = view (ke_world e) \<and>
      rq (ke_world e') = rq (ke_world e) \<and> aq (ke_world e') = aq (ke_world e) \<and> waiting (ke_world e') = ke_wakers e ptr"
    using assms(1,2) unfolding recv_laws_def by (elim conjE) simp
  then obtain e' where "poll_dequeue rops ptr e = (Recv_Pending, e')" "view (ke_world e') = view (ke_world e)"
      "rq (ke_world e') = rq (ke_world e)" "aq (ke_world e') = aq (ke_world e)" "waiting (ke_world e') = ke_wakers e ptr"
    by (elim exE conjE)
  then show ?thesis using assms(3) by (intro exI [of _ e']) (simp add: handler_await.simps)
qed

lemma await_message:
  assumes "recv_laws ops rops rq aq waiting view" and "cm_msgs (view (ke_world e)) = m # ms"
  shows "\<exists>e1. view (ke_world e1) = (view (ke_world e))\<lparr>cm_msgs := ms\<rparr> \<and> task_part rq aq waiting e1 = task_part rq aq waiting e \<and>
    (\<forall>st st1. handle_message nops m (st\<lparr>hs_world := e1\<rparr>) = Ret st1 \<longrightarrow>
      handler_await nops rops ptr (st\<lparr>hs_world := e\<rparr>) = handler_await nops rops ptr st1)"
proof -
  have "\<exists>e'. poll_dequeue rops ptr e = (Recv_Message m, e') \<and> view (ke_world e') = (view (ke_world e))\<lparr>cm_msgs := ms\<rparr> \<and>
      task_part rq aq waiting e' = task_part rq aq waiting e"
    using assms unfolding recv_laws_def by (elim conjE) simp
  then obtain e' where "poll_dequeue rops ptr e = (Recv_Message m, e')" "view (ke_world e') = (view (ke_world e))\<lparr>cm_msgs := ms\<rparr>"
      "task_part rq aq waiting e' = task_part rq aq waiting e" by (elim exE conjE)
  then show ?thesis by (intro exI [of _ e']) (simp add: handler_await.simps [of _ _ _ "_\<lparr>hs_world := e\<rparr>"])
qed

lemma requests_awaited:
  assumes laws: "wire_laws ops (\<lambda>e. view (ke_world e)) phys" "recv_laws ops rops rq aq waiting view"
      "card_keeps ops (task_part rq aq waiting)" "com_ok (ec_com c)"
    and dev: "find_device k (hs_devices st) = Some i" "paired ops c (hs_devices st ! i)"
    and "list_all2 (arp_request_to (hs_devices st ! i)) ps as"
    and "cm_msgs (view (ke_world e)) = map (\<lambda>p. Msg_Packet (raw_of k p)) ps" and "ke_wakers e ptr = Some tid"
  shows "\<exists>e'. handler_await (co_net ops) rops ptr (st\<lparr>hs_world := e\<rparr>) = Some (Ret (False, st\<lparr>hs_world := e'\<rparr>)) \<and>
    view (ke_world e') = queued_for c (map (arp_reply (hs_devices st ! i)) as) ((view (ke_world e))\<lparr>cm_msgs := []\<rparr>) \<and>
    rq (ke_world e') = rq (ke_world e) \<and> aq (ke_world e') = aq (ke_world e) \<and> waiting (ke_world e') = Some tid"
  using assms(7-)
proof (induction ps as arbitrary: e rule: list_all2_induct)
  case Nil
  have same: "queued_for c (map (arp_reply (hs_devices st ! i)) []) ((view (ke_world e))\<lparr>cm_msgs := []\<rparr>) = view (ke_world e)"
    using Nil(1) by (simp add: queued_for_def)
  show ?case unfolding same by (rule await_pending [OF laws(2)]) (use Nil in simp_all)
next
  case (Cons p ps a as)
  let ?d = "hs_devices st ! i" and ?ms = "map (\<lambda>p. Msg_Packet (raw_of k p)) ps"
  obtain e1 where e1: "view (ke_world e1) = (view (ke_world e))\<lparr>cm_msgs := ?ms\<rparr>" "task_part rq aq waiting e1 = task_part rq aq waiting e"
    and step: "\<forall>st st1. handle_message (co_net ops) (Msg_Packet (raw_of k p)) (st\<lparr>hs_world := e1\<rparr>) = Ret st1 \<longrightarrow>
      handler_await (co_net ops) rops ptr (st\<lparr>hs_world := e\<rparr>) = handler_await (co_net ops) rops ptr st1"
    using await_message [OF laws(2), of e "Msg_Packet (raw_of k p)" ?ms "co_net ops" ptr] Cons.prems(1) by auto
  define e2 where "e2 = sent_world ops c (arp_reply ?d a) e1"
  have "handle_packet (co_net ops) (raw_of k p) (st\<lparr>hs_world := e1\<rparr>) = Ret (st\<lparr>hs_world := e2\<rparr>)"
    using arp_request_handled [of k "st\<lparr>hs_world := e1\<rparr>" i p a] dev(1) Cons.hyps(1)
      device_send_wire [OF laws(4) dev(2), where p = "arp_reply ?d a" and st = st and w = e1] by (simp add: e2_def)
  then have run: "handler_await (co_net ops) rops ptr (st\<lparr>hs_world := e\<rparr>) = handler_await (co_net ops) rops ptr (st\<lparr>hs_world := e2\<rparr>)"
    using step by simp
  have v2: "view (ke_world e2) = queued_for c [arp_reply ?d a] (view (ke_world e1))"
    unfolding e2_def by (rule sent_world_view [OF laws(1)])
  have p2: "task_part rq aq waiting e2 = task_part rq aq waiting e"
    using sent_world_keeps [OF laws(3)] e1(2) by (simp add: e2_def)
  have "cm_msgs (view (ke_world e2)) = ?ms" "ke_wakers e2 ptr = Some tid"
    using p2 Cons.prems(2) by (simp_all add: v2 e1(1) queued_for_def task_part_def)
  from Cons.IH [OF this] obtain e' where e': "handler_await (co_net ops) rops ptr (st\<lparr>hs_world := e2\<rparr>) = Some (Ret (False, st\<lparr>hs_world := e'\<rparr>))"
      "view (ke_world e') = queued_for c (map (arp_reply ?d) as) ((view (ke_world e2))\<lparr>cm_msgs := []\<rparr>)"
      "rq (ke_world e') = rq (ke_world e2)" "aq (ke_world e') = aq (ke_world e2)" "waiting (ke_world e') = Some tid" by (elim exE conjE)
  have "(view (ke_world e2))\<lparr>cm_msgs := []\<rparr> = queued_for c [arp_reply ?d a] ((view (ke_world e))\<lparr>cm_msgs := []\<rparr>)"
    by (simp add: v2 e1(1) queued_for_def)
  then have "view (ke_world e') = queued_for c (map (arp_reply ?d) (a # as)) ((view (ke_world e))\<lparr>cm_msgs := []\<rparr>)"
    using e'(2) by (simp add: queued_for_append)
  with e' run p2 show ?case by (intro exI [of _ e']) (simp add: task_part_def)
qed

text \<open>The round of the run loop that polls the woken handler.\<close>

lemma drain_none:
  assumes "add_try_dequeue kops x = (None, x')"
  shows "drain_added kops ts x = Some (ts, x')"
  by (simp add: drain_added.simps assms)

lemma handler_poll_requests:
  assumes laws: "wire_laws ops (\<lambda>e. view (ke_world e)) phys" "recv_laws ops rops rq aq waiting view"
      "card_keeps ops (task_part rq aq waiting)" "com_ok (ec_com c)"
    and dev: "find_device k (hl_devices l) = Some i" "paired ops c (hl_devices l ! i)"
    and reqs: "list_all2 (arp_request_to (hl_devices l ! i)) ps as"
    and msgs: "cm_msgs (view (ke_world e)) = map (\<lambda>p. Msg_Packet (raw_of k p)) ps" and ptr: "ke_wakers e ptr = Some tid"
  shows "\<exists>e'. handler_future_poll (co_net ops) rops ptr (Handler_Waiting l) e = Some (Ret (False, Handler_Waiting l, e')) \<and>
    view (ke_world e') = queued_for c (map (arp_reply (hl_devices l ! i)) as) ((view (ke_world e))\<lparr>cm_msgs := []\<rparr>) \<and>
    rq (ke_world e') = rq (ke_world e) \<and> aq (ke_world e') = aq (ke_world e) \<and> waiting (ke_world e') = Some tid"
proof -
  define st where "st = handler_resume rops l e"
  have st: "hs_devices st = hl_devices l" "st\<lparr>hs_world := e\<rparr> = st" by (simp_all add: st_def handler_resume_def Let_def)
  obtain e1 where e1: "handler_await (co_net ops) rops ptr (st\<lparr>hs_world := e\<rparr>) = Some (Ret (False, st\<lparr>hs_world := e1\<rparr>))"
      "view (ke_world e1) = queued_for c (map (arp_reply (hl_devices l ! i)) as) ((view (ke_world e))\<lparr>cm_msgs := []\<rparr>)"
      "rq (ke_world e1) = rq (ke_world e)" "aq (ke_world e1) = aq (ke_world e)" "waiting (ke_world e1) = Some tid"
    using requests_awaited [OF laws, of k st i ps as e ptr tid] dev reqs msgs ptr unfolding st(1) by auto
  let ?s = "\<lparr>hst_ips = hs_ips st, hst_flags = hs_flags st, hst_next_flag = hs_next_flag st, hst_notes = hs_notes st\<rparr>"
  have put: "view (ke_world (statics_put rops ?s e1)) = view (ke_world e1)"
      "task_part rq aq waiting (statics_put rops ?s e1) = task_part rq aq waiting e1"
    using laws(2) unfolding recv_laws_def by (elim conjE, simp)+
  have "handler_suspend rops (st\<lparr>hs_world := e1\<rparr>) = (l, statics_put rops ?s e1)"
    by (cases l) (simp add: handler_suspend_def st_def handler_resume_def Let_def)
  then have "handler_future_poll (co_net ops) rops ptr (Handler_Waiting l) e = Some (Ret (False, Handler_Waiting l, statics_put rops ?s e1))"
    using e1(1) by (simp add: handler_future_poll_def st(2) flip: st_def)
  then show ?thesis using e1 put by (intro exI [of _ "statics_put rops ?s e1"]) (simp add: task_part_def)
qed

lemma handler_round:
  assumes laws: "wire_laws ops (\<lambda>e. view (ke_world e)) phys" "recv_laws ops rops rq aq waiting view"
      "card_keeps ops (task_part rq aq waiting)" "com_ok (ec_com c)" and run: "run_laws kops rq aq (\<lambda>x. (view x, waiting x))"
    and dev: "find_device i (hl_devices l) = Some n" "paired ops c (hl_devices l ! n)"
    and reqs: "list_all2 (arp_request_to (hl_devices l ! n)) ps as"
    and msgs: "cm_msgs (view (ke_world (k_env k))) = map (\<lambda>p. Msg_Packet (raw_of i p)) ps"
    and queues: "rq (ke_world (k_env k)) = [tid]" "aq (ke_world (k_env k)) = []"
    and task: "find_task tid (k_tasks k) = Some j" "task_future (k_tasks k ! j) = Handler_Task (Handler_Waiting l)"
  shows "\<exists>k'. kernel_round kops (net_task_poll (co_net ops) rops other) k = Some (Ret (Polled tid False k')) \<and>
    handler_idle rq aq waiting view tid l k' \<and>
    view (ke_world (k_env k')) = queued_for c (map (arp_reply (hl_devices l ! n)) as) ((view (ke_world (k_env k)))\<lparr>cm_msgs := []\<rparr>)"
proof -
  obtain x1 where x1: "run_dequeue kops (ke_world (k_env k)) = (Some tid, x1)" "rq x1 = []" "aq x1 = []" "view x1 = view (ke_world (k_env k))"
    using run queues unfolding run_laws_def by (elim conjE allE [of _ "ke_world (k_env k)"]) auto
  obtain x2 where x2: "add_try_dequeue kops x1 = (None, x2)" "rq x2 = []" "aq x2 = []" "view x2 = view x1"
    using run x1(2,3) unfolding run_laws_def by (elim conjE allE [of _ x1]) auto
  obtain ptr e where e: "create_waker tid ((k_env k)\<lparr>ke_world := x2\<rparr>) = (ptr, e)" "ke_wakers e ptr = Some tid" "ke_world e = x2"
    by (simp add: create_waker_def)
  have "cm_msgs (view (ke_world e)) = map (\<lambda>p. Msg_Packet (raw_of i p)) ps" using msgs by (simp add: e(3) x2(4) x1(4))
  from handler_poll_requests [OF laws dev reqs this e(2)] obtain e' where
    e': "handler_future_poll (co_net ops) rops ptr (Handler_Waiting l) e = Some (Ret (False, Handler_Waiting l, e'))"
      "view (ke_world e') = queued_for c (map (arp_reply (hl_devices l ! n)) as) ((view (ke_world e))\<lparr>cm_msgs := []\<rparr>)"
      "rq (ke_world e') = rq (ke_world e)" "aq (ke_world e') = aq (ke_world e)" "waiting (ke_world e') = Some tid" by (elim exE conjE)
  have id: "task_id (k_tasks k ! j) = tid" "j < length (k_tasks k)" using find_task_Some [OF task(1)] by simp_all
  have same: "(k_tasks k ! j)\<lparr>task_future := Handler_Task (Handler_Waiting l)\<rparr> = k_tasks k ! j"
    using task(2) by (cases "k_tasks k ! j") simp
  have run: "task_run (net_task_poll (co_net ops) rops other) (k_tasks k ! j) ((k_env k)\<lparr>ke_world := x2\<rparr>) =
      Some (Ret (False, k_tasks k ! j, waker_drop ptr e'))"
    using e(1) e'(1) by (simp add: task_run_def id(1) task(2) net_task_poll_def same)
  let ?k = "k\<lparr>k_env := waker_drop ptr e'\<rparr>"
  have "kernel_round kops (net_task_poll (co_net ops) rops other) k = Some (Ret (Polled tid False ?k))"
    by (simp add: kernel_round_def x1(1) drain_none [OF x2(1)] task(1) run)
  moreover have "handler_idle rq aq waiting view tid l ?k"
    using e' e(3) x2 task by (auto simp: handler_idle_def waker_drop_def queued_for_def)
  moreover have "view (ke_world (k_env ?k)) = queued_for c (map (arp_reply (hl_devices l ! n)) as) ((view (ke_world (k_env k)))\<lparr>cm_msgs := []\<rparr>)"
    using e'(2) by (simp add: waker_drop_def e(3) x2(4) x1(4))
  ultimately show ?thesis by blast
qed

lemma card_keeps_fst: "card_keeps ops (\<lambda>e. (f e, g e)) \<Longrightarrow> card_keeps ops f"
  by (simp add: card_keeps_def)

text \<open>The receive interrupt: the messages are queued and the waiting handler is on the run queue.\<close>

lemma interrupt_runs_handler:
  assumes laws: "wire_laws ops (\<lambda>e. view (ke_world e)) phys" "recv_laws ops rops rq aq waiting view"
      "card_keeps ops (\<lambda>e. (task_part rq aq waiting e, cm_msgs (view (ke_world e))))" and inv: "card_inv c"
    and cause: "ic_rxt (cause_of c (view (ke_world e)))" "\<not> ic_txdw (cause_of c (view (ke_world e)))" "\<not> ic_txd_low (cause_of c (view (ke_world e)))"
    and ring: "0 < m" "m \<le> 32" "\<forall>j < m. rx_filled c (view (ke_world e)) j" "m < 32 \<longrightarrow> \<not> rx_filled c (view (ke_world e)) m"
    and eoi: "\<forall>b e. view (ke_world (pic_notify_end iops b e)) = view (ke_world e) \<and> task_part rq aq waiting (pic_notify_end iops b e) = task_part rq aq waiting e"
    and ns: "ns_handle_queue ns" "ns_int_devices ns = Some (Some [c])"
    and idle: "rq (ke_world e) = []" "waiting (ke_world e) = Some tid"
  shows "\<exists>e' regs. network_interrupt ops iops ns e = Some (Ret (ns\<lparr>ns_int_devices := Some (Some [c\<lparr>ec_cur_rx := rx_index c m\<rparr>])\<rparr>, e')) \<and>
    view (ke_world e') = (rx_done c m (view (ke_world e)))\<lparr>cm_regs := regs\<rparr> \<and> rq (ke_world e') = [tid] \<and> aq (ke_world e') = aq (ke_world e)"
proof -
  have card: "card_laws ops (\<lambda>e. view (ke_world e)) phys" using laws(1) by (simp add: wire_laws_def)
  obtain e0 regs where rx: "e1000_handle_interrupt ops c e = Some (Ret (c\<lparr>ec_cur_rx := rx_index c m\<rparr>, e0))"
      "view (ke_world e0) = (rx_done c m (view (ke_world e)))\<lparr>cm_regs := regs\<rparr>"
    using handle_interrupt_rx [OF card inv cause ring(2)] ring(3,4) by auto
  have send: "\<forall>m e. task_part rq aq waiting (snd (op_msg_enqueue (co_net ops) m e)) = woken (task_part rq aq waiting e)"
    using laws(2) unfolding recv_laws_def by (elim conjE)
  have "cm_msgs (view (ke_world e0)) \<noteq> cm_msgs (view (ke_world e))" using ring(1) by (simp add: rx(2) rx_done_def)
  with interrupt_wakes [OF laws(3) send _ rx(1)] woken_woken
  have "task_part rq aq waiting e0 = woken (task_part rq aq waiting e)" by blast
  with idle have "rq (ke_world e0) = [tid]" "aq (ke_world e0) = aq (ke_world e)" by (simp_all add: task_part_def woken_def)
  with eoi rx network_interrupt_one [OF ns rx(1), of iops] show ?thesis
    by (intro exI [of _ "pic_notify_end iops (PIC_1_OFFSET + 0xb) e0"] exI [of _ regs]) (simp add: task_part_def)
qed

section \<open>A kernel with one card\<close>

record task_world =
  tkw_run :: "nat list"
  tkw_card :: card_world
  tkw_waiting :: "nat option"
  tkw_statics :: handler_statics

type_synonym task_env = "task_world kernel_env"

definition on_card :: "(card_world \<Rightarrow> 'a \<times> card_world) \<Rightarrow> task_env \<Rightarrow> 'a \<times> task_env" where
  "on_card f e = (case f (tkw_card (ke_world e)) of (r, w) \<Rightarrow> (r, e\<lparr>ke_world := (ke_world e)\<lparr>tkw_card := w\<rparr>\<rparr>))"

definition to_card :: "(card_world \<Rightarrow> card_world) \<Rightarrow> task_env \<Rightarrow> task_env" where
  "to_card f e = e\<lparr>ke_world := (ke_world e)\<lparr>tkw_card := f (tkw_card (ke_world e))\<rparr>\<rparr>"

definition wake_waiting :: "task_env \<Rightarrow> task_env" where
  "wake_waiting e =
     (let x = ke_world e in
      e\<lparr>ke_world := x\<lparr>tkw_run := (case tkw_waiting x of None \<Rightarrow> tkw_run x | Some tid \<Rightarrow> tkw_run x @ [tid]), tkw_waiting := None\<rparr>\<rparr>)"

definition task_net_ops :: "task_env net_ops" where
  "task_net_ops =
     \<lparr>op_queue_new = on_card (op_queue_new mem_net_ops), op_enqueue = (\<lambda>q p. on_card (op_enqueue mem_net_ops q p)),
      op_try_dequeue = (\<lambda>q. on_card (op_try_dequeue mem_net_ops q)),
      op_msg_enqueue = (\<lambda>m e. apsnd wake_waiting (on_card (op_msg_enqueue mem_net_ops m) e)),
      op_arp_new = on_card (op_arp_new mem_net_ops), op_arp_try_enqueue = (\<lambda>q m. on_card (op_arp_try_enqueue mem_net_ops q m)),
      op_udp_try_enqueue = (\<lambda>q p. on_card (op_udp_try_enqueue mem_net_ops q p)), op_wake = (\<lambda>k e. e)\<rparr>"

definition task_card_ops :: "task_env card_ops" where
  "task_card_ops =
     \<lparr>mmio_write = (\<lambda>a v. to_card (mmio_write mem_ops a v)), mmio_read = (\<lambda>a. on_card (mmio_read mem_ops a)),
      co_net = task_net_ops,
      rx_desc_read = (\<lambda>a. on_card (rx_desc_read mem_ops a)), rx_desc_write = (\<lambda>a d. to_card (rx_desc_write mem_ops a d)),
      tx_desc_read = (\<lambda>a. on_card (tx_desc_read mem_ops a)), tx_desc_write = (\<lambda>a d. to_card (tx_desc_write mem_ops a d)),
      mem_slice = (\<lambda>a n e. mem_slice mem_ops a n (tkw_card (ke_world e))),
      box_into_raw = (\<lambda>b. on_card (box_into_raw mem_ops b)), box_drop = (\<lambda>p. to_card (box_drop mem_ops p)),
      heap_alloc = (\<lambda>n al. on_card (heap_alloc mem_ops n al)), mapping_ready = (\<lambda>e. mapping_ready mem_ops (tkw_card (ke_world e))),
      translate_addr = (\<lambda>a e. translate_addr mem_ops a (tkw_card (ke_world e)))\<rparr>"

definition task_recv_ops :: "task_env recv_ops" where
  "task_recv_ops =
     \<lparr>poll_dequeue = (\<lambda>ptr e.
        case cm_msgs (cw_mem (tkw_card (ke_world e))) of
          [] \<Rightarrow> (Recv_Pending, e\<lparr>ke_world := (ke_world e)\<lparr>tkw_waiting := ke_wakers e ptr\<rparr>\<rparr>)
        | m # ms \<Rightarrow> (Recv_Message m, to_card (on_mem (\<lambda>c. c\<lparr>cm_msgs := ms\<rparr>)) e)),
      statics_get = (\<lambda>e. tkw_statics (ke_world e)), statics_put = (\<lambda>s e. e\<lparr>ke_world := (ke_world e)\<lparr>tkw_statics := s\<rparr>\<rparr>)\<rparr>"

definition task_kern_ops :: "('f, task_world) kern_ops" where
  "task_kern_ops =
     \<lparr>run_enqueue = (\<lambda>tid x. (Some (), x\<lparr>tkw_run := tkw_run x @ [tid]\<rparr>)),
      run_dequeue = (\<lambda>x. (case tkw_run x of [] \<Rightarrow> None | tid # _ \<Rightarrow> Some tid, x\<lparr>tkw_run := tl (tkw_run x)\<rparr>)),
      add_enqueue = (\<lambda>t x. (None, x)), add_try_dequeue = (\<lambda>x. (None, x))\<rparr>"

definition task_device :: "task_env network_device" where
  "task_device =
     \<lparr>nd_id = 3, nd_mac = Mac 82 84 0 18 52 86,
      nd_packet_queue = \<lparr>pqs_queue = 0, pqs_notify = send_notify task_card_ops (ec_com sample_card)\<rparr>,
      nd_metadata = \<lparr>nm_mac = Mac 82 84 0 18 52 86, nm_ip = Some (Ip4 10 0 2 15), nm_dhcp = Ex_Initial\<rparr>, nd_udp_bindings = Map.empty\<rparr>"

definition task_locals :: "task_env handler_locals" where
  "task_locals = \<lparr>hl_devices = [task_device], hl_udp = Map.empty, hl_arp = Map.empty, hl_ping = Map.empty\<rparr>"

definition task_kernel :: "((task_env, unit) net_task, task_world) kernel" where
  "task_kernel =
     \<lparr>k_tasks = [\<lparr>task_id = 1, task_future = Handler_Task (Handler_Waiting task_locals)\<rparr>],
      k_env = \<lparr>ke_count = 2, ke_wakers = Map.empty, ke_next_waker = 0,
        ke_world = \<lparr>tkw_run = [], tkw_card = wire_world, tkw_waiting = Some 1,
          tkw_statics = \<lparr>hst_ips = Some ip_map_new, hst_flags = (\<lambda>_. False), hst_next_flag = 0, hst_notes = []\<rparr>\<rparr>\<rparr>\<rparr>"

definition task_idt :: "(driver_entry, nat \<Rightarrow> driver_entry handler option, task_env) idt_ops" where
  "task_idt = table_idt_ops (\<lambda>_. (0xff, 0xff)) (\<lambda>_ e. e)"

definition task_view :: "task_world \<Rightarrow> card_mem" where
  "task_view x = cw_view (tkw_card x)"

lemma task_wire_laws: "wire_laws task_card_ops (\<lambda>e. task_view (ke_world e)) (\<lambda>a. a)"
proof -
  have "co_net mem_ops = mem_net_ops" by (simp add: mem_ops_def)
  then show ?thesis
    using wire_mem_laws unfolding wire_laws_def card_laws_def
    by (simp add: task_card_ops_def task_net_ops_def task_view_def on_card_def to_card_def wake_waiting_def Let_def split_def)
qed

lemma task_keeps: "card_keeps task_card_ops (\<lambda>e. (task_part tkw_run (\<lambda>_. []) tkw_waiting e, cm_msgs (task_view (ke_world e))))"
  by (simp add: card_keeps_def task_card_ops_def task_net_ops_def task_part_def task_view_def on_card_def to_card_def split_def
      cw_view_def mem_ops_def mem_net_ops_def on_mem_def)

lemma task_recv_laws: "recv_laws task_card_ops task_recv_ops tkw_run (\<lambda>_. []) tkw_waiting task_view"
  unfolding recv_laws_def
  by (simp add: task_card_ops_def task_net_ops_def task_recv_ops_def task_part_def task_view_def on_card_def to_card_def wake_waiting_def
      woken_def Let_def split_def cw_view_def on_mem_def split: option.splits)

lemma task_run_laws: "run_laws task_kern_ops tkw_run (\<lambda>_. []) (\<lambda>x. (task_view x, tkw_waiting x))"
  by (simp add: run_laws_def task_kern_ops_def task_view_def)

section \<open>Properties\<close>

text \<open>
  C10: with the executor idle and the handler waiting on its queue, up to seven ARP requests that the card has received
  are answered by interrupts and the run loop alone: the interrupt queues them and wakes the handler through its waker, the
  next round of the run loop polls it, the poll answers all of them and leaves the handler waiting again,
  and when the card raises the interrupt asked for, the answers are in the transmit ring in the order of the
  requests.
\<close>

theorem arp_wire_to_wire:
  assumes laws: "wire_laws ops (\<lambda>e. view (ke_world e)) phys" "recv_laws ops rops rq aq waiting view"
      "card_keeps ops (\<lambda>e. (task_part rq aq waiting e, cm_msgs (view (ke_world e))))" "run_laws kops rq aq (\<lambda>x. (view x, waiting x))"
    and inv: "card_inv c" and idle: "handler_idle rq aq waiting view tid l k" and v: "v = view (ke_world (k_env k))"
    and cause: "ic_rxt (cause_of c v)" "\<not> ic_txdw (cause_of c v)" "\<not> ic_txd_low (cause_of c v)"
    and ring: "as \<noteq> []" "length as \<le> 7" "\<forall>j < length as. rx_filled c v j" "\<not> rx_filled c v (length as)"
    and dev: "find_device (ec_id c) (hl_devices l) = Some n" "paired ops c (hl_devices l ! n)"
    and reqs: "\<forall>j < length as. arp_request_to (hl_devices l ! n) (rx_packet c v j) (as ! j)"
    and eoi: "\<forall>b e. view (ke_world (pic_notify_end iops b e)) = view (ke_world e) \<and> task_part rq aq waiting (pic_notify_end iops b e) = task_part rq aq waiting e"
    and ns: "ns_handle_queue ns" "ns_int_devices ns = Some (Some [c])"
    and free: "cm_queue v (pqr_queue (ec_packet_queue c)) = []" "8 \<le> cm_room v"
  shows "\<exists>ns1 e1 k1. network_interrupt ops iops ns (k_env k) = Some (Ret (ns1, e1)) \<and>
    kernel_round kops (net_task_poll (co_net ops) rops other) (k\<lparr>k_env := e1\<rparr>) = Some (Ret (Polled tid False k1)) \<and>
    handler_idle rq aq waiting view tid l k1 \<and>
    (\<forall>e2. card_raises c (view (ke_world (k_env k1))) (view (ke_world e2)) \<longrightarrow>
      (\<exists>ns2 e3. network_interrupt ops iops ns1 e2 = Some (Ret (ns2, e3)) \<and> answered phys c (hl_devices l ! n) as (view (ke_world e3))))"
proof -
  let ?m = "length as" and ?d = "hl_devices l ! n" and ?q = "pqr_queue (ec_packet_queue c)"
  obtain j where k: "rq (ke_world (k_env k)) = []" "aq (ke_world (k_env k)) = []" "waiting (ke_world (k_env k)) = Some tid" "cm_msgs v = []"
      "find_task tid (k_tasks k) = Some j" "task_future (k_tasks k ! j) = Handler_Task (Handler_Waiting l)"
    using idle unfolding handler_idle_def v by (elim conjE exE)
  have com: "com_ok (ec_com c)" and card: "card_laws ops (\<lambda>e. view (ke_world e)) phys"
    using inv laws(1) by (simp_all add: card_inv_def wire_laws_def)
  let ?ns = "ns\<lparr>ns_int_devices := Some (Some [c\<lparr>ec_cur_rx := rx_index c ?m\<rparr>])\<rparr>"
  have m: "0 < ?m" "?m \<le> 32" "?m < 32 \<longrightarrow> \<not> rx_filled c v ?m" using ring by auto
  from interrupt_runs_handler [OF laws(1-3) inv cause [unfolded v] m(1,2) ring(3) [unfolded v] m(3) [unfolded v] eoi ns k(1,3)]
  obtain e1 regs where e1: "network_interrupt ops iops ns (k_env k) = Some (Ret (?ns, e1))"
      "view (ke_world e1) = (rx_done c ?m v)\<lparr>cm_regs := regs\<rparr>" "rq (ke_world e1) = [tid]" "aq (ke_world e1) = []"
    unfolding v k(2) by (elim exE conjE)
  have msgs: "cm_msgs (view (ke_world e1)) = map (\<lambda>p. Msg_Packet (raw_of (ec_id c) p)) (map (rx_packet c v) [0 ..< ?m])"
    by (simp add: e1(2) rx_done_def k(4) rx_message_raw comp_def)
  have "list_all2 (arp_request_to ?d) (map (rx_packet c v) [0 ..< ?m]) as"
    using reqs by (simp add: list_all2_conv_all_nth)
  from handler_round [OF laws(1,2) card_keeps_fst [OF laws(3)] com laws(4) dev this, of "k\<lparr>k_env := e1\<rparr>" tid j other] msgs e1(3,4) k(5,6)
  obtain k1 where k1: "kernel_round kops (net_task_poll (co_net ops) rops other) (k\<lparr>k_env := e1\<rparr>) = Some (Ret (Polled tid False k1))"
      "handler_idle rq aq waiting view tid l k1"
      "view (ke_world (k_env k1)) = queued_for c (map (arp_reply ?d) as) ((view (ke_world e1))\<lparr>cm_msgs := []\<rparr>)" by auto
  have queued: "cm_queue (view (ke_world (k_env k1))) ?q = map (arp_reply ?d) as" "8 \<le> cm_room (view (ke_world (k_env k1)))"
      "cm_regs (view (ke_world (k_env k1))) (reg_target (ec_com c) 0xc8) = 0x8000"
    using ring(1) free by (simp_all add: k1(3) e1(2) queued_for_def rx_done_def)
  have "\<exists>ns2 e3. network_interrupt ops iops ?ns e2 = Some (Ret (ns2, e3)) \<and> answered phys c ?d as (view (ke_world e3))"
    if "card_raises c (view (ke_world (k_env k1))) (view (ke_world e2))" for e2
    by (rule raised_answers [OF card card_inv_received [OF inv] ring(1) _ queued that]) (use ring(2) eoi ns in simp_all)
  with e1(1) k1(1,2) show ?thesis by blast
qed

theorem arp_wire_to_wire_witness:
  "\<exists>a ns1 e1 k1 ns2 e2. arp_request_to task_device wire_request a \<and>
    network_interrupt task_card_ops task_idt \<lparr>ns_int_devices = Some (Some [sample_card]), ns_device_queues = None, ns_handle_queue = True, ns_ips = None\<rparr>
      (k_env task_kernel) = Some (Ret (ns1, e1)) \<and>
    kernel_round task_kern_ops (net_task_poll task_net_ops task_recv_ops (\<lambda>_ g e. Some (Ret (True, g, e)))) (task_kernel\<lparr>k_env := e1\<rparr>) =
      Some (Ret (Polled 1 False k1)) \<and>
    network_interrupt task_card_ops task_idt ns1 (to_card wire_raise (k_env k1)) = Some (Ret (ns2, e2)) \<and>
    answered (\<lambda>a. a) sample_card task_device [a] (task_view (ke_world e2))"
proof -
  define a where "a = (case arp_packet_new wire_request of Ret (Some a) \<Rightarrow> a)"
  have a: "arp_request_to task_device wire_request a"
    by (simp add: a_def arp_request_to_def wire_request_def arp_sent_read addressed_to_def task_device_def
        arp_packet_operation_def arp_packet_dest_ip_def)
  let ?ns = "\<lparr>ns_int_devices = Some (Some [sample_card]), ns_device_queues = None, ns_handle_queue = True, ns_ips = None\<rparr>"
  have v: "cw_view wire_world = task_view (ke_world (k_env task_kernel))" by (simp add: task_kernel_def task_view_def)
  have idle: "handler_idle tkw_run (\<lambda>_. []) tkw_waiting task_view 1 task_locals task_kernel"
    by (simp add: handler_idle_def task_kernel_def task_view_def wire_view sample_view_sel)
  have dev: "find_device (ec_id sample_card) (hl_devices task_locals) = Some 0" "hl_devices task_locals ! 0 = task_device"
      "paired task_card_ops sample_card task_device"
    by (simp_all add: task_locals_def task_device_def sample_card_def paired_def)
  have eoi: "\<forall>b e. task_view (ke_world (pic_notify_end task_idt b e)) = task_view (ke_world e) \<and>
      task_part tkw_run (\<lambda>_. []) tkw_waiting (pic_notify_end task_idt b e) = task_part tkw_run (\<lambda>_. []) tkw_waiting e"
    by (simp add: task_idt_def table_idt_ops_def)
  have free: "cm_queue (cw_view wire_world) q = []" "8 \<le> cm_room (cw_view wire_world)" for q by (simp_all add: wire_view sample_view_sel)
  have net: "co_net task_card_ops = task_net_ops" by (simp add: task_card_ops_def)
  have raise: "card_raises sample_card (task_view (ke_world e)) (task_view (ke_world (to_card wire_raise e)))" for e
    by (simp add: task_view_def to_card_def wire_raises)
  obtain ns1 e1 k1 where "network_interrupt task_card_ops task_idt ?ns (k_env task_kernel) = Some (Ret (ns1, e1))"
      "kernel_round task_kern_ops (net_task_poll task_net_ops task_recv_ops (\<lambda>_ g e. Some (Ret (True, g, e)))) (task_kernel\<lparr>k_env := e1\<rparr>) =
        Some (Ret (Polled 1 False k1))"
      "\<forall>e2. card_raises sample_card (task_view (ke_world (k_env k1))) (task_view (ke_world e2)) \<longrightarrow>
        (\<exists>ns2 e3. network_interrupt task_card_ops task_idt ns1 e2 = Some (Ret (ns2, e3)) \<and>
          answered (\<lambda>a. a) sample_card task_device [a] (task_view (ke_world e3)))"
    using arp_wire_to_wire [OF task_wire_laws task_recv_laws task_keeps task_run_laws sample_card_inv idle v, where as = "[a]" and iops = task_idt
        and ns = ?ns and other = "\<lambda>_ g e. Some (Ret (True, g, e))"] dev a eoi free
    by (simp add: wire_cause ic_from_def wire_filled sample_index wire_packet net) blast
  with a raise show ?thesis by blast
qed

end
