(* ===== verification/Acpi.thy ===== *)
theory Acpi
  imports Rust_Prelude
begin

text \<open>
  \<^verbatim>\<open>acpi.rs\<close>, \<^verbatim>\<open>acpi/ptr.rs\<close>, \<^verbatim>\<open>acpi/acpi.rs\<close> and \<^verbatim>\<open>acpi/acpi/aml.rs\<close>: physical pointers and their
  translation, the root pointer, the table of tables, the entries of the interrupt controller table
  and the beginning of a byte code parser.

  Memory is a function from virtual addresses to bytes; \<^verbatim>\<open>read::<T>\<close> of a packed type takes the bytes from
  the address on and reads numbers little endian. A mapper is a function from physical to virtual
  addresses that may panic, as the only mapper of the repository does on overflow.
\<close>

section \<open>Pointers\<close>

type_synonym ram = "u64 \<Rightarrow> u8"
type_synonym mapper = "u64 \<Rightarrow> u64 exec"

datatype physical_ptr = PhysicalPtr u64

datatype virtual_ptr = VirtualPtr u64

fun physical_translate :: "mapper \<Rightarrow> physical_ptr \<Rightarrow> virtual_ptr exec" where
  "physical_translate mapping (PhysicalPtr p) = xbind (mapping p) (\<lambda>addr. Ret (VirtualPtr addr))"

fun physical_add_raw :: "physical_ptr \<Rightarrow> u64 \<Rightarrow> physical_ptr exec" where
  "physical_add_raw (PhysicalPtr p) offset = xbind (add_w p offset) (\<lambda>q. Ret (PhysicalPtr q))"

fun virtual_add_raw :: "virtual_ptr \<Rightarrow> u64 \<Rightarrow> virtual_ptr exec" where
  "virtual_add_raw (VirtualPtr p) offset = xbind (add_w p offset) (\<lambda>q. Ret (VirtualPtr q))"

text \<open>The bytes of a value of \<open>n\<close> bytes, and little endian numbers.\<close>

fun virtual_read :: "ram \<Rightarrow> virtual_ptr \<Rightarrow> nat \<Rightarrow> bytes" where
  "virtual_read mem (VirtualPtr p) n = map (\<lambda>i. mem (p + of_nat i)) [0 ..< n]"

definition le_word :: "bytes \<Rightarrow> 'a::len word" where
  "le_word bs = foldr (\<lambda>b acc. ucast b OR push_bit 8 acc) bs 0"

definition le_at :: "nat \<Rightarrow> nat \<Rightarrow> bytes \<Rightarrow> 'a::len word" where
  "le_at n off bs = le_word (take n (drop off bs))"

definition read_u8 :: "ram \<Rightarrow> virtual_ptr \<Rightarrow> u8" where
  "read_u8 mem ptr = virtual_read mem ptr 1 ! 0"

definition read_u16 :: "ram \<Rightarrow> virtual_ptr \<Rightarrow> u16" where
  "read_u16 mem ptr = le_word (virtual_read mem ptr 2)"

definition read_u32 :: "ram \<Rightarrow> virtual_ptr \<Rightarrow> u32" where
  "read_u32 mem ptr = le_word (virtual_read mem ptr 4)"

definition read_u64 :: "ram \<Rightarrow> virtual_ptr \<Rightarrow> u64" where
  "read_u64 mem ptr = le_word (virtual_read mem ptr 8)"

record offset_mapper =
  om_offset :: u64

definition offset_mapper_new :: "u64 \<Rightarrow> offset_mapper" where
  "offset_mapper_new offset = \<lparr>om_offset = offset\<rparr>"

definition offset_mapper_map :: "offset_mapper \<Rightarrow> mapper" where
  "offset_mapper_map self physical = add_w physical (om_offset self)"

section \<open>Root pointer and table of tables\<close>

record rsdp =
  rsdp_signature :: bytes
  rsdp_checksum :: u8
  rsdp_oemid :: bytes
  rsdp_revision :: u8
  rsdp_rsdt_addr :: physical_ptr

record sdt_header =
  sdt_signature :: bytes
  sdt_length :: u32
  sdt_revision :: u8
  sdt_checksum :: u8
  sdt_oemid :: bytes
  sdt_oemtableid :: bytes
  sdt_oemrevision :: u32
  sdt_creatorid :: u32
  sdt_creatorrevision :: u32

record rsdt =
  rsdt_header :: sdt_header
  rsdt_start :: physical_ptr
  rsdt_size :: nat
  rsdt_count :: nat

record rsdt_iter =
  ri_ptr :: physical_ptr
  ri_size :: u64
  ri_left :: nat

definition sdt_header_size :: nat where
  "sdt_header_size = 36"

text \<open>The raw root pointer structure has twenty bytes, the address of the table being the last four.\<close>

definition rsdp_load :: "ram \<Rightarrow> physical_ptr \<Rightarrow> mapper \<Rightarrow> rsdp exec" where
  "rsdp_load mem physical_ptr mapping =
     xbind (physical_translate mapping physical_ptr) (\<lambda>target_ptr.
     let raw = virtual_read mem target_ptr 20 in
     Ret \<lparr>rsdp_signature = take 8 raw, rsdp_checksum = raw ! 8, rsdp_oemid = take 6 (drop 9 raw),
       rsdp_revision = raw ! 15, rsdp_rsdt_addr = PhysicalPtr (ucast (le_at 4 16 raw :: u32))\<rparr>)"

definition sdt_decode :: "bytes \<Rightarrow> sdt_header" where
  "sdt_decode bs =
     \<lparr>sdt_signature = take 4 bs, sdt_length = le_at 4 4 bs, sdt_revision = bs ! 8, sdt_checksum = bs ! 9,
       sdt_oemid = take 6 (drop 10 bs), sdt_oemtableid = take 8 (drop 16 bs), sdt_oemrevision = le_at 4 24 bs,
       sdt_creatorid = le_at 4 28 bs, sdt_creatorrevision = le_at 4 32 bs\<rparr>"

definition sdt_header_load :: "ram \<Rightarrow> physical_ptr \<Rightarrow> mapper \<Rightarrow> sdt_header exec" where
  "sdt_header_load mem ptr mapping =
     xbind (physical_translate mapping ptr) (\<lambda>target_ptr.
     Ret (sdt_decode (virtual_read mem target_ptr sdt_header_size)))"

text \<open>\<^verbatim>\<open>core::str::from_utf8\<close>: the byte sequences it accepts.\<close>

definition utf8_cont :: "u8 \<Rightarrow> bool" where
  "utf8_cont b \<longleftrightarrow> 0x80 \<le> b \<and> b \<le> 0xbf"

fun utf8_valid :: "bytes \<Rightarrow> bool" where
  "utf8_valid [] = True"
| "utf8_valid (b # bs) =
     (if b < 0x80 then utf8_valid bs
      else if 0xc2 \<le> b \<and> b \<le> 0xdf then
        (case bs of c # bs' \<Rightarrow> utf8_cont c \<and> utf8_valid bs' | _ \<Rightarrow> False)
      else if 0xe0 \<le> b \<and> b \<le> 0xef then
        (case bs of c # d # bs' \<Rightarrow>
           (if b = 0xe0 then 0xa0 \<le> c \<and> c \<le> 0xbf else if b = 0xed then 0x80 \<le> c \<and> c \<le> 0x9f else utf8_cont c) \<and>
           utf8_cont d \<and> utf8_valid bs'
         | _ \<Rightarrow> False)
      else if 0xf0 \<le> b \<and> b \<le> 0xf4 then
        (case bs of c # d # e # bs' \<Rightarrow>
           (if b = 0xf0 then 0x90 \<le> c \<and> c \<le> 0xbf else if b = 0xf4 then 0x80 \<le> c \<and> c \<le> 0x8f else utf8_cont c) \<and>
           utf8_cont d \<and> utf8_cont e \<and> utf8_valid bs'
         | _ \<Rightarrow> False)
      else False)"

definition ascii_bytes :: "string \<Rightarrow> bytes" where
  "ascii_bytes s = map (\<lambda>c. of_nat (of_char c)) s"

definition sdt_signature_str :: "sdt_header \<Rightarrow> bytes exec" where
  "sdt_signature_str self = unwrap (if utf8_valid (sdt_signature self) then Some (sdt_signature self) else None)"

definition rsdt_load :: "ram \<Rightarrow> physical_ptr \<Rightarrow> mapper \<Rightarrow> rsdt exec" where
  "rsdt_load mem ptr mapping =
     xbind (sdt_header_load mem ptr mapping) (\<lambda>header.
     xbind (sdt_signature_str header) (\<lambda>signature_str.
     let ptr_size = (if signature_str = ascii_bytes ''XSDT'' then 8 else 4) in
     xbind (sub_usize (unat (sdt_length header)) sdt_header_size) (\<lambda>n.
     let entries = n div ptr_size in
     xbind (physical_add_raw ptr (of_nat sdt_header_size)) (\<lambda>start.
     Ret \<lparr>rsdt_header = header, rsdt_start = start, rsdt_size = ptr_size, rsdt_count = entries\<rparr>))))"

definition rsdp_load_rsdt :: "ram \<Rightarrow> rsdp \<Rightarrow> mapper \<Rightarrow> rsdt exec" where
  "rsdp_load_rsdt mem self mapping = rsdt_load mem (rsdp_rsdt_addr self) mapping"

definition rsdt_iter_of :: "rsdt \<Rightarrow> rsdt_iter" where
  "rsdt_iter_of self = \<lparr>ri_ptr = rsdt_start self, ri_size = of_nat (rsdt_size self), ri_left = rsdt_count self\<rparr>"

definition rsdt_next ::
  "ram \<Rightarrow> mapper \<Rightarrow> rsdt_iter \<Rightarrow> ((sdt_header \<times> physical_ptr) option \<times> rsdt_iter) exec" where
  "rsdt_next mem mapping self =
     (if ri_left self = 0 then Ret (None, self)
      else
        xbind (physical_translate mapping (ri_ptr self)) (\<lambda>current.
        let raw_header_ptr = PhysicalPtr (if ri_size self = 4 then ucast (read_u32 mem current) else read_u64 mem current) in
        xbind (sdt_header_load mem raw_header_ptr mapping) (\<lambda>header.
        xbind (physical_add_raw raw_header_ptr (of_nat sdt_header_size)) (\<lambda>rest_ptr.
        xbind (physical_add_raw (ri_ptr self) (ri_size self)) (\<lambda>ptr.
        Ret (Some (header, rest_ptr), self\<lparr>ri_ptr := ptr, ri_left := ri_left self - 1\<rparr>))))))"

declare xbind_cong [fundef_cong]

lemma rsdt_next_left: "rsdt_next mem mapping self = Ret (Some x, self') \<Longrightarrow> ri_left self' < ri_left self"
  by (auto simp: rsdt_next_def Let_def xbind_Ret_iff split: if_splits)

text \<open>Consuming the iterator with \<^verbatim>\<open>.map(f)\<close>.\<close>

function rsdt_map :: "ram \<Rightarrow> mapper \<Rightarrow> (sdt_header \<times> physical_ptr \<Rightarrow> 'a exec) \<Rightarrow> rsdt_iter \<Rightarrow> 'a list exec" where
  "rsdt_map mem mapping f it =
     xbind (rsdt_next mem mapping it) (\<lambda>r.
     case r of
       (None, _) \<Rightarrow> Ret []
     | (Some x, it') \<Rightarrow> xbind (f x) (\<lambda>y. xbind (rsdt_map mem mapping f it') (\<lambda>ys. Ret (y # ys))))"
  by auto

termination
  by (relation "measure (\<lambda>(_, _, _, it). ri_left it)") (auto dest: rsdt_next_left)

section \<open>Tables\<close>

record generic_address_structure =
  gas_address_space :: u8
  gas_bit_width :: u8
  gas_bit_offset :: u8
  gas_access_size :: u8
  gas_address :: u64

definition gas_decode :: "bytes \<Rightarrow> generic_address_structure" where
  "gas_decode bs =
     \<lparr>gas_address_space = bs ! 0, gas_bit_width = bs ! 1, gas_bit_offset = bs ! 2, gas_access_size = bs ! 3,
       gas_address = le_at 8 4 bs\<rparr>"

text \<open>The packed structure of \<^verbatim>\<open>FADT\<close>; its three reserved fields are private and never read.\<close>

record fadt =
  fadt_firmware_ctrl :: u32
  fadt_dsdt :: u32
  fadt_preferred_power_management_profile :: u8
  fadt_sci_interrupt :: u16
  fadt_smi_command_port :: u32
  fadt_acpi_enable :: u8
  fadt_acpi_disable :: u8
  fadt_s4bios_req :: u8
  fadt_pstate_control :: u8
  fadt_pm1a_event_block :: u32
  fadt_pm1b_event_block :: u32
  fadt_pm1a_control_block :: u32
  fadt_pm1b_control_block :: u32
  fadt_pm2_control_block :: u32
  fadt_pmtimer_block :: u32
  fadt_gpe0_block :: u32
  fadt_gpe1_block :: u32
  fadt_pm1_event_length :: u8
  fadt_pm1_control_length :: u8
  fadt_pm2_control_length :: u8
  fadt_pmtimer_length :: u8
  fadt_gpe0_length :: u8
  fadt_gpe1_length :: u8
  fadt_gpe1_base :: u8
  fadt_cstate_control :: u8
  fadt_worst_c2_latency :: u16
  fadt_worst_c3_latency :: u16
  fadt_flush_size :: u16
  fadt_flush_stride :: u16
  fadt_duty_offset :: u8
  fadt_duty_width :: u8
  fadt_day_alarm :: u8
  fadt_month_alarm :: u8
  fadt_century :: u8
  fadt_boot_architecture_flags :: u16
  fadt_flags :: u32
  fadt_reset_reg :: generic_address_structure
  fadt_reset_value :: u8
  fadt_x_firmware_control :: u64
  fadt_x_dsdt :: u64
  fadt_x_pm1a_event_block :: generic_address_structure
  fadt_x_pm1b_event_block :: generic_address_structure
  fadt_x_pm1a_control_block :: generic_address_structure
  fadt_x_pm1b_control_block :: generic_address_structure
  fadt_x_pm2_control_block :: generic_address_structure
  fadt_x_pmtimer_block :: generic_address_structure
  fadt_x_gpe0_block :: generic_address_structure
  fadt_x_gpe1_block :: generic_address_structure

definition fadt_decode :: "bytes \<Rightarrow> fadt" where
  "fadt_decode bs =
     \<lparr>fadt_firmware_ctrl = le_at 4 0 bs,
       fadt_dsdt = le_at 4 4 bs,
       fadt_preferred_power_management_profile = bs ! 9,
       fadt_sci_interrupt = le_at 2 10 bs,
       fadt_smi_command_port = le_at 4 12 bs,
       fadt_acpi_enable = bs ! 16,
       fadt_acpi_disable = bs ! 17,
       fadt_s4bios_req = bs ! 18,
       fadt_pstate_control = bs ! 19,
       fadt_pm1a_event_block = le_at 4 20 bs,
       fadt_pm1b_event_block = le_at 4 24 bs,
       fadt_pm1a_control_block = le_at 4 28 bs,
       fadt_pm1b_control_block = le_at 4 32 bs,
       fadt_pm2_control_block = le_at 4 36 bs,
       fadt_pmtimer_block = le_at 4 40 bs,
       fadt_gpe0_block = le_at 4 44 bs,
       fadt_gpe1_block = le_at 4 48 bs,
       fadt_pm1_event_length = bs ! 52,
       fadt_pm1_control_length = bs ! 53,
       fadt_pm2_control_length = bs ! 54,
       fadt_pmtimer_length = bs ! 55,
       fadt_gpe0_length = bs ! 56,
       fadt_gpe1_length = bs ! 57,
       fadt_gpe1_base = bs ! 58,
       fadt_cstate_control = bs ! 59,
       fadt_worst_c2_latency = le_at 2 60 bs,
       fadt_worst_c3_latency = le_at 2 62 bs,
       fadt_flush_size = le_at 2 64 bs,
       fadt_flush_stride = le_at 2 66 bs,
       fadt_duty_offset = bs ! 68,
       fadt_duty_width = bs ! 69,
       fadt_day_alarm = bs ! 70,
       fadt_month_alarm = bs ! 71,
       fadt_century = bs ! 72,
       fadt_boot_architecture_flags = le_at 2 73 bs,
       fadt_flags = le_at 4 76 bs,
       fadt_reset_reg = gas_decode (drop 80 bs),
       fadt_reset_value = bs ! 92,
       fadt_x_firmware_control = le_at 8 96 bs,
       fadt_x_dsdt = le_at 8 104 bs,
       fadt_x_pm1a_event_block = gas_decode (drop 112 bs),
       fadt_x_pm1b_event_block = gas_decode (drop 124 bs),
       fadt_x_pm1a_control_block = gas_decode (drop 136 bs),
       fadt_x_pm1b_control_block = gas_decode (drop 148 bs),
       fadt_x_pm2_control_block = gas_decode (drop 160 bs),
       fadt_x_pmtimer_block = gas_decode (drop 172 bs),
       fadt_x_gpe0_block = gas_decode (drop 184 bs),
       fadt_x_gpe1_block = gas_decode (drop 196 bs)\<rparr>"

definition fadt_size :: nat where
  "fadt_size = 208"

record acip_apic_entry =
  apic_local_addr :: u32
  apic_flags :: u32
  apic_starting_addr :: physical_ptr
  apic_remaining :: u32

datatype acip_entry =
    Apic acip_apic_entry
  | FADT fadt
  | HighPrecisionEventTimer sdt_header physical_ptr
  | WindowsACPIEmulatedDevices sdt_header physical_ptr
  | Acip_Unknown sdt_header physical_ptr

definition acip_entry_load :: "ram \<Rightarrow> sdt_header \<Rightarrow> physical_ptr \<Rightarrow> mapper \<Rightarrow> acip_entry exec" where
  "acip_entry_load mem header other mapping =
     xbind (sdt_signature_str header) (\<lambda>signature.
     if signature = ascii_bytes ''APIC'' then
       xbind (physical_translate mapping other) (\<lambda>ptr.
       let local_addr = read_u32 mem ptr in
       xbind (virtual_add_raw ptr 4) (\<lambda>ptr4.
       let flags = read_u32 mem ptr4 in
       xbind (physical_add_raw other 8) (\<lambda>starting_addr.
       xbind (sub_w (sdt_length header) 8) (\<lambda>n.
       xbind (sub_w n (of_nat sdt_header_size)) (\<lambda>remaining.
       Ret (Apic \<lparr>apic_local_addr = local_addr, apic_flags = flags, apic_starting_addr = starting_addr,
         apic_remaining = remaining\<rparr>))))))
     else if signature = ascii_bytes ''FACP'' then
       xbind (physical_translate mapping other) (\<lambda>ptr. Ret (FADT (fadt_decode (virtual_read mem ptr fadt_size))))
     else if signature = ascii_bytes ''HPET'' then Ret (HighPrecisionEventTimer header other)
     else if signature = ascii_bytes ''WAET'' then Ret (WindowsACPIEmulatedDevices header other)
     else Ret (Acip_Unknown header other))"

section \<open>Interrupt controller entries\<close>

datatype apic_entry =
    ProcessLocal u8 u8 u32
  | IOApic u8 u8 u32 u32
  | IOApicInterruptSourceOverride u8 u8 u32 u16
  | LocalApicNonMaskableInterrupts u8 u16 u8
  | Apic_Unknown u8

record apic_iter =
  ai_ptr :: physical_ptr
  ai_remaining_size :: u32

definition apic_entries :: "acip_apic_entry \<Rightarrow> apic_iter" where
  "apic_entries self = \<lparr>ai_ptr = apic_starting_addr self, ai_remaining_size = apic_remaining self\<rparr>"

text \<open>Reading a number at an offset from a virtual pointer.\<close>

definition at_u8 :: "ram \<Rightarrow> virtual_ptr \<Rightarrow> u64 \<Rightarrow> u8 exec" where
  "at_u8 mem ptr off = xbind (virtual_add_raw ptr off) (\<lambda>p. Ret (read_u8 mem p))"

definition at_u16 :: "ram \<Rightarrow> virtual_ptr \<Rightarrow> u64 \<Rightarrow> u16 exec" where
  "at_u16 mem ptr off = xbind (virtual_add_raw ptr off) (\<lambda>p. Ret (read_u16 mem p))"

definition at_u32 :: "ram \<Rightarrow> virtual_ptr \<Rightarrow> u64 \<Rightarrow> u32 exec" where
  "at_u32 mem ptr off = xbind (virtual_add_raw ptr off) (\<lambda>p. Ret (read_u32 mem p))"

definition apic_entry_at :: "ram \<Rightarrow> virtual_ptr \<Rightarrow> u8 \<Rightarrow> apic_entry exec" where
  "apic_entry_at mem ptr e_type =
     (if e_type = 0 then
        xbind (at_u8 mem ptr 2) (\<lambda>processor_id.
        xbind (at_u8 mem ptr 3) (\<lambda>apic_id.
        xbind (at_u32 mem ptr 4) (\<lambda>flags.
        Ret (ProcessLocal processor_id apic_id flags))))
      else if e_type = 1 then
        xbind (at_u8 mem ptr 2) (\<lambda>apic_id.
        xbind (at_u8 mem ptr 3) (\<lambda>reserved.
        xbind (at_u32 mem ptr 4) (\<lambda>address.
        xbind (at_u32 mem ptr 8) (\<lambda>gsi_base.
        Ret (IOApic apic_id reserved address gsi_base)))))
      else if e_type = 2 then
        xbind (at_u8 mem ptr 2) (\<lambda>bus_source.
        xbind (at_u8 mem ptr 3) (\<lambda>irq_source.
        xbind (at_u32 mem ptr 4) (\<lambda>gsi.
        xbind (at_u16 mem ptr 8) (\<lambda>flags.
        Ret (IOApicInterruptSourceOverride bus_source irq_source gsi flags)))))
      else if e_type = 4 then
        xbind (at_u8 mem ptr 2) (\<lambda>acpi_processor_id.
        xbind (at_u16 mem ptr 3) (\<lambda>flags.
        xbind (at_u8 mem ptr 5) (\<lambda>lint.
        Ret (LocalApicNonMaskableInterrupts acpi_processor_id flags lint))))
      else Ret (Apic_Unknown e_type))"

definition apic_next :: "ram \<Rightarrow> mapper \<Rightarrow> apic_iter \<Rightarrow> (apic_entry option \<times> apic_iter) exec" where
  "apic_next mem mapping self =
     (if ai_remaining_size self = 0 then Ret (None, self)
      else
        xbind (physical_translate mapping (ai_ptr self)) (\<lambda>ptr.
        let e_type = read_u8 mem ptr in
        xbind (at_u8 mem ptr 1) (\<lambda>e_length.
        xbind (apic_entry_at mem ptr e_type) (\<lambda>entry.
        xbind (physical_add_raw (ai_ptr self) (ucast e_length)) (\<lambda>ptr.
        xbind (sub_w (ai_remaining_size self) (ucast e_length)) (\<lambda>remaining.
        Ret (Some entry, \<lparr>ai_ptr = ptr, ai_remaining_size = remaining\<rparr>)))))))"

text \<open>A loop over the entries; an entry of length zero is read again and again.\<close>

partial_function (option) apic_collect :: "ram \<Rightarrow> mapper \<Rightarrow> apic_iter \<Rightarrow> apic_entry list exec option" where
  "apic_collect mem mapping it =
     (case apic_next mem mapping it of
        Panic p \<Rightarrow> Some (Panic p)
      | Ret (None, _) \<Rightarrow> Some (Ret [])
      | Ret (Some e, it') \<Rightarrow>
          Option.bind (apic_collect mem mapping it') (\<lambda>r. Some (xbind r (\<lambda>es. Ret (e # es)))))"

section \<open>Byte code\<close>

text \<open>What the parser prints; it has no other result.\<close>

datatype aml_event =
    Initial_Length u8
  | Next_Bytes u8
  | Handle_ScopeOp
  | Aml_Length nat
  | Root_Char
  | Leading_Name u8
  | Inner u8
  | Unknown_Leading_OP u8

type_synonym aml_out = "aml_event list"

text \<open>A length, or \<open>None\<close> at the end of the input, with the output and the rest of the input.\<close>

definition parse_pkg_length :: "bytes \<Rightarrow> (nat option \<times> aml_out \<times> bytes) exec" where
  "parse_pkg_length bs =
     (case bs of
        [] \<Rightarrow> Ret (None, [], [])
      | initial # bs \<Rightarrow>
          let used_other_bytes = drop_bit 6 initial in
          if used_other_bytes = 0 then
            xbind (sub_usize (unat (initial AND 0b00011111)) 1) (\<lambda>n. Ret (Some n, [Initial_Length initial], bs))
          else if used_other_bytes = 1 then
            (case bs of
               [] \<Rightarrow> Ret (None, [Initial_Length initial], [])
             | next_bytes # bs \<Rightarrow>
                 let result = push_bit 4 (ucast next_bytes) OR (ucast initial AND 0x0f) :: u64 in
                 xbind (sub_usize (unat result) 2) (\<lambda>n.
                 Ret (Some n, [Initial_Length initial, Next_Bytes next_bytes], bs)))
          else Panic NotImplemented)"

definition parse_namepath :: "bytes \<Rightarrow> unit exec" where
  "parse_namepath bs = xbind (unwrap (case bs of [] \<Rightarrow> None | b # _ \<Rightarrow> Some b)) (\<lambda>initial. Panic NotImplemented)"

text \<open>One operator: its output and the rest of the input.\<close>

definition aml_op :: "u8 \<Rightarrow> bytes \<Rightarrow> (aml_out \<times> bytes) exec" where
  "aml_op leading bs =
     (if leading = 0x10 then
        xbind (parse_pkg_length bs) (\<lambda>(r, out, bs).
        xbind (unwrap r) (\<lambda>len.
        let inner_iter = take len bs; bs = drop len bs in
        xbind (unwrap (case inner_iter of [] \<Rightarrow> None | b # _ \<Rightarrow> Some b)) (\<lambda>leading_name_byte.
        if leading_name_byte = 0x5c then xbind (parse_namepath (tl inner_iter)) (\<lambda>_. Ret ([], bs))
        else Ret (Handle_ScopeOp # out @ [Aml_Length len, Leading_Name leading_name_byte] @ map Inner inner_iter, bs))))
      else Ret ([Unknown_Leading_OP leading], bs))"

lemma parse_pkg_length_rest: "parse_pkg_length bs = Ret (r, out, bs') \<Longrightarrow> length bs' \<le> length bs"
  by (auto simp: parse_pkg_length_def Let_def xbind_Ret_iff split: list.splits if_splits)

lemma aml_op_rest: "aml_op leading bs = Ret (out, bs') \<Longrightarrow> length bs' \<le> length bs"
  by (auto simp: aml_op_def Let_def xbind_Ret_iff parse_namepath_def dest!: parse_pkg_length_rest split: if_splits prod.splits)

function aml_parse :: "bytes \<Rightarrow> aml_out exec" where
  "aml_parse [] = Ret []"
| "aml_parse (leading # bs) =
     xbind (aml_op leading bs) (\<lambda>r. xbind (aml_parse (snd r)) (\<lambda>out. Ret (fst r @ out)))"
  by pat_completeness auto

termination
  by (relation "measure length") (auto dest: aml_op_rest simp: less_Suc_eq_le)

section \<open>Reading numbers from memory\<close>

definition le_bytes :: "nat \<Rightarrow> 'a::len word \<Rightarrow> bytes" where
  "le_bytes n w = map (\<lambda>i. ucast (drop_bit (8 * i) w)) [0 ..< n]"

lemma le_bytes_length [simp]: "length (le_bytes n w) = n"
  by (simp add: le_bytes_def)

lemma le_bytes_Suc: "le_bytes (Suc n) w = ucast w # le_bytes n (drop_bit 8 w)"
  by (simp add: le_bytes_def map_upt_Suc drop_bit_drop_bit algebra_simps del: upt_Suc)

lemma le_word_bytes: "le_word (le_bytes n w) = take_bit (8 * n) w" for w :: "'a::len word"
proof (induction n arbitrary: w)
  case 0
  then show ?case by (simp add: le_word_def le_bytes_def)
next
  case (Suc n)
  have "le_word (le_bytes (Suc n) w) = ucast (ucast w :: u8) OR push_bit 8 (take_bit (8 * n) (drop_bit 8 w))"
    using Suc.IH [of "drop_bit 8 w"] by (simp add: le_word_def le_bytes_Suc)
  also have "\<dots> = take_bit (8 * Suc n) w" by (rule bit_word_eqI) (auto simp: bit_simps)
  finally show ?case .
qed

lemma le_word_u16 [simp]: "le_word (le_bytes 2 w) = w" for w :: u16
  by (simp add: le_word_bytes take_bit_word_eq_self)

lemma le_word_u32 [simp]: "le_word (le_bytes 4 w) = w" for w :: u32
  by (simp add: le_word_bytes take_bit_word_eq_self)

lemma le_word_u64 [simp]: "le_word (le_bytes 8 w) = w" for w :: u64
  by (simp add: le_word_bytes take_bit_word_eq_self)

definition bytes_at :: "ram \<Rightarrow> u64 \<Rightarrow> bytes \<Rightarrow> bool" where
  "bytes_at mem v bs \<longleftrightarrow> virtual_read mem (VirtualPtr v) (length bs) = bs"

lemma virtual_read_length [simp]: "length (virtual_read mem p n) = n"
  by (cases p) simp

lemma virtual_read_nth: "i < n \<Longrightarrow> virtual_read mem (VirtualPtr v) n ! i = mem (v + of_nat i)"
  by simp

lemma virtual_read_add:
  "virtual_read mem (VirtualPtr v) (m + n) =
     virtual_read mem (VirtualPtr v) m @ virtual_read mem (VirtualPtr (v + of_nat m)) n"
proof (induction n)
  case (Suc n)
  then show ?case by (simp add: add.assoc)
qed simp

lemma bytes_at_append:
  "bytes_at mem v (xs @ ys) \<longleftrightarrow> bytes_at mem v xs \<and> bytes_at mem (v + of_nat (length xs)) ys"
  unfolding bytes_at_def length_append virtual_read_add by (simp only: append_eq_append_conv virtual_read_length simp_thms)

lemma virtual_read_prefix:
  assumes "bytes_at mem v bs" and "n \<le> length bs"
  shows "virtual_read mem (VirtualPtr v) n = take n bs"
  using bytes_at_append [of mem v "take n bs" "drop n bs"] assms by (simp add: bytes_at_def min_absorb2 del: virtual_read.simps)

lemma bytes_at_drop: "bytes_at mem v bs \<Longrightarrow> i \<le> length bs \<Longrightarrow> bytes_at mem (v + of_nat i) (drop i bs)"
  using bytes_at_append [of mem v "take i bs" "drop i bs"] by (simp add: min_absorb2 del: virtual_read.simps)

text \<open>Reads at an offset inside known bytes.\<close>

lemma virtual_add_in:
  "unat v + n < 2 ^ 64 \<Longrightarrow> unat k \<le> n \<Longrightarrow> virtual_add_raw (VirtualPtr v) k = Ret (VirtualPtr (v + of_nat (unat k)))"
  by (simp add: add_w_def)

lemma virtual_read_in:
  assumes "bytes_at mem v bs" and "unat k + n \<le> length bs"
  shows "virtual_read mem (VirtualPtr (v + of_nat (unat k))) n = take n (drop (unat k) bs)"
  using assms(2) by (intro virtual_read_prefix [OF bytes_at_drop [OF assms(1)]]) simp_all

lemma at_u8_in:
  assumes "bytes_at mem v bs" and "unat v + length bs < 2 ^ 64" and "unat k < length bs"
  shows "at_u8 mem (VirtualPtr v) k = Ret (bs ! unat k)"
proof -
  have "virtual_read mem (VirtualPtr (v + of_nat (unat k))) 1 = take 1 (drop (unat k) bs)"
    using assms(3) by (intro virtual_read_in [OF assms(1)]) simp
  then show ?thesis
    using assms(3) by (simp only: at_u8_def read_u8_def virtual_add_in [OF assms(2) less_imp_le] xbind.simps) simp
qed

lemma at_u16_in:
  assumes "bytes_at mem v bs" and "unat v + length bs < 2 ^ 64" and "unat k + 2 \<le> length bs"
  shows "at_u16 mem (VirtualPtr v) k = Ret (le_at 2 (unat k) bs)"
  using assms(3) virtual_read_in [OF assms(1,3)]
  by (simp only: at_u16_def read_u16_def le_at_def virtual_add_in [OF assms(2) add_leD1] xbind.simps)

lemma at_u32_in:
  assumes "bytes_at mem v bs" and "unat v + length bs < 2 ^ 64" and "unat k + 4 \<le> length bs"
  shows "at_u32 mem (VirtualPtr v) k = Ret (le_at 4 (unat k) bs)"
  using assms(3) virtual_read_in [OF assms(1,3)]
  by (simp only: at_u32_def read_u32_def le_at_def virtual_add_in [OF assms(2) add_leD1] xbind.simps)

section \<open>The interrupt controller table\<close>

text \<open>
  The bytes of an entry: the type, the length of the entry and the fields. Entries of other types are
  skipped by their length.
\<close>

fun apic_encode :: "apic_entry \<Rightarrow> bytes" where
  "apic_encode (ProcessLocal p a f) = [0, 8, p, a] @ le_bytes 4 f"
| "apic_encode (IOApic i r a g) = [1, 12, i, r] @ le_bytes 4 a @ le_bytes 4 g"
| "apic_encode (IOApicInterruptSourceOverride b i g f) = [2, 10, b, i] @ le_bytes 4 g @ le_bytes 2 f"
| "apic_encode (LocalApicNonMaskableInterrupts p f l) = [4, 6, p] @ le_bytes 2 f @ [l]"
| "apic_encode (Apic_Unknown i) = []"

fun apic_block :: "apic_entry \<Rightarrow> bytes \<Rightarrow> bool" where
  "apic_block (Apic_Unknown i) bs \<longleftrightarrow>
     i \<notin> {0, 1, 2, 4} \<and> 2 \<le> length bs \<and> bs ! 0 = i \<and> unat (bs ! 1) = length bs"
| "apic_block e bs \<longleftrightarrow> bs = apic_encode e"

lemma apic_block_length:
  assumes "apic_block e bs"
  shows "2 \<le> length bs" and "unat (bs ! 1) = length bs"
  using assms by (cases e; simp)+

lemma apic_entry_read:
  assumes e: "apic_block e bs" and at: "bytes_at mem v (bs @ rest)" and room: "unat v + length (bs @ rest) < 2 ^ 64"
  shows "apic_entry_at mem (VirtualPtr v) (bs ! 0) = Ret e"
proof -
  note reads = at_u8_in [OF at room] at_u16_in [OF at room] at_u32_in [OF at room]
  show ?thesis using e
    by (cases e) (auto simp: apic_entry_at_def reads le_at_def nth_append)
qed

lemma apic_next_entry:
  assumes e: "apic_block e bs" and at: "bytes_at mem (p + off) (bs @ rest)"
    and room: "unat p + unat off + length (bs @ rest) < 2 ^ 64" and size: "length (bs @ rest) < 2 ^ 32"
  shows "apic_next mem (offset_mapper_map \<lparr>om_offset = off\<rparr>)
      \<lparr>ai_ptr = PhysicalPtr p, ai_remaining_size = of_nat (length (bs @ rest))\<rparr> =
    Ret (Some e, \<lparr>ai_ptr = PhysicalPtr (p + of_nat (length bs)), ai_remaining_size = of_nat (length rest)\<rparr>)"
proof -
  note len = apic_block_length [OF e]
  have v: "unat (p + off) = unat p + unat off" using room by (simp add: unat_word_ariths)
  have room': "unat (p + off) + length (bs @ rest) < 2 ^ 64" using room v by simp
  have "at_u8 mem (VirtualPtr (p + off)) 1 = Ret ((bs @ rest) ! unat (1 :: u64))"
    using len by (intro at_u8_in [OF at room']) simp
  then have l: "at_u8 mem (VirtualPtr (p + off)) 1 = Ret (bs ! 1)" using len by (simp add: nth_append)
  have "virtual_read mem (VirtualPtr (p + off)) 1 = take 1 (bs @ rest)"
    using len by (intro virtual_read_prefix [OF at]) simp
  then have t: "read_u8 mem (VirtualPtr (p + off)) = bs ! 0"
    using len(1) by (cases bs) (simp_all add: read_u8_def)
  have len64: "unat (ucast (bs ! 1) :: u64) = length bs" "unat (ucast (bs ! 1) :: u32) = length bs"
    using len(2) by (simp_all add: unat_ucast_up)
  then have w64: "(ucast (bs ! 1) :: u64) = of_nat (length bs)" and w32: "(ucast (bs ! 1) :: u32) = of_nat (length bs)"
    by (simp_all add: len(2) [symmetric] of_nat_unat)
  have rem: "unat (of_nat (length (bs @ rest)) :: u32) = length (bs @ rest)"
    unfolding unat_of_nat using size by simp
  have nz: "(of_nat (length (bs @ rest)) :: u32) \<noteq> 0" using rem len(1) by (metis add_is_0 length_append not_numeral_le_zero unat_0)
  have le: "(ucast (bs ! 1) :: u32) \<le> of_nat (length (bs @ rest))"
    by (simp only: word_le_nat_alt rem len64) simp
  show ?thesis
    using room len64 le by (simp add: apic_next_def nz [simplified] offset_mapper_map_def add_w_def v t l apic_entry_read [OF e at room']
      sub_w_def w64 [simplified] w32 [simplified])
qed

lemma apic_collect_done:
  "ai_remaining_size it = 0 \<Longrightarrow> apic_collect mem mapping it = Some (Ret [])"
  by (subst apic_collect.simps) (simp add: apic_next_def)

lemma apic_collect_blocks:
  assumes "list_all2 apic_block es bss" and "bytes_at mem (p + off) (concat bss)"
    and "unat p + unat off + length (concat bss) < 2 ^ 64" and "length (concat bss) < 2 ^ 32"
  shows "apic_collect mem (offset_mapper_map \<lparr>om_offset = off\<rparr>)
      \<lparr>ai_ptr = PhysicalPtr p, ai_remaining_size = of_nat (length (concat bss))\<rparr> = Some (Ret es)"
  using assms
proof (induction arbitrary: p rule: list_all2_induct)
  case Nil
  then show ?case by (simp add: apic_collect_done)
next
  case (Cons e es bs bss)
  have q: "unat (p + of_nat (length bs)) = unat p + length bs"
    using Cons.prems(2) by (simp add: unat_word_ariths unat_of_nat)
  have "bytes_at mem (p + of_nat (length bs) + off) (concat bss)"
    using Cons.prems(1) by (simp add: bytes_at_append algebra_simps)
  note IH = Cons.IH [OF this]
  have "apic_collect mem (offset_mapper_map \<lparr>om_offset = off\<rparr>)
      \<lparr>ai_ptr = PhysicalPtr (p + of_nat (length bs)), ai_remaining_size = of_nat (length (concat bss))\<rparr> = Some (Ret es)"
    using Cons.prems(2,3) by (intro IH) (simp_all add: q)
  then show ?case
    using apic_next_entry [OF Cons.hyps(1), of mem p off "concat bss"] Cons.prems
    by (subst apic_collect.simps) simp
qed

text \<open>An entry of length zero with bytes left to read makes the loop run forever.\<close>

lemma apic_zero_length_stuck:
  assumes stuck: "apic_next mem mapping it = Ret (Some e, it)"
  shows "apic_collect mem mapping it = None"
proof (rule ccontr)
  assume "apic_collect mem mapping it \<noteq> None"
  then obtain r where "apic_collect mem mapping it = Some r" by blast
  then have "apic_next mem mapping it = Ret (Some e, it) \<longrightarrow> False"
  proof (rule apic_collect.raw_induct [rotated])
    fix loop mem mapping it r
    assume IH: "\<And>mem mapping it r. loop mem mapping it = Some r \<Longrightarrow> apic_next mem mapping it = Ret (Some e, it) \<longrightarrow> False"
      and body: "(case apic_next mem mapping it of
        Panic p \<Rightarrow> Some (Panic p)
      | Ret (None, _) \<Rightarrow> Some (Ret [])
      | Ret (Some e, it') \<Rightarrow> Option.bind (loop mem mapping it') (\<lambda>r. Some (xbind r (\<lambda>es. Ret (e # es))))) = Some r"
    show "apic_next mem mapping it = Ret (Some e, it) \<longrightarrow> False"
      using body IH [of mem mapping it] by (auto simp: Option.bind_eq_Some_conv)
  qed
  with stuck show False by simp
qed

section \<open>The table of tables\<close>

fun traverse :: "('a \<Rightarrow> 'b exec) \<Rightarrow> 'a list \<Rightarrow> 'b list exec" where
  "traverse f [] = Ret []"
| "traverse f (x # xs) = xbind (f x) (\<lambda>y. xbind (traverse f xs) (\<lambda>ys. Ret (y # ys)))"

text \<open>The header of the table at a physical address, and the bytes of a pointer of four or eight bytes.\<close>

definition header_at :: "ram \<Rightarrow> u64 \<Rightarrow> u64 \<Rightarrow> sdt_header" where
  "header_at mem off x = sdt_decode (virtual_read mem (VirtualPtr (x + off)) sdt_header_size)"

definition pointer_bytes :: "nat \<Rightarrow> u64 \<Rightarrow> bytes" where
  "pointer_bytes n x = (if n = 4 then le_bytes 4 (ucast x :: u32) else le_bytes 8 x)"

definition pointer_ok :: "nat \<Rightarrow> u64 \<Rightarrow> u64 \<Rightarrow> bool" where
  "pointer_ok n off x \<longleftrightarrow> (n = 4 \<longrightarrow> unat x < 2 ^ 32) \<and> unat x + unat off < 2 ^ 64 \<and> unat x + sdt_header_size < 2 ^ 64"

lemma pointer_read:
  assumes "bytes_at mem v (pointer_bytes n x @ rest)" and "n = 4 \<or> n = 8" and "pointer_ok n off x"
  shows "(if n = 4 then ucast (read_u32 mem (VirtualPtr v)) else read_u64 mem (VirtualPtr v)) = x"
proof -
  have n: "length (pointer_bytes n x) = n" using assms(2) by (auto simp: pointer_bytes_def)
  have r: "virtual_read mem (VirtualPtr v) n = pointer_bytes n x"
    using virtual_read_prefix [OF assms(1), of n] n by (simp del: virtual_read.simps)
  have "ucast (ucast x :: u32) = x" if "n = 4"
    using assms(3) that by (simp add: pointer_ok_def word_unat_eq_iff unat_ucast_up unsigned_ucast_eq unsigned_take_bit_eq take_bit_nat_eq_self)
  then show ?thesis using r assms(2) by (auto simp: pointer_bytes_def read_u32_def read_u64_def simp del: virtual_read.simps)
qed

lemma rsdt_map_run:
  assumes n: "n = 4 \<or> n = 8" and "\<forall>x \<in> set ps. pointer_ok n off x"
    and "bytes_at mem (p + off) (concat (map (pointer_bytes n) ps))" and "unat p + unat off + n * length ps < 2 ^ 64"
  shows "rsdt_map mem (offset_mapper_map \<lparr>om_offset = off\<rparr>) f
      \<lparr>ri_ptr = PhysicalPtr p, ri_size = of_nat n, ri_left = length ps\<rparr> =
    traverse f (map (\<lambda>x. (header_at mem off x, PhysicalPtr (x + of_nat sdt_header_size))) ps)"
  using assms(2-)
proof (induction ps arbitrary: p)
  case Nil
  then show ?case by (simp add: rsdt_next_def)
next
  case (Cons x ps)
  have len: "length (pointer_bytes n x) = n" using n by (auto simp: pointer_bytes_def)
  have un: "unat (of_nat n :: u64) = n" using n by auto
  have q: "unat (p + of_nat n) = unat p + n" using Cons.prems(3) by (simp add: unat_word_ariths un)
  have x: "pointer_ok n off x" using Cons.prems(1) by simp
  have size: "(of_nat n = (4 :: u64)) = (n = 4)" using n by auto
  have at: "bytes_at mem (p + off) (pointer_bytes n x @ concat (map (pointer_bytes n) ps))" using Cons.prems(2) by simp
  have "rsdt_next mem (offset_mapper_map \<lparr>om_offset = off\<rparr>) \<lparr>ri_ptr = PhysicalPtr p, ri_size = of_nat n, ri_left = Suc (length ps)\<rparr> =
      Ret (Some (header_at mem off x, PhysicalPtr (x + of_nat sdt_header_size)),
        \<lparr>ri_ptr = PhysicalPtr (p + of_nat n), ri_size = of_nat n, ri_left = length ps\<rparr>)"
    using pointer_read [OF at n x] x Cons.prems(3) unfolding pointer_ok_def
    by (simp add: rsdt_next_def offset_mapper_map_def add_w_def size un header_at_def sdt_header_load_def Let_def sdt_header_size_def
      del: virtual_read.simps)
  moreover have "bytes_at mem (p + of_nat n + off) (concat (map (pointer_bytes n) ps))"
    using at by (simp add: bytes_at_append len algebra_simps)
  ultimately show ?case
    using Cons.IH [of "p + of_nat n"] Cons.prems by (subst rsdt_map.simps) (simp add: q algebra_simps del: rsdt_map.simps)
qed

section \<open>Properties\<close>

lemma apic_signature: "utf8_valid (ascii_bytes ''APIC'')"
  by (simp add: ascii_bytes_def)

text \<open>
  C35: from the header of an interrupt controller table and the memory behind it the table's local address and
  flags are read, and the loop over its entries ends and yields exactly the entries the bytes encode, in
  order, entries of unknown type being skipped by their length.
\<close>

theorem apic_table_read:
  assumes "sdt_signature header = ascii_bytes ''APIC''" and "sdt_length header = of_nat (44 + length (concat bss))"
    and "44 + length (concat bss) < 2 ^ 32" and "list_all2 apic_block es bss"
    and "bytes_at mem (q + off) (le_bytes 4 la @ le_bytes 4 fl @ concat bss)"
    and "unat q + unat off + 8 + length (concat bss) < 2 ^ 64"
  shows "\<exists>a. acip_entry_load mem header (PhysicalPtr q) (offset_mapper_map (offset_mapper_new off)) = Ret (Apic a) \<and>
    apic_local_addr a = la \<and> apic_flags a = fl \<and>
    apic_collect mem (offset_mapper_map (offset_mapper_new off)) (apic_entries a) = Some (Ret es)"
proof -
  let ?n = "length (concat bss)"
  note at = assms(5)
  have v: "unat (q + off) = unat q + unat off" using assms(6) by (simp add: unat_word_ariths)
  have q8: "unat (q + 8) = unat q + 8" using assms(6) by (simp add: unat_word_ariths)
  have "at_u32 mem (VirtualPtr (q + off)) 4 = Ret (le_at 4 (unat (4 :: u64)) (le_bytes 4 la @ le_bytes 4 fl @ concat bss))"
    using assms(6) by (intro at_u32_in [OF at]) (simp_all add: v)
  then have flags: "at_u32 mem (VirtualPtr (q + off)) 4 = Ret fl" by (simp add: le_at_def)
  have "virtual_read mem (VirtualPtr (q + off)) 4 = take 4 (le_bytes 4 la @ le_bytes 4 fl @ concat bss)"
    by (rule virtual_read_prefix [OF at]) simp
  then have local: "read_u32 mem (VirtualPtr (q + off)) = la" by (simp add: read_u32_def del: virtual_read.simps)
  have len: "unat (sdt_length header) = 44 + ?n" unfolding assms(2) unat_of_nat using assms(3) by simp
  have "sub_w (sdt_length header) 8 = Ret (of_nat (36 + ?n))"
    using len by (simp add: sub_w_def word_le_nat_alt assms(2))
  moreover have "sub_w (of_nat (36 + ?n)) (of_nat sdt_header_size) = Ret (of_nat ?n :: u32)"
  proof -
    have "unat (of_nat (36 + ?n) :: u32) = 36 + ?n" unfolding unat_of_nat using assms(3) by simp
    then show ?thesis by (simp add: sub_w_def word_le_nat_alt sdt_header_size_def)
  qed
  ultimately have "acip_entry_load mem header (PhysicalPtr q) (offset_mapper_map (offset_mapper_new off)) =
      Ret (Apic \<lparr>apic_local_addr = la, apic_flags = fl, apic_starting_addr = PhysicalPtr (q + 8),
        apic_remaining = of_nat ?n\<rparr>)"
    using assms(6) flags unfolding at_u32_def xbind_Ret_iff
    by (auto simp: acip_entry_load_def sdt_signature_str_def assms(1) apic_signature offset_mapper_map_def offset_mapper_new_def
      add_w_def local v)
  moreover have "bytes_at mem (q + 8 + off) (concat bss)"
    using at by (simp add: bytes_at_append algebra_simps)
  then have "apic_collect mem (offset_mapper_map \<lparr>om_offset = off\<rparr>)
      \<lparr>ai_ptr = PhysicalPtr (q + 8), ai_remaining_size = of_nat ?n\<rparr> = Some (Ret es)"
    using assms(3,4,6) by (intro apic_collect_blocks) (simp_all add: q8)
  ultimately show ?thesis by (simp add: apic_entries_def offset_mapper_new_def)
qed

theorem apic_table_read_witness:
  "\<exists>a. acip_entry_load (\<lambda>i. (le_bytes 4 (0xfee00000 :: u32) @ le_bytes 4 (1 :: u32) @
        [0, 8, 0, 0] @ le_bytes 4 (1 :: u32) @ [9, 3, 7]) ! unat i)
      (sdt_decode (ascii_bytes ''APIC'' @ le_bytes 4 (55 :: u32) @ replicate 28 0)) (PhysicalPtr 0)
      (offset_mapper_map (offset_mapper_new 0)) = Ret (Apic a) \<and>
    apic_collect (\<lambda>i. (le_bytes 4 (0xfee00000 :: u32) @ le_bytes 4 (1 :: u32) @
        [0, 8, 0, 0] @ le_bytes 4 (1 :: u32) @ [9, 3, 7]) ! unat i)
      (offset_mapper_map (offset_mapper_new 0)) (apic_entries a) = Some (Ret [ProcessLocal 0 0 1, Apic_Unknown 9])"
proof -
  let ?bss = "[[0, 8, 0, 0] @ le_bytes 4 (1 :: u32), [9, 3, 7]]"
  let ?bs = "le_bytes 4 (0xfee00000 :: u32) @ le_bytes 4 (1 :: u32) @ concat ?bss"
  let ?mem = "\<lambda>i. ?bs ! unat i"
  let ?h = "sdt_decode (ascii_bytes ''APIC'' @ le_bytes 4 (55 :: u32) @ replicate 28 0)"
  have "bytes_at ?mem (0 + 0) ?bs"
    unfolding bytes_at_def by (rule nth_equalityI) (auto simp: unat_of_nat)
  moreover have "sdt_signature ?h = ascii_bytes ''APIC''" "sdt_length ?h = of_nat (44 + length (concat ?bss))"
    by (simp_all add: sdt_decode_def ascii_bytes_def le_at_def)
  ultimately show ?thesis
    using apic_table_read [of ?h ?bss "[ProcessLocal 0 0 1, Apic_Unknown 9]" ?mem 0 0 "0xfee00000" 1] by simp blast
qed

end
