(* ===== verification/Kiss_Rng.thy ===== *)
theory Kiss_Rng
  imports Rust_Prelude
begin

text \<open>
  \<^verbatim>\<open>hardware/rng.rs\<close>: the random number generator, compared with its three generators written on
  integers. The additions of the multiply-with-carry part are checked additions, the others wrap.
\<close>

record kiss =
  kiss_x :: u64
  kiss_y :: u64
  kiss_z :: u64
  kiss_c :: u64

definition kiss_new :: "u64 \<Rightarrow> u64 \<Rightarrow> u64 \<Rightarrow> u64 \<Rightarrow> kiss option" where
  "kiss_new seed y z c = Some \<lparr>kiss_x = seed, kiss_y = y, kiss_z = z, kiss_c = c\<rparr>"

definition kiss_rand :: "kiss \<Rightarrow> (u64 \<times> kiss) exec" where
  "kiss_rand s =
     (let s = s\<lparr>kiss_x := 6906969069 * kiss_x s + 1234567\<rparr>;
          s = s\<lparr>kiss_y := kiss_y s XOR push_bit 13 (kiss_y s)\<rparr>;
          s = s\<lparr>kiss_y := kiss_y s XOR drop_bit 17 (kiss_y s)\<rparr>;
          s = s\<lparr>kiss_y := kiss_y s XOR push_bit 43 (kiss_y s)\<rparr>
      in
      xbind (add_w (push_bit 58 (kiss_z s)) (kiss_c s)) (\<lambda>t.
      let s = s\<lparr>kiss_c := drop_bit 6 (kiss_z s)\<rparr>;
          s = s\<lparr>kiss_z := kiss_z s + t\<rparr>
      in
      xbind (add_w (kiss_c s) (if kiss_z s < t then 1 else 0)) (\<lambda>c.
      let s = s\<lparr>kiss_c := c\<rparr>
      in Ret (kiss_x s + kiss_y s + kiss_z s, s))))"

section \<open>The reference\<close>

text \<open>
  The linear congruential generator modulo \<open>2 ^ 64\<close>, the xorshift on bit sequences, and the
  multiply-with-carry generator with multiplier \<open>2 ^ 58 + 1\<close>, whose carry and digit are the two
  halves of a product.
\<close>

definition lcg_next :: "nat \<Rightarrow> nat" where
  "lcg_next x = (6906969069 * x + 1234567) mod 2 ^ 64"

definition xorshift_bit :: "(nat \<Rightarrow> bool) \<Rightarrow> nat \<Rightarrow> bool" where
  "xorshift_bit y =
     (let left = \<lambda>k y n. (y n \<noteq> (k \<le> n \<and> y (n - k))) \<and> n < 64;
          right = \<lambda>k y n. (y n \<noteq> y (n + k)) \<and> n < (64::nat)
      in left 43 (right 17 (left 13 y)))"

definition mwc_total :: "nat \<Rightarrow> nat \<Rightarrow> nat" where
  "mwc_total z c = (2 ^ 58 + 1) * z + c"

text \<open>The carry of a state the generator reaches; the code's own seed has a smaller one.\<close>

definition kiss_inv :: "kiss \<Rightarrow> bool" where
  "kiss_inv s \<longleftrightarrow> unat (kiss_c s) \<le> 2 ^ 58"

definition kiss_stuck :: "kiss \<Rightarrow> bool" where
  "kiss_stuck s \<longleftrightarrow> unat (kiss_c s) = 2 ^ 58 \<and> unat (kiss_z s) mod 64 = 63"

section \<open>The multiply-with-carry step\<close>

lemma unat_push_58: "unat (push_bit 58 z) = 2 ^ 58 * (unat z mod 64)" for z :: u64
proof -
  have "unat (push_bit 58 z) = unat z * 2 ^ 58 mod 2 ^ 64"
    by (simp add: push_bit_eq_mult unat_word_ariths)
  also have "\<dots> = 2 ^ 58 * (unat z mod 64)"
    using mod_mult_mult1 [of "2 ^ 58" "unat z" 64] by (simp add: mult.commute)
  finally show ?thesis .
qed

lemma unat_drop_6: "unat (drop_bit 6 z) = unat z div 64" for z :: u64
  by (simp add: drop_bit_eq_div unat_div_distrib)

lemma unat_lt_u64: "unat z < 2 ^ 64" for z :: u64
  using unsigned_less [of z, where ?'a = nat] by simp

text \<open>The step panics exactly in the stuck state.\<close>

lemma mwc_sum_fits:
  assumes "kiss_inv s"
  shows "unat (push_bit 58 (kiss_z s)) + unat (kiss_c s) < 2 ^ 64 \<longleftrightarrow> \<not> kiss_stuck s"
proof -
  have m: "unat (kiss_z s) mod 64 < 64" by simp
  have c: "unat (kiss_c s) \<le> 288230376151711744" using assms by (simp add: kiss_inv_def)
  show ?thesis
  proof (cases "unat (kiss_z s) mod 64 = 63")
    case False
    then have "unat (kiss_z s) mod 64 \<le> 62" using m by linarith
    then show ?thesis using c False by (simp add: unat_push_58 kiss_stuck_def)
  qed (use c in \<open>auto simp: unat_push_58 kiss_stuck_def\<close>)
qed

lemma mwc_step:
  fixes z c t :: u64
  assumes "unat t = 2 ^ 58 * (unat z mod 64) + unat c"
  defines "k \<equiv> (if z + t < t then 1 else 0 :: u64)"
  shows "\<exists>c'. add_w (drop_bit 6 z) k = Ret c' \<and> unat c' \<le> 2 ^ 58 \<and>
    unat (z + t) + 2 ^ 64 * unat c' = mwc_total (unat z) (unat c)"
proof -
  have zt: "unat (z + t) = (unat z + unat t) mod 2 ^ 64" by (simp add: unat_word_ariths)
  have lt: "unat z < 2 ^ 64" "unat t < 2 ^ 64" using unat_lt_u64 by blast+
  have carry: "unat (z + t) + 2 ^ 64 * unat k = unat z + unat t"
  proof (cases "unat z + unat t < 2 ^ 64")
    case True
    then have "unat (z + t) = unat z + unat t" using zt by simp
    then show ?thesis by (simp add: k_def word_less_nat_alt)
  next
    case False
    then have "unat (z + t) = unat z + unat t - 2 ^ 64"
      using zt lt by (simp add: mod_if)
    then show ?thesis using False lt by (simp add: k_def word_less_nat_alt)
  qed
  have small: "unat (drop_bit 6 z) < 2 ^ 58" using lt(1) unfolding unat_drop_6 by (simp add: div_less_iff_less_mult)
  have k: "unat k \<le> 1" by (simp add: k_def)
  have sum: "unat (drop_bit 6 z + k) = unat z div 64 + unat k"
    using small k by (simp add: unat_word_ariths unat_drop_6)
  have "2 ^ 58 * unat z = 2 ^ 58 * (unat z mod 64) + 2 ^ 64 * (unat z div 64)"
  proof -
    have "2 ^ 58 * unat z = 2 ^ 58 * (64 * (unat z div 64) + unat z mod 64)" by simp
    then show ?thesis by (simp only: distrib_left) simp
  qed
  then have "unat (z + t) + 2 ^ 64 * unat (drop_bit 6 z + k) = mwc_total (unat z) (unat c)"
    using carry assms(1) unfolding sum mwc_total_def by (simp add: distrib_left)
  moreover have "add_w (drop_bit 6 z) k = Ret (drop_bit 6 z + k)"
    using small k by (simp add: add_w_def)
  moreover have "unat (drop_bit 6 z + k) \<le> 2 ^ 58" using small k by (simp add: sum unat_drop_6)
  ultimately show ?thesis by blast
qed

lemma lcg_word: "unat (6906969069 * x + 1234567 :: u64) = lcg_next (unat x)"
  by (simp add: unat_word_ariths lcg_next_def mod_simps)

lemma xor_shift_left: "bit (y XOR push_bit k y) n \<longleftrightarrow> (bit y n \<noteq> (k \<le> n \<and> bit y (n - k))) \<and> n < 64" for y :: u64
  using bit_imp_le_length [of y n] by (auto simp: bit_xor_iff bit_push_bit_iff)

lemma xor_shift_right: "bit (y XOR drop_bit k y) n \<longleftrightarrow> (bit y n \<noteq> bit y (n + k)) \<and> n < 64" for y :: u64
  using bit_imp_le_length [of y n] bit_imp_le_length [of y "n + k"]
  by (auto simp: bit_xor_iff bit_drop_bit_eq add.commute)

lemma xorshift_word:
  fixes y :: u64
  defines "y1 \<equiv> y XOR push_bit 13 y"
  defines "y2 \<equiv> y1 XOR drop_bit 17 y1"
  shows "bit (y2 XOR push_bit 43 y2) n = xorshift_bit (bit y) n"
  unfolding xorshift_bit_def Let_def xor_shift_left y2_def xor_shift_right y1_def ..

section \<open>Properties\<close>

text \<open>
  C39: from a state whose carry is at most \<open>2 ^ 58\<close> the generator computes the three reference generators and
  the sum of their values, and keeps that bound. The checked addition of its carry overflows, and the call
  panics, exactly in the states with carry \<open>2 ^ 58\<close> and six low one bits in \<open>z\<close>.
\<close>

theorem kiss_reference:
  assumes inv: "kiss_inv s"
  shows "if kiss_stuck s then kiss_rand s = Panic ArithOverflow
    else \<exists>s'. kiss_rand s = Ret (kiss_x s' + kiss_y s' + kiss_z s', s') \<and>
      unat (kiss_x s') = lcg_next (unat (kiss_x s)) \<and>
      bit (kiss_y s') = xorshift_bit (bit (kiss_y s)) \<and>
      unat (kiss_z s') + 2 ^ 64 * unat (kiss_c s') = mwc_total (unat (kiss_z s)) (unat (kiss_c s)) \<and>
      kiss_inv s'"
proof (cases "kiss_stuck s")
  case True
  then show ?thesis using mwc_sum_fits [OF inv] by (simp add: kiss_rand_def add_w_def)
next
  case False
  let ?t = "push_bit 58 (kiss_z s) + kiss_c s"
  have add: "add_w (push_bit 58 (kiss_z s)) (kiss_c s) = Ret ?t"
    using mwc_sum_fits [OF inv] False by (simp add: add_w_def)
  then have t: "unat ?t = 2 ^ 58 * (unat (kiss_z s) mod 64) + unat (kiss_c s)"
    unfolding unat_push_58 [symmetric] by (rule add_w_unat)
  obtain c' where c': "add_w (drop_bit 6 (kiss_z s)) (if kiss_z s + ?t < ?t then 1 else 0) = Ret c'" "unat c' \<le> 2 ^ 58"
      "unat (kiss_z s + ?t) + 2 ^ 64 * unat c' = mwc_total (unat (kiss_z s)) (unat (kiss_c s))"
    using mwc_step [OF t] by blast
  define y1 where "y1 = kiss_y s XOR push_bit 13 (kiss_y s)"
  define y2 where "y2 = y1 XOR drop_bit 17 y1"
  have y: "bit (y2 XOR push_bit 43 y2) = xorshift_bit (bit (kiss_y s))"
    using xorshift_word [of "kiss_y s"] by (auto simp: y1_def y2_def)
  define s' where "s' = \<lparr>kiss_x = 6906969069 * kiss_x s + 1234567, kiss_y = y2 XOR push_bit 43 y2,
    kiss_z = kiss_z s + ?t, kiss_c = c'\<rparr>"
  have "kiss_rand s = Ret (kiss_x s' + kiss_y s' + kiss_z s', s')"
    unfolding kiss_rand_def Let_def
    by (simp add: add c'(1) s'_def y2_def y1_def)
  then show ?thesis
    using False c'(2,3) y lcg_word [of "kiss_x s"] by (simp add: s'_def kiss_inv_def)
qed

theorem kiss_reference_witness:
  "\<exists>s s'. kiss_new 239812446 1837621879 512893 123873267123 = Some s \<and> kiss_rand s = Ret (kiss_x s' + kiss_y s' + kiss_z s', s') \<and>
    unat (kiss_z s') + 2 ^ 64 * unat (kiss_c s') = mwc_total 512893 123873267123"
proof -
  define s where "s = \<lparr>kiss_x = 239812446, kiss_y = 1837621879, kiss_z = 512893, kiss_c = 123873267123 :: u64\<rparr>"
  have "kiss_inv s" "\<not> kiss_stuck s" by (simp_all add: s_def kiss_inv_def kiss_stuck_def)
  from kiss_reference [OF this(1)] this(2) show ?thesis
    by (auto simp: kiss_new_def s_def)
qed

end
