(* ===== verification/Memory_Frames.thy ===== *)
theory Memory_Frames
  imports Rust_Prelude
begin

text \<open>
  \<^verbatim>\<open>memory.rs\<close> and \<^verbatim>\<open>hardware/allocator.rs\<close>: the allocator of physical frames and the mapping of the
  kernel heap.

  The page tables belong to the crate \<^verbatim>\<open>x86_64\<close>. Its \<^verbatim>\<open>PhysFrame::containing_address\<close> is the
  parameter \<open>frame_of\<close> and \<^verbatim>\<open>map_to\<close> with its \<^verbatim>\<open>flush\<close> the parameter \<open>map_to\<close>, which gets the frame
  allocator, since it may take frames for page tables. A page is the address it starts at.
\<close>

section \<open>The frame allocator\<close>

datatype memory_region_kind = Usable | Bootloader | UnknownUefi u32 | UnknownBios u32

record memory_region =
  mr_start :: u64
  mr_end :: u64
  mr_kind :: memory_region_kind

record frame_allocator =
  fa_memory_map :: "memory_region list"
  fa_next :: nat

definition frame_allocator_init :: "memory_region list \<Rightarrow> frame_allocator" where
  "frame_allocator_init memory_map = \<lparr>fa_memory_map = memory_map, fa_next = 0\<rparr>"

text \<open>\<^verbatim>\<open>(start..end).step_by(4096)\<close>\<close>

function addr_steps :: "nat \<Rightarrow> nat \<Rightarrow> nat list" where
  "addr_steps a b = (if a < b then a # addr_steps (a + 4096) b else [])"
  by pat_completeness auto
termination
  by (relation "measure (\<lambda>(a, b). b - a)") auto

declare addr_steps.simps [simp del]

definition usable_addresses :: "frame_allocator \<Rightarrow> nat list" where
  "usable_addresses fa =
     concat (map (\<lambda>r. addr_steps (unat (mr_start r)) (unat (mr_end r)))
       (filter (\<lambda>r. mr_kind r = Usable) (fa_memory_map fa)))"

definition usable_frames :: "(nat \<Rightarrow> 'f) \<Rightarrow> frame_allocator \<Rightarrow> 'f list" where
  "usable_frames frame_of fa = map frame_of (usable_addresses fa)"

text \<open>\<^verbatim>\<open>nth\<close> of an iterator.\<close>

definition nth_opt :: "'a list \<Rightarrow> nat \<Rightarrow> 'a option" where
  "nth_opt xs n = (if n < length xs then Some (xs ! n) else None)"

definition allocate_frame :: "(nat \<Rightarrow> 'f) \<Rightarrow> frame_allocator \<Rightarrow> ('f option \<times> frame_allocator) exec" where
  "allocate_frame frame_of fa =
     (let frame = nth_opt (usable_frames frame_of fa) (fa_next fa) in
      xbind (add_usize (fa_next fa) 1) (\<lambda>n. Ret (frame, fa\<lparr>fa_next := n\<rparr>)))"

section \<open>The heap\<close>

definition HEAP_START :: nat where
  "HEAP_START = 0x444444440000"

definition HEAP_SIZE :: nat where
  "HEAP_SIZE = 1 * 1024 * 1024"

datatype 'e map_to_error = FrameAllocationFailed | Map_Other 'e

type_synonym ('f, 'e, 'w) page_mapper =
  "nat \<Rightarrow> 'f \<Rightarrow> frame_allocator \<Rightarrow> 'w \<Rightarrow> ('e + unit) \<times> frame_allocator \<times> 'w"

text \<open>The pages from the one with the first heap byte to the one with the last.\<close>

definition heap_pages :: "nat list" where
  "heap_pages =
     (let heap_start = HEAP_START; heap_end = heap_start + HEAP_SIZE - 1;
          start_page = heap_start div 4096; end_page = heap_end div 4096
      in map (\<lambda>p. p * 4096) [start_page ..< end_page + 1])"

fun map_pages ::
  "(nat \<Rightarrow> 'f) \<Rightarrow> ('f, 'e, 'w) page_mapper \<Rightarrow> nat list \<Rightarrow> frame_allocator \<Rightarrow> 'w \<Rightarrow>
     (('e map_to_error + unit) \<times> frame_allocator \<times> 'w) exec" where
  "map_pages frame_of map_to [] fa w = Ret (Inr (), fa, w)"
| "map_pages frame_of map_to (page # pages) fa w =
     xbind (allocate_frame frame_of fa) (\<lambda>(frame, fa).
     case frame of
       None \<Rightarrow> Ret (Inl FrameAllocationFailed, fa, w)
     | Some frame \<Rightarrow>
         (case map_to page frame fa w of
            (Inl e, fa, w) \<Rightarrow> Ret (Inl (Map_Other e), fa, w)
          | (Inr _, fa, w) \<Rightarrow> map_pages frame_of map_to pages fa w))"

definition init_heap ::
  "(nat \<Rightarrow> 'f) \<Rightarrow> ('f, 'e, 'w) page_mapper \<Rightarrow> (nat \<Rightarrow> nat \<Rightarrow> 'w \<Rightarrow> 'w) \<Rightarrow> frame_allocator \<Rightarrow> 'w \<Rightarrow>
     (('e map_to_error + unit) \<times> frame_allocator \<times> 'w) exec" where
  "init_heap frame_of map_to heap_init fa w =
     xbind (map_pages frame_of map_to heap_pages fa w) (\<lambda>(r, fa, w).
     case r of
       Inl e \<Rightarrow> Ret (Inl e, fa, w)
     | Inr _ \<Rightarrow> Ret (Inr (), fa, heap_init HEAP_START HEAP_SIZE w))"

section \<open>Usable addresses\<close>

lemma steps_count:
  fixes a b :: nat
  assumes "a < b"
  shows "(b - a + 4095) div 4096 = Suc ((b - (a + 4096) + 4095) div 4096)"
proof (cases "a + 4096 \<le> b")
  case True
  then have "b - a + 4095 = 4096 + (b - (a + 4096) + 4095)" by linarith
  then have "(b - a + 4095) div 4096 = (4096 + (b - (a + 4096) + 4095)) div 4096" by (rule arg_cong)
  also have "\<dots> = Suc ((b - (a + 4096) + 4095) div 4096)" by (subst div_add_self1) simp_all
  finally show ?thesis .
next
  case False
  then have "(b - a + 4095) div 4096 = 1" "b - (a + 4096) = 0"
    using assms by (auto intro!: div_nat_eqI)
  then show ?thesis by simp
qed

lemma addr_steps_eq: "addr_steps a b = map (\<lambda>i. a + 4096 * i) [0 ..< (b - a + 4095) div 4096]"
proof (induction a b rule: addr_steps.induct)
  case (1 a b)
  show ?case
  proof (cases "a < b")
    case True
    have "map (\<lambda>i. a + 4096 * i) [0 ..< Suc m] = a # map (\<lambda>i. a + 4096 + 4096 * i) [0 ..< m]" for m
      by (induction m) simp_all
    then show ?thesis
      unfolding steps_count [OF True] addr_steps.simps [of a b] using 1 [OF True] True by simp
  qed (simp add: addr_steps.simps [of a b])
qed

lemma addr_steps_bounds: "x \<in> set (addr_steps a b) \<Longrightarrow> a \<le> x \<and> x < b \<and> x mod 4096 = a mod 4096"
proof (induction a b rule: addr_steps.induct)
  case (1 a b)
  have "a < b" "x = a \<or> x \<in> set (addr_steps (a + 4096) b)"
    using 1(2) by (simp_all add: addr_steps.simps [of a b] split: if_splits)
  then show ?case using 1(1) by auto
qed

lemma addr_steps_distinct: "distinct (addr_steps a b)"
  by (simp add: addr_steps_eq distinct_map inj_on_def)

text \<open>Memory maps whose usable regions start at frame boundaries and do not overlap.\<close>

definition regions_ok :: "memory_region list \<Rightarrow> bool" where
  "regions_ok rs \<longleftrightarrow>
     (\<forall>r \<in> set rs. mr_kind r = Usable \<longrightarrow> unat (mr_start r) mod 4096 = 0) \<and>
     sorted_wrt (\<lambda>r s. unat (mr_end r) \<le> unat (mr_start s) \<or> unat (mr_end s) \<le> unat (mr_start r))
       (filter (\<lambda>r. mr_kind r = Usable) rs)"

lemma steps_concat_distinct:
  assumes "sorted_wrt (\<lambda>r s. unat (mr_end r) \<le> unat (mr_start s) \<or> unat (mr_end s) \<le> unat (mr_start r)) rs"
  shows "distinct (concat (map (\<lambda>r. addr_steps (unat (mr_start r)) (unat (mr_end r))) rs))"
  using assms
proof (induction rs)
  case (Cons r rs)
  have "x \<notin> set (concat (map (\<lambda>r. addr_steps (unat (mr_start r)) (unat (mr_end r))) rs))"
    if "x \<in> set (addr_steps (unat (mr_start r)) (unat (mr_end r)))" for x
    using Cons.prems addr_steps_bounds [OF that] by (fastforce dest: addr_steps_bounds)
  then show ?case using Cons addr_steps_distinct by auto
qed simp

lemma usable_addresses_ok:
  assumes "regions_ok (fa_memory_map fa)"
  shows "distinct (usable_addresses fa)"
    and "a \<in> set (usable_addresses fa) \<Longrightarrow> a mod 4096 = 0 \<and>
      (\<exists>r \<in> set (fa_memory_map fa). mr_kind r = Usable \<and> unat (mr_start r) \<le> a \<and> a < unat (mr_end r))"
proof -
  show "distinct (usable_addresses fa)"
    using assms unfolding usable_addresses_def regions_ok_def by (blast intro: steps_concat_distinct)
  assume "a \<in> set (usable_addresses fa)"
  then obtain r where "r \<in> set (fa_memory_map fa)" "mr_kind r = Usable"
      "a \<in> set (addr_steps (unat (mr_start r)) (unat (mr_end r)))"
    by (auto simp: usable_addresses_def)
  moreover from this(1,2) have "unat (mr_start r) mod 4096 = 0" using assms by (simp add: regions_ok_def)
  ultimately show "a mod 4096 = 0 \<and>
      (\<exists>r \<in> set (fa_memory_map fa). mr_kind r = Usable \<and> unat (mr_start r) \<le> a \<and> a < unat (mr_end r))"
    using addr_steps_bounds [of a "unat (mr_start r)" "unat (mr_end r)"] by auto
qed

section \<open>Mapping the heap\<close>

text \<open>
  What the heap set-up relies on: frames are named by their first address, a successful mapping maps
  that page and no other, and the page tables take their frames from the allocator they are given, in
  order.
\<close>

definition mapper_laws :: "(nat \<Rightarrow> 'f) \<Rightarrow> ('f \<Rightarrow> nat) \<Rightarrow> ('f, 'e, 'w) page_mapper \<Rightarrow> ('w \<Rightarrow> nat \<rightharpoonup> 'f) \<Rightarrow> bool" where
  "mapper_laws frame_of frame_start map_to mapped \<longleftrightarrow>
     (\<forall>a. a mod 4096 = 0 \<longrightarrow> frame_start (frame_of a) = a) \<and>
     (\<forall>page frame fa w r fa' w'. map_to page frame fa w = (r, fa', w') \<longrightarrow>
        fa_memory_map fa' = fa_memory_map fa \<and> fa_next fa \<le> fa_next fa' \<and>
        (r = Inr () \<longrightarrow> mapped w' = (mapped w)(page \<mapsto> frame)))"

lemma mapper_lawsD:
  assumes "mapper_laws frame_of frame_start map_to mapped" and "map_to page frame fa w = (r, fa', w')"
  shows "fa_memory_map fa' = fa_memory_map fa" "fa_next fa \<le> fa_next fa'"
    "r = Inr () \<Longrightarrow> mapped w' = (mapped w)(page \<mapsto> frame)"
  using assms unfolding mapper_laws_def by blast+

lemma map_pages_frames:
  assumes laws: "mapper_laws frame_of frame_start map_to mapped" and "distinct pages"
    and "map_pages frame_of map_to pages fa w = Ret (Inr (), fa', w')"
  shows "fa_memory_map fa' = fa_memory_map fa \<and> fa_next fa \<le> fa_next fa' \<and>
    (\<exists>used. length used = length pages \<and> sorted_wrt (<) used \<and>
       (\<forall>i \<in> set used. fa_next fa \<le> i \<and> i < length (usable_addresses fa)) \<and>
       mapped w' = (mapped w)(pages [\<mapsto>] map (\<lambda>i. frame_of (usable_addresses fa ! i)) used))"
  using assms(2,3)
proof (induction pages arbitrary: fa w)
  case Nil
  then show ?case by auto
next
  case (Cons page pages)
  let ?fa = "fa\<lparr>fa_next := fa_next fa + 1\<rparr>"
  obtain fa1 w1 where len: "fa_next fa < length (usable_addresses fa)"
    and m: "map_to page (frame_of (usable_addresses fa ! fa_next fa)) ?fa w = (Inr (), fa1, w1)"
    and rest: "map_pages frame_of map_to pages fa1 w1 = Ret (Inr (), fa', w')"
    using Cons.prems(2)
    by (auto simp: xbind_Ret_iff allocate_frame_def add_usize_def nth_opt_def usable_frames_def Let_def
        split: if_splits option.splits prod.splits sum.splits)
  have fa1: "fa_memory_map fa1 = fa_memory_map fa" "Suc (fa_next fa) \<le> fa_next fa1"
      "mapped w1 = (mapped w)(page \<mapsto> frame_of (usable_addresses fa ! fa_next fa))"
    using mapper_lawsD [OF laws m] by simp_all
  have ua: "usable_addresses fa1 = usable_addresses fa" by (simp add: usable_addresses_def fa1(1))
  obtain used where IH: "fa_memory_map fa' = fa_memory_map fa1" "fa_next fa1 \<le> fa_next fa'"
      "length used = length pages" "sorted_wrt (<) used"
      "\<And>i. i \<in> set used \<Longrightarrow> fa_next fa1 \<le> i \<and> i < length (usable_addresses fa)"
      "mapped w' = (mapped w1)(pages [\<mapsto>] map (\<lambda>i. frame_of (usable_addresses fa ! i)) used)"
    using Cons.IH [OF _ rest] Cons.prems(1) by (auto simp: ua)
  have "mapped w' = (mapped w)(page # pages [\<mapsto>] map (\<lambda>i. frame_of (usable_addresses fa ! i)) (fa_next fa # used))"
    by (simp add: IH(6) fa1(3))
  moreover have "\<forall>i \<in> set (fa_next fa # used). fa_next fa \<le> i \<and> i < length (usable_addresses fa)"
    using IH(5) fa1(2) len by (auto dest!: IH(5))
  moreover have "sorted_wrt (<) (fa_next fa # used)" using IH(4,5) fa1(2) by (auto dest!: IH(5))
  ultimately show ?case
    using IH(1-3) fa1(1,2) by (intro conjI exI [of _ "fa_next fa # used"]) simp_all
qed

lemma heap_pages_eq: "heap_pages = map (\<lambda>i. HEAP_START + 4096 * i) [0 ..< 256]"
proof -
  have "map (\<lambda>p. p * 4096) [n ..< n + k] = map (\<lambda>i. n * 4096 + 4096 * i) [0 ..< k]" for n k :: nat
    by (induction k) simp_all
  from this [of 18325193792 256] show ?thesis
    by (simp add: heap_pages_def HEAP_START_def HEAP_SIZE_def Let_def)
qed

lemma heap_pages_distinct: "distinct heap_pages" "length heap_pages = 256"
  by (simp_all add: heap_pages_eq distinct_map inj_on_def)

text \<open>
  A mapping fails only when the page is mapped already or the frames run out, and takes at most one frame for
  each of the three levels of tables below the first.
\<close>

definition mapper_total :: "('f, 'e, 'w) page_mapper \<Rightarrow> ('w \<Rightarrow> nat \<rightharpoonup> 'f) \<Rightarrow> bool" where
  "mapper_total map_to mapped \<longleftrightarrow>
     (\<forall>page frame fa w. mapped w page = None \<and> fa_next fa + 3 \<le> length (usable_addresses fa) \<longrightarrow>
        (\<exists>fa' w'. map_to page frame fa w = (Inr (), fa', w') \<and> fa_next fa' \<le> fa_next fa + 3))"

lemma map_pages_total:
  assumes laws: "mapper_laws frame_of frame_start map_to mapped" and total: "mapper_total map_to mapped"
    and "distinct pages" and "\<forall>page \<in> set pages. mapped w page = None"
    and "fa_next fa + 4 * length pages \<le> length (usable_addresses fa)" and "fa_next fa + 4 * length pages < 2 ^ 64"
  shows "\<exists>fa' w'. map_pages frame_of map_to pages fa w = Ret (Inr (), fa', w')"
  using assms(3-)
proof (induction pages arbitrary: fa w)
  case (Cons page pages)
  let ?fa = "fa\<lparr>fa_next := Suc (fa_next fa)\<rparr>" and ?frame = "frame_of (usable_addresses fa ! fa_next fa)"
  have ua: "usable_addresses ?fa = usable_addresses fa" by (simp add: usable_addresses_def)
  have "mapped w page = None" and "fa_next ?fa + 3 \<le> length (usable_addresses ?fa)"
    using Cons.prems by (simp_all add: ua)
  then obtain fa1 w1 where m: "map_to page ?frame ?fa w = (Inr (), fa1, w1)" and le: "fa_next fa1 \<le> fa_next fa + 4"
    using total unfolding mapper_total_def by fastforce
  have fa1: "fa_memory_map fa1 = fa_memory_map fa" "mapped w1 = (mapped w)(page \<mapsto> ?frame)"
    using mapper_lawsD [OF laws m] by simp_all
  have ua1: "usable_addresses fa1 = usable_addresses fa" by (simp add: usable_addresses_def fa1(1))
  have "\<exists>fa' w'. map_pages frame_of map_to pages fa1 w1 = Ret (Inr (), fa', w')"
    using Cons.prems le by (intro Cons.IH) (auto simp: ua1 fa1(2))
  then show ?case
    using Cons.prems(3,4) m by (simp add: allocate_frame_def add_usize_def nth_opt_def usable_frames_def)
qed simp

lemma init_heap_total:
  assumes "mapper_laws frame_of frame_start map_to mapped" and "mapper_total map_to mapped"
    and "\<forall>page \<in> set heap_pages. mapped w page = None" and "1024 \<le> length (usable_addresses fa)" and "fa_next fa = 0"
  shows "\<exists>fa' w'. init_heap frame_of map_to heap_init fa w = Ret (Inr (), fa', w')"
  using map_pages_total [OF assms(1,2) heap_pages_distinct(1) assms(3), of fa] assms(4,5)
  by (auto simp: init_heap_def heap_pages_distinct(2))

lemma init_heap_frames:
  assumes "mapper_laws frame_of frame_start map_to mapped" and "regions_ok (fa_memory_map fa)"
    and "\<And>a n w. mapped (heap_init a n w) = mapped w"
    and "init_heap frame_of map_to heap_init fa w = Ret (Inr (), fa', w')"
  shows "\<exists>frames. length frames = 256 \<and> distinct frames \<and>
    (\<forall>f \<in> set frames. \<exists>r \<in> set (fa_memory_map fa). mr_kind r = Usable \<and>
       unat (mr_start r) \<le> frame_start f \<and> frame_start f < unat (mr_end r)) \<and>
    mapped w' = (mapped w)(map (\<lambda>i. HEAP_START + 4096 * i) [0 ..< 256] [\<mapsto>] frames)"
proof -
  obtain w1 where "map_pages frame_of map_to heap_pages fa w = Ret (Inr (), fa', w1)" and w': "w' = heap_init HEAP_START HEAP_SIZE w1"
  proof -
    obtain r fa1 w1 where "map_pages frame_of map_to heap_pages fa w = Ret (r, fa1, w1)"
      "(case r of Inl e \<Rightarrow> Ret (Inl e, fa1, w1) | Inr _ \<Rightarrow> Ret (Inr (), fa1, heap_init HEAP_START HEAP_SIZE w1)) = Ret (Inr (), fa', w')"
      using assms(4) by (auto simp: init_heap_def xbind_Ret_iff)
    then show ?thesis by (cases r) (auto intro: that)
  qed
  from map_pages_frames [OF assms(1) heap_pages_distinct(1) this(1)] obtain used where
    used: "length used = 256" "sorted_wrt (<) used" "\<And>i. i \<in> set used \<Longrightarrow> i < length (usable_addresses fa)"
      "mapped w1 = (mapped w)(heap_pages [\<mapsto>] map (\<lambda>i. frame_of (usable_addresses fa ! i)) used)"
    by (auto simp: heap_pages_distinct(2))
  let ?addr = "\<lambda>i. usable_addresses fa ! i"
  have start: "frame_start (frame_of (?addr i)) = ?addr i" if "i \<in> set used" for i
    using assms(1) usable_addresses_ok(2) [OF assms(2), of "?addr i"] used(3) [OF that] by (simp add: mapper_laws_def)
  have "inj_on (\<lambda>i. frame_of (?addr i)) (set used)"
  proof (rule inj_onI)
    fix i j assume ij: "i \<in> set used" "j \<in> set used" "frame_of (?addr i) = frame_of (?addr j)"
    then have "?addr i = ?addr j" using start by metis
    then show "i = j" using usable_addresses_ok(1) [OF assms(2)] used(3) ij by (simp add: nth_eq_iff_index_eq)
  qed
  then have "distinct (map (\<lambda>i. frame_of (?addr i)) used)"
    using used(2) by (simp add: distinct_map strict_sorted_iff)
  moreover have "\<exists>r \<in> set (fa_memory_map fa). mr_kind r = Usable \<and>
      unat (mr_start r) \<le> frame_start (frame_of (?addr i)) \<and> frame_start (frame_of (?addr i)) < unat (mr_end r)"
    if "i \<in> set used" for i
    using usable_addresses_ok(2) [OF assms(2), of "?addr i"] used(3) [OF that] start [OF that] by simp
  ultimately show ?thesis
    using used(1,4) w' assms(3) by (intro exI [of _ "map (\<lambda>i. frame_of (?addr i)) used"]) (simp add: heap_pages_eq)
qed

lemma heap_first_page:
  assumes "0 < n" and "length frames = n"
  shows "(m(map (\<lambda>i. HEAP_START + 4096 * i) [0 ..< n] [\<mapsto>] frames)) HEAP_START = Some (frames ! 0)"
proof -
  obtain f fs where frames: "frames = f # fs" using assms by (cases frames) auto
  have "HEAP_START \<notin> set (map (\<lambda>i. HEAP_START + 4096 * i) [Suc 0 ..< n])" by auto
  then show ?thesis using assms(1) by (simp add: frames upt_conv_Cons map_upds_apply_nontin del: set_map)
qed

section \<open>Properties\<close>

text \<open>
  C36: on a memory map whose usable regions are aligned and do not overlap and have at least 1024 frames, the
  set-up of the heap succeeds, its 256 pages are mapped to 256 different frames, each in a usable region, and
  no other page is mapped by it, whatever frames the page tables take in between.
\<close>

theorem heap_mapped:
  assumes "mapper_laws frame_of frame_start map_to mapped" and "mapper_total map_to mapped"
    and "\<And>a n w. mapped (heap_init a n w) = mapped w"
    and "regions_ok regions" and "1024 \<le> length (usable_addresses (frame_allocator_init regions))"
    and "\<forall>page \<in> set heap_pages. mapped w page = None"
  shows "\<exists>fa' w' frames. init_heap frame_of map_to heap_init (frame_allocator_init regions) w = Ret (Inr (), fa', w') \<and>
    length frames = 256 \<and> distinct frames \<and>
    (\<forall>f \<in> set frames. \<exists>r \<in> set regions. mr_kind r = Usable \<and>
       unat (mr_start r) \<le> frame_start f \<and> frame_start f < unat (mr_end r)) \<and>
    mapped w' = (mapped w)(map (\<lambda>i. HEAP_START + 4096 * i) [0 ..< 256] [\<mapsto>] frames)"
proof -
  let ?fa = "frame_allocator_init regions"
  have fa: "fa_memory_map ?fa = regions" "fa_next ?fa = 0" by (simp_all add: frame_allocator_init_def)
  obtain fa' w' where run: "init_heap frame_of map_to heap_init ?fa w = Ret (Inr (), fa', w')"
    using init_heap_total [OF assms(1,2,6,5) fa(2)] by blast
  from init_heap_frames [OF assms(1) _ assms(3) run] assms(4) run show ?thesis unfolding fa(1) by blast
qed

theorem heap_mapped_witness:
  "\<exists>fa' w' f. init_heap (\<lambda>a. a) (\<lambda>page frame fa w. (Inr () :: unit + unit, fa, w(page \<mapsto> frame))) (\<lambda>a n w. w)
     (frame_allocator_init [\<lparr>mr_start = 0, mr_end = 0x100000, mr_kind = Bootloader\<rparr>,
        \<lparr>mr_start = 0x100000, mr_end = 0x800000, mr_kind = Usable\<rparr>]) Map.empty = Ret (Inr (), fa', w') \<and>
     w' HEAP_START = Some f \<and> 0x100000 \<le> f \<and> f < 0x800000"
proof -
  let ?map = "\<lambda>page frame fa (w :: nat \<rightharpoonup> nat). (Inr () :: unit + unit, fa :: frame_allocator, w(page \<mapsto> frame))"
  let ?rs = "[\<lparr>mr_start = 0, mr_end = 0x100000, mr_kind = Bootloader\<rparr>,
        \<lparr>mr_start = 0x100000, mr_end = 0x800000, mr_kind = Usable\<rparr>]"
  have laws: "mapper_laws (\<lambda>a. a) (\<lambda>f. f) ?map (\<lambda>w. w)" "mapper_total ?map (\<lambda>w. w)"
    by (simp_all add: mapper_laws_def mapper_total_def)
  have ok: "regions_ok ?rs" by (simp add: regions_ok_def)
  have "length (usable_addresses (frame_allocator_init ?rs)) = 1792"
    by (simp add: usable_addresses_def frame_allocator_init_def addr_steps_eq)
  with heap_mapped [OF laws _ ok, of "\<lambda>a n w. w" Map.empty] obtain fa' w' frames where
    run: "init_heap (\<lambda>a. a) ?map (\<lambda>a n w. w) (frame_allocator_init ?rs) Map.empty = Ret (Inr (), fa', w')"
      and fr: "length frames = 256"
      "\<forall>f \<in> set frames. \<exists>r \<in> set ?rs. mr_kind r = Usable \<and> unat (mr_start r) \<le> f \<and> f < unat (mr_end r)"
      "w' = Map.empty(map (\<lambda>i. HEAP_START + 4096 * i) [0 ..< 256] [\<mapsto>] frames)"
    by auto
  have "w' HEAP_START = Some (frames ! 0)" unfolding fr(3) by (rule heap_first_page) (use fr(1) in simp_all)
  moreover have "frames ! 0 \<in> set frames" using fr(1) by simp
  ultimately show ?thesis using run fr(2) by fastforce
qed

end
