(* ===== verification/Vga.thy ===== *)
theory Vga
  imports Rust_Prelude
begin

text \<open>
  \<^verbatim>\<open>vga.rs\<close> and \<^verbatim>\<open>video.rs\<close>: the text mode writer and the pixel frame buffer. The volatile cells of
  the text buffer are modelled as plain cells: nothing else writes to them. Formatted arguments are the
  pieces they are written in, and the writer's lock is free when \<^verbatim>\<open>_print\<close> takes it.
\<close>

section \<open>The text buffer\<close>

datatype vga_color =
    Black | Blue | Green | Cyan | Red | Magenta | Brown | LightGray
  | DarkGray | LightBlue | LightGreen | LightCyan | LightRed | Pink | Yellow | White

fun color_u8 :: "vga_color \<Rightarrow> u8" where
  "color_u8 Black = 0" | "color_u8 Blue = 1" | "color_u8 Green = 2" | "color_u8 Cyan = 3"
| "color_u8 Red = 4" | "color_u8 Magenta = 5" | "color_u8 Brown = 6" | "color_u8 LightGray = 7"
| "color_u8 DarkGray = 8" | "color_u8 LightBlue = 9" | "color_u8 LightGreen = 10" | "color_u8 LightCyan = 11"
| "color_u8 LightRed = 12" | "color_u8 Pink = 13" | "color_u8 Yellow = 14" | "color_u8 White = 15"

definition color_code_new :: "vga_color \<Rightarrow> vga_color \<Rightarrow> u8" where
  "color_code_new foreground background = push_bit 4 (color_u8 background) OR color_u8 foreground"

record screen_char =
  sc_ascii_character :: u8
  sc_color_code :: u8

definition BUFFER_HEIGHT :: nat where
  "BUFFER_HEIGHT = 25"

definition BUFFER_WIDTH :: nat where
  "BUFFER_WIDTH = 80"

record vga_writer =
  vw_column_position :: nat
  vw_color_code :: u8
  vw_buffer :: "screen_char list list"

definition read_cell :: "screen_char list list \<Rightarrow> nat \<Rightarrow> nat \<Rightarrow> screen_char exec" where
  "read_cell chars row col = xbind (index_at chars row) (\<lambda>r. index_at r col)"

definition write_cell :: "screen_char list list \<Rightarrow> nat \<Rightarrow> nat \<Rightarrow> screen_char \<Rightarrow> screen_char list list exec" where
  "write_cell chars row col c =
     xbind (index_at chars row) (\<lambda>r. xbind (set_at r col c) (\<lambda>r. set_at chars row r))"

text \<open>The loops of \<^verbatim>\<open>new_line\<close> and \<^verbatim>\<open>clear_row\<close> over columns and rows.\<close>

fun copy_cols :: "nat \<Rightarrow> nat list \<Rightarrow> screen_char list list \<Rightarrow> screen_char list list exec" where
  "copy_cols row [] chars = Ret chars"
| "copy_cols row (col # cols) chars =
     xbind (read_cell chars row col) (\<lambda>character.
     xbind (write_cell chars (row - 1) col character) (\<lambda>chars. copy_cols row cols chars))"

fun copy_rows :: "nat list \<Rightarrow> screen_char list list \<Rightarrow> screen_char list list exec" where
  "copy_rows [] chars = Ret chars"
| "copy_rows (row # rows) chars =
     xbind (copy_cols row [0 ..< BUFFER_WIDTH] chars) (\<lambda>chars. copy_rows rows chars)"

fun clear_cols :: "nat \<Rightarrow> screen_char \<Rightarrow> nat list \<Rightarrow> screen_char list list \<Rightarrow> screen_char list list exec" where
  "clear_cols row blank [] chars = Ret chars"
| "clear_cols row blank (col # cols) chars =
     xbind (write_cell chars row col blank) (\<lambda>chars. clear_cols row blank cols chars)"

definition vga_clear_row :: "vga_writer \<Rightarrow> nat \<Rightarrow> vga_writer exec" where
  "vga_clear_row self row =
     (let blank = \<lparr>sc_ascii_character = 0x20, sc_color_code = vw_color_code self\<rparr> in
      xbind (clear_cols row blank [0 ..< BUFFER_WIDTH] (vw_buffer self)) (\<lambda>chars.
      Ret (self\<lparr>vw_buffer := chars\<rparr>)))"

definition vga_new_line :: "vga_writer \<Rightarrow> vga_writer exec" where
  "vga_new_line self =
     xbind (copy_rows [1 ..< BUFFER_HEIGHT] (vw_buffer self)) (\<lambda>chars.
     let self = self\<lparr>vw_buffer := chars\<rparr> in
     xbind (vga_clear_row self (BUFFER_HEIGHT - 1)) (\<lambda>self.
     Ret (self\<lparr>vw_column_position := 0\<rparr>)))"

definition vga_write_byte :: "vga_writer \<Rightarrow> u8 \<Rightarrow> vga_writer exec" where
  "vga_write_byte self byte =
     (if byte = 0x0A then vga_new_line self
      else
        xbind (if BUFFER_WIDTH \<le> vw_column_position self then vga_new_line self else Ret self) (\<lambda>self.
        let row = BUFFER_HEIGHT - 1; col = vw_column_position self; color_code = vw_color_code self in
        xbind (write_cell (vw_buffer self) row col \<lparr>sc_ascii_character = byte, sc_color_code = color_code\<rparr>)
          (\<lambda>chars.
        let self = self\<lparr>vw_buffer := chars\<rparr> in
        xbind (add_usize (vw_column_position self) 1) (\<lambda>n. Ret (self\<lparr>vw_column_position := n\<rparr>)))))"

fun vga_write_string :: "vga_writer \<Rightarrow> bytes \<Rightarrow> vga_writer exec" where
  "vga_write_string self [] = Ret self"
| "vga_write_string self (byte # bs) =
     xbind (vga_write_byte self (if 0x20 \<le> byte \<and> byte \<le> 0x7e \<or> byte = 0x0A then byte else 0xfe)) (\<lambda>self.
     vga_write_string self bs)"

text \<open>\<^verbatim>\<open>write_str\<close> always answers \<^verbatim>\<open>Ok\<close>; the static writer starts in the first column of the buffer it is given.\<close>

definition vga_write_str :: "vga_writer \<Rightarrow> bytes \<Rightarrow> (unit option \<times> vga_writer) exec" where
  "vga_write_str self s = xbind (vga_write_string self s) (\<lambda>self. Ret (Some (), self))"

fun vga_write_fmt :: "vga_writer \<Rightarrow> bytes list \<Rightarrow> (unit option \<times> vga_writer) exec" where
  "vga_write_fmt self [] = Ret (Some (), self)"
| "vga_write_fmt self (p # ps) =
     xbind (vga_write_str self p) (\<lambda>(r, self). case r of None \<Rightarrow> Ret (None, self) | Some _ \<Rightarrow> vga_write_fmt self ps)"

definition vga_print :: "vga_writer \<Rightarrow> bytes list \<Rightarrow> vga_writer exec" where
  "vga_print self args = xbind (vga_write_fmt self args) (\<lambda>(r, self). xbind (unwrap r) (\<lambda>_. Ret self))"

definition WRITER :: "screen_char list list \<Rightarrow> vga_writer" where
  "WRITER buffer = \<lparr>vw_column_position = 0, vw_color_code = color_code_new Yellow Black, vw_buffer = buffer\<rparr>"

section \<open>The frame buffer\<close>

record frame_buffer_info =
  fb_byte_len :: nat
  fb_horizontal_resolution :: nat
  fb_bytes_per_pixel :: nat

record pixel_color =
  px_red :: u8
  px_green :: u8
  px_blue :: u8

record video_statics =
  vid_info :: "frame_buffer_info option"
  vid_buffer :: "bytes option"

definition video_init :: "frame_buffer_info \<Rightarrow> bytes \<Rightarrow> video_statics \<Rightarrow> video_statics" where
  "video_init info buffer st =
     (let st = (case vid_info st of None \<Rightarrow> st\<lparr>vid_info := Some info\<rparr> | Some _ \<Rightarrow> st)
      in case vid_buffer st of None \<Rightarrow> st\<lparr>vid_buffer := Some buffer\<rparr> | Some _ \<Rightarrow> st)"

definition mul_usize :: "nat \<Rightarrow> nat \<Rightarrow> nat exec" where
  "mul_usize m n = (if m * n < 2 ^ 64 then Ret (m * n) else Panic ArithOverflow)"

text \<open>\<^verbatim>\<open>*(locked.get_mut(i).unwrap()) = v\<close>\<close>

definition set_unwrap :: "bytes \<Rightarrow> nat \<Rightarrow> u8 \<Rightarrow> bytes exec" where
  "set_unwrap xs i v = (if i < length xs then Ret (xs[i := v]) else Panic UnwrapFailed)"

definition video_draw :: "nat \<Rightarrow> nat \<Rightarrow> pixel_color \<Rightarrow> video_statics \<Rightarrow> video_statics exec" where
  "video_draw x y color st =
     (case vid_buffer st of
        None \<Rightarrow> Ret st
      | Some buffer \<Rightarrow>
          xbind (unwrap (vid_info st)) (\<lambda>info.
          xbind (mul_usize y (fb_horizontal_resolution info)) (\<lambda>a.
          xbind (mul_usize a (fb_bytes_per_pixel info)) (\<lambda>a.
          xbind (mul_usize x (fb_bytes_per_pixel info)) (\<lambda>b.
          xbind (add_usize a b) (\<lambda>start.
          xbind (add_usize start (fb_bytes_per_pixel info)) (\<lambda>e.
          if fb_byte_len info \<le> e then Ret st
          else
            xbind (set_unwrap buffer start (px_red color)) (\<lambda>buffer.
            xbind (add_usize start 1) (\<lambda>i.
            xbind (set_unwrap buffer i (px_green color)) (\<lambda>buffer.
            xbind (add_usize start 2) (\<lambda>i.
            xbind (set_unwrap buffer i (px_blue color)) (\<lambda>buffer.
            Ret (st\<lparr>vid_buffer := Some buffer\<rparr>)))))))))))))"

section \<open>Scrolling\<close>

definition vga_wf :: "vga_writer \<Rightarrow> bool" where
  "vga_wf w \<longleftrightarrow> length (vw_buffer w) = BUFFER_HEIGHT \<and> (\<forall>r \<in> set (vw_buffer w). length r = BUFFER_WIDTH) \<and>
     vw_column_position w \<le> BUFFER_WIDTH"

text \<open>What the loops amount to: the rows move up by one and a blank one comes in at the bottom.\<close>

definition vga_blank :: "vga_writer \<Rightarrow> screen_char" where
  "vga_blank w = \<lparr>sc_ascii_character = 0x20, sc_color_code = vw_color_code w\<rparr>"

definition vga_scrolled :: "vga_writer \<Rightarrow> vga_writer" where
  "vga_scrolled w =
     w\<lparr>vw_buffer := tl (vw_buffer w) @ [replicate BUFFER_WIDTH (vga_blank w)], vw_column_position := 0\<rparr>"

lemma write_cell_eq:
  "row < length chars \<Longrightarrow> col < length (chars ! row) \<Longrightarrow>
     write_cell chars row col c = Ret (chars[row := (chars ! row)[col := c]])"
  by (simp add: write_cell_def index_at_def set_at_def)

lemma copy_cols_run:
  assumes "0 < row" and "row < length chars" and "length (chars ! row) = m" and "length (chars ! (row - 1)) = m" and "n \<le> m"
  shows "copy_cols row [n ..< m] chars = Ret (chars[row - 1 := take n (chars ! (row - 1)) @ drop n (chars ! row)])"
  using assms
proof (induction "m - n" arbitrary: n chars)
  case 0
  then show ?case by simp
next
  case (Suc k)
  let ?chars = "chars[row - 1 := (chars ! (row - 1))[n := chars ! row ! n]]"
  have n: "n < m" using Suc.hyps(2) by simp
  have same: "?chars ! row = chars ! row" "?chars ! (row - 1) = (chars ! (row - 1))[n := chars ! row ! n]"
    using Suc.prems by simp_all
  have "copy_cols row [n ..< m] chars = copy_cols row [Suc n ..< m] ?chars"
    using n Suc.prems by (simp add: upt_conv_Cons read_cell_def index_at_def write_cell_eq)
  also have "\<dots> = Ret (?chars[row - 1 := take (Suc n) (?chars ! (row - 1)) @ drop (Suc n) (?chars ! row)])"
    using Suc.hyps(2) Suc.prems n same by (intro Suc.hyps(1)) simp_all
  also have "take (Suc n) (?chars ! (row - 1)) @ drop (Suc n) (?chars ! row) =
      take n (chars ! (row - 1)) @ drop n (chars ! row)"
    using n Suc.prems unfolding same by (simp add: take_Suc_conv_app_nth Cons_nth_drop_Suc)
  finally show ?case by simp
qed

lemma copy_rows_run:
  assumes "1 \<le> k" and "k \<le> h" and "length chars = h" and "\<And>r. r \<in> set chars \<Longrightarrow> length r = BUFFER_WIDTH"
  shows "copy_rows [k ..< h] chars = Ret (take (k - 1) chars @ drop k chars @ [last chars])"
  using assms
proof (induction "h - k" arbitrary: k chars)
  case 0
  then show ?case by (cases chars rule: rev_cases) auto
next
  case (Suc n)
  let ?chars = "chars[k - 1 := chars ! k]"
  have k: "k < h" using Suc.hyps(2) by simp
  have "copy_cols k [0 ..< BUFFER_WIDTH] chars = Ret ?chars"
    using Suc.prems k by (subst copy_cols_run) simp_all
  then have "copy_rows [k ..< h] chars = copy_rows [Suc k ..< h] ?chars"
    using k by (simp add: upt_conv_Cons)
  also have "\<dots> = Ret (take k ?chars @ drop (Suc k) ?chars @ [last ?chars])"
    using Suc.hyps Suc.prems k by (subst Suc.hyps(1)) (auto dest!: in_set_conv_nth [THEN iffD1] simp: nth_list_update)
  also have "take k ?chars @ drop (Suc k) ?chars @ [last ?chars] = take (k - 1) chars @ drop k chars @ [last chars]"
  proof -
    have "take k ?chars = take (k - 1) chars @ [chars ! k]"
      using Suc.prems(1,3) k by (cases k) (simp_all add: take_Suc_conv_app_nth)
    moreover have "drop k chars = chars ! k # drop (Suc k) chars" using Suc.prems(3) k by (simp add: Cons_nth_drop_Suc)
    moreover have "last ?chars = last chars"
      using Suc.prems(1,3) k by (subst last_list_update) auto
    ultimately show ?thesis using Suc.prems(1) by simp
  qed
  finally show ?case .
qed

lemma clear_cols_run:
  assumes "row < length chars" and "length (chars ! row) = m" and "n \<le> m"
  shows "clear_cols row b [n ..< m] chars = Ret (chars[row := take n (chars ! row) @ replicate (m - n) b])"
  using assms
proof (induction "m - n" arbitrary: n chars)
  case 0
  then show ?case by simp
next
  case (Suc k)
  let ?chars = "chars[row := (chars ! row)[n := b]]"
  have n: "n < m" using Suc.hyps(2) by simp
  have "clear_cols row b [n ..< m] chars = clear_cols row b [Suc n ..< m] ?chars"
    using n Suc.prems by (simp add: upt_conv_Cons write_cell_eq)
  also have "\<dots> = Ret (?chars[row := take (Suc n) (?chars ! row) @ replicate (m - Suc n) b])"
    using Suc.hyps(2) Suc.prems n by (intro Suc.hyps(1)) simp_all
  also have "take (Suc n) (?chars ! row) @ replicate (m - Suc n) b = take n (chars ! row) @ replicate (m - n) b"
    using n Suc.prems by (simp add: take_Suc_conv_app_nth Suc_diff_Suc flip: replicate_Suc)
  finally show ?case by simp
qed

lemma vga_new_line_eq:
  assumes "vga_wf w"
  shows "vga_new_line w = Ret (vga_scrolled w)" and "vga_wf (vga_scrolled w)"
proof -
  obtain r rs where b: "vw_buffer w = r # rs" "length rs = 24"
    using assms by (cases "vw_buffer w") (auto simp: vga_wf_def BUFFER_HEIGHT_def)
  have rows: "\<And>r. r \<in> set (vw_buffer w) \<Longrightarrow> length r = BUFFER_WIDTH" using assms by (simp add: vga_wf_def)
  have copied: "copy_rows [1 ..< BUFFER_HEIGHT] (vw_buffer w) = Ret (rs @ [last (vw_buffer w)])"
    using rows b by (subst copy_rows_run) (simp_all add: BUFFER_HEIGHT_def)
  have l: "length (last (vw_buffer w)) = BUFFER_WIDTH" using rows b by simp
  have cleared: "clear_cols (BUFFER_HEIGHT - 1) (vga_blank w) [0 ..< BUFFER_WIDTH] (rs @ [last (vw_buffer w)]) =
      Ret (rs @ [replicate BUFFER_WIDTH (vga_blank w)])"
    using b l by (subst clear_cols_run) (simp_all add: BUFFER_HEIGHT_def nth_append list_update_append)
  have row: "vga_clear_row (w\<lparr>vw_buffer := rs @ [last (vw_buffer w)]\<rparr>) (BUFFER_HEIGHT - 1) =
      Ret (w\<lparr>vw_buffer := rs @ [replicate BUFFER_WIDTH (vga_blank w)]\<rparr>)"
    using cleared by (simp add: vga_clear_row_def Let_def vga_blank_def)
  show "vga_new_line w = Ret (vga_scrolled w)"
    unfolding vga_new_line_def copied xbind.simps Let_def row by (simp add: vga_scrolled_def b)
  show "vga_wf (vga_scrolled w)"
    using b rows by (simp add: vga_wf_def vga_scrolled_def BUFFER_HEIGHT_def)
qed

section \<open>Writing\<close>

text \<open>The byte shown for a byte of the text, and the effect of one byte on the screen.\<close>

definition vga_shown :: "u8 \<Rightarrow> u8" where
  "vga_shown b = (if 0x20 \<le> b \<and> b \<le> 0x7e \<or> b = 0x0A then b else 0xfe)"

definition vga_put :: "u8 \<Rightarrow> vga_writer \<Rightarrow> vga_writer" where
  "vga_put b w =
     (if b = 0x0A then vga_scrolled w
      else
        let w = (if vw_column_position w = 80 then vga_scrolled w else w);
            c = \<lparr>sc_ascii_character = b, sc_color_code = vw_color_code w\<rparr>
        in w\<lparr>vw_buffer := butlast (vw_buffer w) @ [(last (vw_buffer w))[vw_column_position w := c]],
             vw_column_position := vw_column_position w + 1\<rparr>)"

lemma vga_write_byte_eq:
  assumes "vga_wf w"
  shows "vga_write_byte w b = Ret (vga_put b w) \<and> vga_wf (vga_put b w)"
proof (cases "b = 0x0A")
  case True
  then show ?thesis using vga_new_line_eq [OF assms] by (simp add: vga_write_byte_def vga_put_def)
next
  case False
  define v where "v = (if vw_column_position w = 80 then vga_scrolled w else w)"
  have v: "(if BUFFER_WIDTH \<le> vw_column_position w then vga_new_line w else Ret w) = Ret v"
    and wf: "vga_wf v" and col: "vw_column_position v < 80"
    using assms vga_new_line_eq [OF assms] by (auto simp: v_def vga_wf_def BUFFER_WIDTH_def vga_scrolled_def)
  obtain rs r where b: "vw_buffer v = rs @ [r]" "length rs = 24"
    using wf by (cases "vw_buffer v" rule: rev_cases) (auto simp: vga_wf_def BUFFER_HEIGHT_def)
  have r: "length r = 80" "\<forall>x \<in> set rs. length x = 80" using wf by (auto simp: vga_wf_def b BUFFER_WIDTH_def)
  have cell: "write_cell (vw_buffer v) (BUFFER_HEIGHT - 1) (vw_column_position v) c =
      Ret (rs @ [r[vw_column_position v := c]])" for c
    using col r by (subst write_cell_eq) (simp_all add: b BUFFER_HEIGHT_def nth_append list_update_append)
  have "vga_write_byte w b = Ret (vga_put b w)"
    unfolding vga_write_byte_def v vga_put_def Let_def v_def [symmetric] xbind.simps cell using False col
    by (simp add: add_usize_def b)
  moreover have "vga_wf (vga_put b w)"
    unfolding vga_put_def Let_def v_def [symmetric] using False col r
    by (simp add: vga_wf_def b BUFFER_HEIGHT_def BUFFER_WIDTH_def)
  ultimately show ?thesis ..
qed

lemma vga_write_string_run:
  assumes "vga_wf w"
  shows "vga_write_string w s = Ret (fold vga_put (map vga_shown s) w) \<and> vga_wf (fold vga_put (map vga_shown s) w)"
  using assms
proof (induction s arbitrary: w)
  case (Cons b s)
  then show ?case using vga_write_byte_eq [OF Cons.prems, of "vga_shown b"] by (simp flip: vga_shown_def)
qed simp

section \<open>Properties\<close>

text \<open>
  C37: printing formatted pieces never indexes outside the text buffer, keeps its 25 rows of 80 cells, and amounts
  to putting the shown bytes of all pieces one after the other in the bottom row, scrolling at a newline
  and when the row is full.
\<close>

theorem vga_string_written:
  assumes "vga_wf w"
  shows "vga_print w ps = Ret (fold vga_put (map vga_shown (concat ps)) w) \<and> vga_wf (fold vga_put (map vga_shown (concat ps)) w)"
proof -
  have "vga_write_fmt w ps = Ret (Some (), fold vga_put (map vga_shown (concat ps)) w) \<and> vga_wf (fold vga_put (map vga_shown (concat ps)) w)"
    using assms
  proof (induction ps arbitrary: w)
    case (Cons p ps)
    then show ?case using vga_write_string_run [OF Cons.prems, of p] by (simp add: vga_write_str_def)
  qed simp
  then show ?thesis by (simp add: vga_print_def)
qed

theorem vga_string_written_witness:
  "\<exists>w'. vga_print \<lparr>vw_column_position = 80, vw_color_code = color_code_new Yellow Black,
      vw_buffer = replicate 25 (replicate 80 \<lparr>sc_ascii_character = 0x41, sc_color_code = 0\<rparr>)\<rparr> [[0x48, 0x0A], [0x69]] = Ret w' \<and>
    length (vw_buffer w') = 25"
proof -
  let ?w = "\<lparr>vw_column_position = 80, vw_color_code = color_code_new Yellow Black,
      vw_buffer = replicate 25 (replicate 80 \<lparr>sc_ascii_character = 0x41, sc_color_code = 0\<rparr>)\<rparr>"
  have "vga_wf ?w" by (simp add: vga_wf_def BUFFER_HEIGHT_def BUFFER_WIDTH_def)
  from vga_string_written [OF this, of "[[0x48, 0x0A], [0x69]]"] show ?thesis
    by (simp add: vga_wf_def BUFFER_HEIGHT_def)
qed



end
