(* ===== verification/Hardware.thy ===== *)
theory Hardware
  imports Acpi Interrupts Kiss_Rng Memory_Frames Net_Device Pci Vga
begin

text \<open>
  \<^verbatim>\<open>hardware.rs\<close> and the page table part of \<^verbatim>\<open>memory.rs\<close>: the initialisation of the machine out of its parts, in
  the order of \<^verbatim>\<open>Hardware::init\<close>, and what the kernel instance offers afterwards.

  The paging structures, the control register and the contents of memory are the operations \<open>boot_ops\<close>
  on the world \<open>'w\<close>; the statics written during the initialisation are the fields of \<open>machine\<close>.
\<close>

section \<open>State\<close>

datatype 'w device = Device_Network "'w network_device" | Device_Graphics

record 'w networking_device_handle =
  ndh_mac :: mac
  ndh_ip :: "ip4 option"
  ndh_p_queue :: "'w packet_queue_sender"

datatype 'w device_handle = Handle_Network "'w networking_device_handle" | Handle_Graphics

record 'w hardware =
  hw_rsdt :: "(rsdt \<times> offset_mapper) option"
  hw_memory_offset :: "u64 option"
  hw_devices :: "'w device list"
  hw_rng :: kiss

record boot_info =
  bi_rsdp_addr :: "u64 option"
  bi_physical_memory_offset :: "u64 option"
  bi_framebuffer :: "(frame_buffer_info \<times> bytes) option"
  bi_memory_regions :: "memory_region list"

record ('f, 'e, 'w) boot_ops =
  bo_ram :: "'w \<Rightarrow> ram"
  bo_virt_addr :: "u64 \<Rightarrow> u64 exec"
  bo_virt_add :: "u64 \<Rightarrow> u64 \<Rightarrow> u64 exec"
  bo_read_cr3 :: "'w \<Rightarrow> u64 \<times> 'w"
  bo_page_table :: "u64 \<Rightarrow> u64 \<Rightarrow> ('f, 'e, 'w) page_mapper"
  bo_frame_of :: "nat \<Rightarrow> 'f"
  bo_heap_init :: "nat \<Rightarrow> nat \<Rightarrow> 'w \<Rightarrow> 'w"

record ('f, 'e, 't, 'w) machine =
  mc_intr :: "('t, 'w) intr_state"
  mc_video :: video_statics
  mc_memory_mapping :: "('f, 'e, 'w) page_mapper option"
  mc_kernel_instance :: "'w hardware option"

section \<open>Page tables\<close>

text \<open>A table is known by its virtual address.\<close>

definition active_level_4_table :: "('f, 'e, 'w) boot_ops \<Rightarrow> u64 \<Rightarrow> 'w \<Rightarrow> (u64 \<times> 'w) exec" where
  "active_level_4_table ops physical_memory_offset w =
     (case bo_read_cr3 ops w of (phys, w) \<Rightarrow>
        xbind (bo_virt_add ops physical_memory_offset phys) (\<lambda>virt. Ret (virt, w)))"

definition memory_init :: "('f, 'e, 'w) boot_ops \<Rightarrow> u64 \<Rightarrow> 'w \<Rightarrow> (('f, 'e, 'w) page_mapper \<times> 'w) exec" where
  "memory_init ops physical_memory_offset w =
     xbind (active_level_4_table ops physical_memory_offset w) (\<lambda>(level_4_table, w).
     Ret (bo_page_table ops level_4_table physical_memory_offset, w))"

section \<open>Initialisation\<close>

definition basic_init :: "('h, 't, 'w) idt_ops \<Rightarrow> ('t, 'w) intr_state \<Rightarrow> ('t, 'w) intr_state exec" where
  "basic_init iops st =
     (let st = st\<lparr>is_enabled := False\<rparr> in
      xbind (gdt_init iops (is_world st)) (\<lambda>w.
      xbind (init_idt iops (st\<lparr>is_world := w\<rparr>)) (\<lambda>st.
      let st = st\<lparr>is_world := pic_initialize iops (is_world st)\<rparr>
      in Ret (st\<lparr>is_enabled := True\<rparr>))))"

definition hardware_video_init :: "(frame_buffer_info \<times> bytes) option \<Rightarrow> video_statics \<Rightarrow> video_statics" where
  "hardware_video_init framebuffer st =
     (case framebuffer of Some (info, buffer) \<Rightarrow> video_init info buffer st | None \<Rightarrow> st)"

definition rsdp_acip_setup :: "ram \<Rightarrow> u64 option \<Rightarrow> u64 option \<Rightarrow> (rsdt \<times> offset_mapper) option exec" where
  "rsdp_acip_setup mem rsdp_addr physical_memory_offset =
     (case rsdp_addr of
        None \<Rightarrow> Ret None
      | Some raw_addr \<Rightarrow>
          xbind (case physical_memory_offset of Some o' \<Rightarrow> Ret o' | None \<Rightarrow> Panic ExplicitPanic) (\<lambda>offset.
          let offset_mapper = offset_mapper_new offset in
          xbind (rsdp_load mem (PhysicalPtr raw_addr) (offset_mapper_map offset_mapper)) (\<lambda>rsdp.
          xbind (rsdp_load_rsdt mem rsdp (offset_mapper_map offset_mapper)) (\<lambda>rsdt.
          Ret (Some (rsdt, offset_mapper))))))"

definition memory_setup ::
  "('f, 'e, 'w) boot_ops \<Rightarrow> u64 option \<Rightarrow> memory_region list \<Rightarrow> 'w \<Rightarrow> (('f, 'e, 'w) page_mapper \<times> 'w) exec" where
  "memory_setup ops physical_memory_offset memory_regions w =
     xbind (unwrap physical_memory_offset) (\<lambda>mem_offsets.
     xbind (bo_virt_addr ops mem_offsets) (\<lambda>phys_mem_offset.
     xbind (memory_init ops phys_mem_offset w) (\<lambda>(mapper, w).
     let frame_allocator = frame_allocator_init memory_regions in
     xbind (init_heap (bo_frame_of ops) mapper (bo_heap_init ops) frame_allocator w) (\<lambda>(r, _, w).
     xbind (unwrap (case r of Inl _ \<Rightarrow> None | Inr u \<Rightarrow> Some u)) (\<lambda>_. Ret (mapper, w))))))"

definition pci_devices :: "'w port_ops \<Rightarrow> 'w \<Rightarrow> pci_device list \<times> 'w" where
  "pci_devices pops w = bruteforce pops w"

text \<open>Ethernet controllers are printed and then dropped from the list.\<close>

definition setup_pci :: "'w port_ops \<Rightarrow> u64 option \<Rightarrow> 'w \<Rightarrow> 'w device list \<times> 'w" where
  "setup_pci pops physical_memory_offset w =
     (case physical_memory_offset of
        None \<Rightarrow> ([], w)
      | Some offset \<Rightarrow>
          (case bruteforce pops w of (device_header, w) \<Rightarrow>
             (List.map_filter (\<lambda>header. None)
                (filter (\<lambda>d. gh_class (pd_generic d) = NetworkController Net_Ethernet) device_header), w)))"

definition hardware_init ::
  "('h, 't, 'w) idt_ops \<Rightarrow> 'w port_ops \<Rightarrow> ('f, 'e, 'w) boot_ops \<Rightarrow> boot_info \<Rightarrow> ('f, 'e, 't, 'w) machine \<Rightarrow>
     ('w hardware \<times> ('f, 'e, 't, 'w) machine) exec" where
  "hardware_init iops pops ops boot_info m =
     xbind (basic_init iops (mc_intr m)) (\<lambda>st.
     let m = m\<lparr>mc_intr := st\<rparr> in
     xbind (rsdp_acip_setup (bo_ram ops (is_world st)) (bi_rsdp_addr boot_info) (bi_physical_memory_offset boot_info)) (\<lambda>rsdt.
     let m = m\<lparr>mc_video := hardware_video_init (bi_framebuffer boot_info) (mc_video m)\<rparr> in
     xbind (memory_setup ops (bi_physical_memory_offset boot_info) (bi_memory_regions boot_info) (is_world (mc_intr m))) (\<lambda>(mapper, w).
     let m = m\<lparr>mc_intr := (mc_intr m)\<lparr>is_world := w\<rparr>\<rparr>;
         m = m\<lparr>mc_memory_mapping := (case mc_memory_mapping m of None \<Rightarrow> Some mapper | Some p \<Rightarrow> Some p)\<rparr>
     in case setup_pci pops (bi_physical_memory_offset boot_info) (is_world (mc_intr m)) of (devices, w) \<Rightarrow>
     let m = m\<lparr>mc_intr := (mc_intr m)\<lparr>is_world := w\<rparr>\<rparr> in
     xbind (unwrap (kiss_new 239812446 1837621879 512893 123873267123)) (\<lambda>rng.
     let instance = \<lparr>hw_rsdt = rsdt, hw_memory_offset = bi_physical_memory_offset boot_info, hw_devices = devices, hw_rng = rng\<rparr>;
         m = m\<lparr>mc_kernel_instance := (case mc_kernel_instance m of None \<Rightarrow> Some instance | Some i \<Rightarrow> Some i)\<rparr>
     in xbind (unwrap (mc_kernel_instance m)) (\<lambda>i. Ret (i, m))))))"

section \<open>The kernel instance\<close>

definition hardware_try_get :: "('f, 'e, 't, 'w) machine \<Rightarrow> 'w hardware option" where
  "hardware_try_get m = mc_kernel_instance m"

text \<open>The entries as the consumer of the iterator sees them.\<close>

definition get_rsdt_entries :: "ram \<Rightarrow> 'w hardware \<Rightarrow> acip_entry list exec option" where
  "get_rsdt_entries mem self =
     (case hw_rsdt self of
        None \<Rightarrow> None
      | Some (rsdt, mapper) \<Rightarrow>
          Some (rsdt_map mem (offset_mapper_map mapper)
            (\<lambda>(header, ptr). acip_entry_load mem header ptr (offset_mapper_map mapper)) (rsdt_iter_of rsdt)))"

fun each_network ::
  "('w network_device \<Rightarrow> 'w \<Rightarrow> ('w network_device \<times> 'w) exec) \<Rightarrow> 'w device list \<Rightarrow> 'w \<Rightarrow> ('w device list \<times> 'w) exec" where
  "each_network func [] w = Ret ([], w)"
| "each_network func (Device_Network dev # devices) w =
     xbind (func dev w) (\<lambda>(dev, w). xbind (each_network func devices w) (\<lambda>(devices, w). Ret (Device_Network dev # devices, w)))"
| "each_network func (Device_Graphics # devices) w =
     xbind (each_network func devices w) (\<lambda>(devices, w). Ret (Device_Graphics # devices, w))"

definition with_networking_device ::
  "('w network_device \<Rightarrow> 'w \<Rightarrow> ('w network_device \<times> 'w) exec) \<Rightarrow> 'w hardware \<Rightarrow> 'w \<Rightarrow> ('w hardware \<times> 'w) exec" where
  "with_networking_device func self w =
     xbind (each_network func (hw_devices self) w) (\<lambda>(devices, w). Ret (self\<lparr>hw_devices := devices\<rparr>, w))"

definition find_device_handle :: "('w device \<Rightarrow> bool) \<Rightarrow> 'w hardware \<Rightarrow> 'w device_handle option" where
  "find_device_handle predicate self =
     (case find predicate (hw_devices self) of
        None \<Rightarrow> None
      | Some (Device_Network net_dev) \<Rightarrow>
          Some (Handle_Network \<lparr>ndh_mac = nm_mac (nd_metadata net_dev), ndh_ip = nm_ip (nd_metadata net_dev),
            ndh_p_queue = nd_packet_queue net_dev\<rparr>)
      | Some Device_Graphics \<Rightarrow> Some Handle_Graphics)"

definition find_apply_device :: "('w device \<Rightarrow> bool) \<Rightarrow> ('w device \<Rightarrow> 'r) \<Rightarrow> 'w hardware \<Rightarrow> 'r option" where
  "find_apply_device pred app self = map_option app (find pred (hw_devices self))"

definition get_rand :: "'w hardware \<Rightarrow> (u64 \<times> 'w hardware) exec" where
  "get_rand self = xbind (kiss_rand (hw_rng self)) (\<lambda>(r, rng). Ret (r, self\<lparr>hw_rng := rng\<rparr>))"

section \<open>What the initialisation relies on\<close>

text \<open>
  The accesses of the initialisation to segments, controllers, timer and configuration space leave a part of the world
  alone; the address of the level 4 table is canonical and its page tables behave as \<^verbatim>\<open>map_to\<close> is
  documented.
\<close>

definition boot_keeps :: "('h, 't, 'w) idt_ops \<Rightarrow> 'w port_ops \<Rightarrow> ('w \<Rightarrow> 'p) \<Rightarrow> bool" where
  "boot_keeps iops pops part \<longleftrightarrow>
     init_keeps iops part \<and>
     (\<forall>p v w. part (port_write pops p v w) = part w) \<and> (\<forall>p w. part (snd (port_read pops p w)) = part w)"

definition paging_laws :: "('f, 'e, 'w) boot_ops \<Rightarrow> ('f \<Rightarrow> nat) \<Rightarrow> ('w \<Rightarrow> nat \<rightharpoonup> 'f) \<Rightarrow> u64 \<Rightarrow> bool" where
  "paging_laws ops frame_start mapped off \<longleftrightarrow>
     bo_virt_addr ops off = Ret off \<and>
     (\<forall>w. \<exists>t. bo_virt_add ops off (fst (bo_read_cr3 ops w)) = Ret t \<and>
        mapper_laws (bo_frame_of ops) frame_start (bo_page_table ops t off) mapped \<and>
        mapper_total (bo_page_table ops t off) mapped) \<and>
     (\<forall>w. mapped (snd (bo_read_cr3 ops w)) = mapped w) \<and>
     (\<forall>a n w. mapped (bo_heap_init ops a n w) = mapped w)"

text \<open>
  The tables of the firmware: the root pointer structure at \<open>raw\<close> names the table of tables at \<open>r\<close>, which has
  pointers of \<open>n\<close> bytes to the tables \<open>ps\<close>.
\<close>

definition acpi_at :: "ram \<Rightarrow> u64 \<Rightarrow> u64 \<Rightarrow> u32 \<Rightarrow> nat \<Rightarrow> u64 list \<Rightarrow> bool" where
  "acpi_at mem off raw r n ps \<longleftrightarrow>
     (let header = header_at mem off (ucast r); start = ucast r + of_nat sdt_header_size in
      unat raw + unat off < 2 ^ 64 \<and> bytes_at mem (raw + 16 + off) (le_bytes 4 r) \<and>
      utf8_valid (sdt_signature header) \<and> n = (if sdt_signature header = ascii_bytes ''XSDT'' then 8 else 4) \<and>
      unat (sdt_length header) = sdt_header_size + n * length ps \<and>
      bytes_at mem (start + off) (concat (map (pointer_bytes n) ps)) \<and>
      unat r + sdt_header_size + unat off + n * length ps < 2 ^ 64 \<and> (\<forall>x \<in> set ps. pointer_ok n off x))"

definition table_entries :: "ram \<Rightarrow> u64 \<Rightarrow> u64 list \<Rightarrow> acip_entry list exec" where
  "table_entries mem off ps =
     traverse (\<lambda>x. acip_entry_load mem (header_at mem off x) (PhysicalPtr (x + of_nat sdt_header_size))
       (offset_mapper_map (offset_mapper_new off))) ps"

text \<open>The statics before the initialisation.\<close>

definition machine_boot :: "'w \<Rightarrow> ('f, 'e, 't, 'w) machine" where
  "machine_boot w = \<lparr>mc_intr = intr_boot w, mc_video = \<lparr>vid_info = None, vid_buffer = None\<rparr>,
     mc_memory_mapping = None, mc_kernel_instance = None\<rparr>"

section \<open>Lemmas\<close>

lemma basic_init_eq: "basic_init = lib_init"
  by (intro ext) (simp add: basic_init_def lib_init_def Let_def)

lemma basic_init_run:
  assumes "idt_laws iops vec masks" and "boot_keeps iops pops part"
  shows "\<exists>st. basic_init iops (intr_boot w) = Ret st \<and> is_enabled st \<and> intr_inv st \<and> is_idt st = Initial \<and>
    part (is_world st) = part w"
  using lib_init_run [OF assms(1), of part w] assms(2) by (simp add: basic_init_eq boot_keeps_def)

lemma load_devices_keeps:
  assumes "boot_keeps iops pops part"
  shows "part (snd (load_devices pops slots w)) = part w"
proof -
  have r: "part (snd (pci_read_32bit pops b d f i w)) = part w" "part (snd (pci_read_word pops b d f i w)) = part w"
    for b d f i w using assms by (simp_all add: boot_keeps_def pci_read_32bit_def pci_read_word_def split_def)
  have h: "part (snd (load_header_type pops b d f t w)) = part w" for b d f t w
    by (simp add: load_header_type_def Let_def split_def r)
  have l: "part (snd (load_device pops b d w)) = part w" for b d w
    by (simp add: load_device_def Let_def split_def r h)
  show ?thesis
  proof (induction slots arbitrary: w)
    case (Cons slot slots)
    obtain b d where slot: "slot = (b, d)" by force
    show ?case using Cons [of "snd (load_device pops b d w)"] l [of b d w]
      by (auto simp: slot split: prod.splits option.splits)
  qed simp
qed

text \<open>No device survives the last filter, whatever is on the bus.\<close>

lemma setup_pci_empty: "fst (setup_pci pops physical_memory_offset w) = []"
  by (auto simp: setup_pci_def List.map_filter_def split: option.splits prod.splits)

lemma setup_pci_keeps:
  assumes "boot_keeps iops pops part"
  shows "part (snd (setup_pci pops physical_memory_offset w)) = part w"
  using load_devices_keeps [OF assms, of pci_slots w]
  by (auto simp: setup_pci_def bruteforce_def split: option.splits prod.splits)

lemma traverse_map: "traverse f (map g xs) = traverse (\<lambda>x. f (g x)) xs"
  by (induction xs) simp_all

lemma rsdp_read:
  assumes "acpi_at mem off raw r n ps"
  shows "\<exists>rsdp. rsdp_load mem (PhysicalPtr raw) (offset_mapper_map (offset_mapper_new off)) = Ret rsdp \<and>
    rsdp_rsdt_addr rsdp = PhysicalPtr (ucast r)"
proof -
  have sum: "unat raw + unat off < 2 ^ 64" and at: "bytes_at mem (raw + 16 + off) (le_bytes 4 r)"
    using assms by (simp_all add: acpi_at_def Let_def)
  have "take 4 (drop 16 (virtual_read mem (VirtualPtr (raw + off)) 20)) = virtual_read mem (VirtualPtr (raw + 16 + off)) 4"
    by (rule nth_equalityI) (simp_all add: virtual_read_nth algebra_simps del: virtual_read.simps)
  also have "\<dots> = le_bytes 4 r" using virtual_read_prefix [of mem "raw + 16 + off" "le_bytes 4 r" 4] at by simp
  finally have "le_at 4 16 (virtual_read mem (VirtualPtr (raw + off)) 20) = r" by (simp add: le_at_def)
  with sum show ?thesis
    by (simp add: rsdp_load_def offset_mapper_map_def offset_mapper_new_def add_w_def Let_def del: virtual_read.simps)
qed

lemma rsdp_acip_setup_found:
  assumes "acpi_at mem off raw r n ps"
  shows "\<exists>rsdt. rsdp_acip_setup mem (Some raw) (Some off) = Ret (Some (rsdt, offset_mapper_new off)) \<and>
    rsdt_iter_of rsdt = \<lparr>ri_ptr = PhysicalPtr (ucast r + of_nat sdt_header_size), ri_size = of_nat n, ri_left = length ps\<rparr>"
proof -
  let ?h = "header_at mem off (ucast r)"
  obtain rsdp where rsdp: "rsdp_load mem (PhysicalPtr raw) (offset_mapper_map (offset_mapper_new off)) = Ret rsdp"
      "rsdp_rsdt_addr rsdp = PhysicalPtr (ucast r)"
    using rsdp_read [OF assms] by blast
  have a: "utf8_valid (sdt_signature ?h)" "n = (if sdt_signature ?h = ascii_bytes ''XSDT'' then 8 else 4)"
      "unat (sdt_length ?h) = sdt_header_size + n * length ps" "unat r + sdt_header_size + unat off + n * length ps < 2 ^ 64"
    using assms unfolding acpi_at_def Let_def by blast+
  have u: "unat (ucast r :: u64) = unat r" by (simp add: unat_ucast_up)
  have "unat r + unat off < 2 ^ 64" using a(4) by simp
  then have "sdt_header_load mem (PhysicalPtr (ucast r)) (offset_mapper_map (offset_mapper_new off)) = Ret ?h"
    by (simp add: sdt_header_load_def header_at_def offset_mapper_map_def offset_mapper_new_def add_w_def u del: virtual_read.simps)
  moreover have "physical_add_raw (PhysicalPtr (ucast r)) (of_nat sdt_header_size) = Ret (PhysicalPtr (ucast r + of_nat sdt_header_size))"
    using a(4) by (simp add: add_w_def u sdt_header_size_def)
  moreover have "n * length ps div n = length ps" using a(2) by auto
  ultimately have "rsdt_load mem (PhysicalPtr (ucast r)) (offset_mapper_map (offset_mapper_new off)) =
      Ret \<lparr>rsdt_header = ?h, rsdt_start = PhysicalPtr (ucast r + of_nat sdt_header_size), rsdt_size = n, rsdt_count = length ps\<rparr>"
    using a(1,3) by (simp add: rsdt_load_def sdt_signature_str_def sub_usize_def Let_def a(2) [symmetric])
  then show ?thesis
    by (simp add: rsdp_acip_setup_def rsdp rsdp_load_rsdt_def rsdt_iter_of_def Let_def)
qed

lemma entries_found:
  assumes "acpi_at mem off raw r n ps" and "hw_rsdt hw = Some (rsdt, offset_mapper_new off)"
    and "rsdt_iter_of rsdt = \<lparr>ri_ptr = PhysicalPtr (ucast r + of_nat sdt_header_size), ri_size = of_nat n, ri_left = length ps\<rparr>"
  shows "get_rsdt_entries mem hw = Some (table_entries mem off ps)"
proof -
  have n: "n = (if sdt_signature (header_at mem off (ucast r)) = ascii_bytes ''XSDT'' then 8 else 4)"
      and a: "\<forall>x \<in> set ps. pointer_ok n off x" "bytes_at mem (ucast r + of_nat sdt_header_size + off) (concat (map (pointer_bytes n) ps))"
      "unat r + sdt_header_size + unat off + n * length ps < 2 ^ 64"
    using assms(1) unfolding acpi_at_def Let_def by blast+
  have n: "n = 4 \<or> n = 8" using n by simp
  have "unat (ucast r + of_nat sdt_header_size :: u64) = unat r + sdt_header_size"
    using a(3) by (simp add: unat_word_ariths unat_ucast_up sdt_header_size_def)
  then have "unat (ucast r + of_nat sdt_header_size :: u64) + unat off + n * length ps < 2 ^ 64" using a(3) by simp
  note run = rsdt_map_run [OF n a(1,2) this]
  show ?thesis
    by (simp add: get_rsdt_entries_def assms(2,3) run table_entries_def traverse_map offset_mapper_new_def del: rsdt_map.simps)
qed

lemma memory_setup_run:
  assumes "paging_laws ops frame_start mapped off" and "regions_ok regions"
    and "1024 \<le> length (usable_addresses (frame_allocator_init regions))" and "\<forall>page \<in> set heap_pages. mapped w page = None"
  shows "\<exists>mapper w' frames. memory_setup ops (Some off) regions w = Ret (mapper, w') \<and>
    length frames = 256 \<and> distinct frames \<and>
    (\<forall>f \<in> set frames. \<exists>r \<in> set regions. mr_kind r = Usable \<and>
       unat (mr_start r) \<le> frame_start f \<and> frame_start f < unat (mr_end r)) \<and>
    mapped w' = (mapped w)(map (\<lambda>i. HEAP_START + 4096 * i) [0 ..< 256] [\<mapsto>] frames)"
proof -
  obtain phys w1 where cr3: "bo_read_cr3 ops w = (phys, w1)" by force
  have w1: "mapped w1 = mapped w" and heap: "\<And>a n w. mapped (bo_heap_init ops a n w) = mapped w"
      and off: "bo_virt_addr ops off = Ret off"
    using assms(1) cr3 unfolding paging_laws_def by (metis snd_conv, blast, blast)
  obtain t where t: "bo_virt_add ops off phys = Ret t"
      "mapper_laws (bo_frame_of ops) frame_start (bo_page_table ops t off) mapped" "mapper_total (bo_page_table ops t off) mapped"
    using assms(1) cr3 unfolding paging_laws_def by (metis fst_conv)
  let ?fa = "frame_allocator_init regions"
  have fa: "fa_memory_map ?fa = regions" "fa_next ?fa = 0" by (simp_all add: frame_allocator_init_def)
  have "\<forall>page \<in> set heap_pages. mapped w1 page = None" using assms(4) w1 by simp
  from init_heap_total [OF t(2,3) this assms(3) fa(2)] obtain fa' w' where
    run: "init_heap (bo_frame_of ops) (bo_page_table ops t off) (bo_heap_init ops) ?fa w1 = Ret (Inr (), fa', w')" by blast
  have "memory_setup ops (Some off) regions w = Ret (bo_page_table ops t off, w')"
    by (simp add: memory_setup_def off memory_init_def active_level_4_table_def cr3 t(1) run Let_def)
  with init_heap_frames [OF t(2) _ heap run] assms(2) show ?thesis unfolding fa(1) w1 by blast
qed

text \<open>The parts of the initialisation put together.\<close>

lemma hardware_init_parts:
  assumes "basic_init iops (intr_boot w) = Ret st"
    and "rsdp_acip_setup (bo_ram ops (is_world st)) (bi_rsdp_addr bi) (bi_physical_memory_offset bi) = Ret rsdt"
    and "memory_setup ops (bi_physical_memory_offset bi) (bi_memory_regions bi) (is_world st) = Ret (mapper, w1)"
  obtains hw m where "hardware_init iops pops ops bi (machine_boot w) = Ret (hw, m)" and "hardware_try_get m = Some hw"
    and "hw_rsdt hw = rsdt" and "hw_memory_offset hw = bi_physical_memory_offset bi" and "hw_devices hw = []"
    and "kiss_inv (hw_rng hw)" and "mc_intr m = st\<lparr>is_world := snd (setup_pci pops (bi_physical_memory_offset bi) w1)\<rparr>"
proof -
  obtain rng where rng: "kiss_new 239812446 1837621879 512893 123873267123 = Some rng" "kiss_inv rng"
    by (simp add: kiss_new_def kiss_inv_def)
  obtain w2 where pci: "setup_pci pops (bi_physical_memory_offset bi) w1 = ([], w2)"
    using setup_pci_empty [of pops "bi_physical_memory_offset bi" w1] by (metis prod.collapse)
  let ?hw = "\<lparr>hw_rsdt = rsdt, hw_memory_offset = bi_physical_memory_offset bi, hw_devices = [], hw_rng = rng\<rparr>"
  let ?m = "\<lparr>mc_intr = st\<lparr>is_world := w2\<rparr>, mc_video = hardware_video_init (bi_framebuffer bi) \<lparr>vid_info = None, vid_buffer = None\<rparr>,
    mc_memory_mapping = Some mapper, mc_kernel_instance = Some ?hw\<rparr>"
  have "hardware_init iops pops ops bi (machine_boot w) = Ret (?hw, ?m)"
    by (simp add: hardware_init_def machine_boot_def assms pci rng(1) Let_def)
  then show ?thesis by (rule that) (simp_all add: hardware_try_get_def rng(2) pci)
qed

text \<open>A machine with one card on the bus, seven megabytes of memory and one table besides the table of tables.\<close>

type_synonym boot_world = "(u8 \<times> u8) \<times> pci_world \<times> (nat \<rightharpoonup> nat)"

definition boot_idt :: "('h, nat \<Rightarrow> 'h handler option, boot_world) idt_ops" where
  "boot_idt = table_idt_ops fst (\<lambda>m w. (m, snd w))"

definition boot_ports :: "boot_world port_ops" where
  "boot_ports = \<lparr>port_write = (\<lambda>p v (m, c, t). (m, port_write table_ops p v c, t)),
     port_read = (\<lambda>p (m, c, t). (fst (port_read table_ops p c), m, snd (port_read table_ops p c), t))\<rparr>"

definition boot_tables :: bytes where
  "boot_tables = replicate 16 0 @ le_bytes 4 (20 :: u32) @
     (ascii_bytes ''RSDT'' @ le_bytes 4 (40 :: u32) @ replicate 28 0) @ le_bytes 4 (60 :: u32) @
     (ascii_bytes ''HPET'' @ le_bytes 4 (36 :: u32) @ replicate 28 0)"

definition boot_paging :: "(nat, unit, boot_world) boot_ops" where
  "boot_paging = \<lparr>bo_ram = (\<lambda>_ a. boot_tables ! unat (a - 0x100000)), bo_virt_addr = Ret, bo_virt_add = add_w,
     bo_read_cr3 = (\<lambda>w. (0x1000, w)), bo_page_table = (\<lambda>_ _ page frame fa (m, c, t). (Inr (), fa, m, c, t(page \<mapsto> frame))),
     bo_frame_of = id, bo_heap_init = (\<lambda>_ _ w. w)\<rparr>"

definition boot_record :: boot_info where
  "boot_record = \<lparr>bi_rsdp_addr = Some 0, bi_physical_memory_offset = Some 0x100000, bi_framebuffer = None,
     bi_memory_regions = [\<lparr>mr_start = 0x100000, mr_end = 0x800000, mr_kind = Usable\<rparr>]\<rparr>"

lemma boot_idt_laws: "idt_laws boot_idt (\<lambda>t. t) fst"
  unfolding boot_idt_def by (rule table_idt_ops_laws) simp

lemma boot_ports_keep: "boot_keeps boot_idt boot_ports (\<lambda>(m, c, t). t)"
  by (simp add: boot_keeps_def boot_idt_def table_idt_ops_keep boot_ports_def split_def)

lemma boot_paging_laws: "paging_laws boot_paging id (\<lambda>(m, c, t). t) 0x100000"
  by (auto simp: paging_laws_def boot_paging_def add_w_def mapper_laws_def mapper_total_def split_def)

lemma boot_tables_at: "acpi_at (bo_ram boot_paging w) 0x100000 0 20 4 [60]"
proof -
  let ?mem = "bo_ram boot_paging w"
  let ?h = "ascii_bytes ''RSDT'' @ le_bytes 4 (40 :: u32) @ replicate 28 (0 :: u8)"
  have "bytes_at ?mem 0x100000 boot_tables"
    unfolding bytes_at_def by (rule nth_equalityI) (auto simp: boot_paging_def boot_tables_def ascii_bytes_def unat_of_nat)
  then have at: "bytes_at ?mem 0x100010 (le_bytes 4 (20 :: u32))"
      "bytes_at ?mem 0x100014 (?h @ le_bytes 4 (60 :: u32) @ ascii_bytes ''HPET'' @ le_bytes 4 (36 :: u32) @ replicate 28 0)"
    by (simp_all add: boot_tables_def bytes_at_append ascii_bytes_def)
  have "length ?h = 36" by (simp add: ascii_bytes_def)
  with at(2) have at3: "bytes_at ?mem 0x100038 (le_bytes 4 (60 :: u32))" unfolding bytes_at_append by simp
  have "header_at ?mem 0x100000 20 = sdt_decode ?h"
    using virtual_read_prefix [OF at(2), of 36] by (simp add: header_at_def sdt_header_size_def ascii_bytes_def del: virtual_read.simps)
  moreover have "sdt_signature (sdt_decode ?h) = ascii_bytes ''RSDT''" "sdt_length (sdt_decode ?h) = 40"
    by (simp_all add: sdt_decode_def ascii_bytes_def le_at_def)
  moreover have "utf8_valid (ascii_bytes ''RSDT'')" "ascii_bytes ''RSDT'' \<noteq> ascii_bytes ''XSDT''" by (simp_all add: ascii_bytes_def)
  ultimately show ?thesis
    using at(1) at3 by (simp add: acpi_at_def sdt_header_size_def pointer_ok_def pointer_bytes_def Let_def)
qed

section \<open>Properties\<close>

text \<open>
  C8: on a machine whose page tables are set up as documented, with at least 1024 usable frames and the tables of the
  firmware in memory, the initialisation returns: interrupts are enabled on a loaded descriptor table, the heap's
  pages have 256 different usable frames and nothing else is mapped, the instance is the one later callers get, its
  list of devices is empty whatever is on the bus, and its table entries are those of exactly the tables the
  firmware lists.
\<close>

theorem hardware_ready:
  assumes "idt_laws iops vec masks" and "boot_keeps iops pops mapped" and "paging_laws ops frame_start mapped off"
    and "bi_physical_memory_offset bi = Some off" and "bi_rsdp_addr bi = Some raw"
    and "\<forall>w. acpi_at (bo_ram ops w) off raw r n ps" and "regions_ok (bi_memory_regions bi)"
    and "1024 \<le> length (usable_addresses (frame_allocator_init (bi_memory_regions bi)))"
    and "\<forall>page \<in> set heap_pages. mapped w page = None"
  shows "\<exists>hw m frames. hardware_init iops pops ops bi (machine_boot w) = Ret (hw, m) \<and>
    hardware_try_get m = Some hw \<and> hw_memory_offset hw = Some off \<and> hw_devices hw = [] \<and> kiss_inv (hw_rng hw) \<and>
    is_enabled (mc_intr m) \<and> intr_inv (mc_intr m) \<and>
    get_rsdt_entries (bo_ram ops (is_world (mc_intr m))) hw =
      Some (table_entries (bo_ram ops (is_world (mc_intr m))) off ps) \<and>
    length frames = 256 \<and> distinct frames \<and>
    (\<forall>f \<in> set frames. \<exists>r \<in> set (bi_memory_regions bi). mr_kind r = Usable \<and>
       unat (mr_start r) \<le> frame_start f \<and> frame_start f < unat (mr_end r)) \<and>
    mapped (is_world (mc_intr m)) = (mapped w)(map (\<lambda>i. HEAP_START + 4096 * i) [0 ..< 256] [\<mapsto>] frames)"
proof -
  obtain st where st: "basic_init iops (intr_boot w) = Ret st" "is_enabled st" "intr_inv st" "mapped (is_world st) = mapped w"
    using basic_init_run [OF assms(1,2)] by blast
  obtain rsdt where rsdt: "rsdp_acip_setup (bo_ram ops (is_world st)) (Some raw) (Some off) = Ret (Some (rsdt, offset_mapper_new off))"
      "rsdt_iter_of rsdt = \<lparr>ri_ptr = PhysicalPtr (ucast r + of_nat sdt_header_size), ri_size = of_nat n, ri_left = length ps\<rparr>"
    using rsdp_acip_setup_found assms(6) by blast
  have "\<forall>page \<in> set heap_pages. mapped (is_world st) page = None" using assms(9) st(4) by simp
  from memory_setup_run [OF assms(3,7,8) this] obtain mapper w1 frames where
    mem: "memory_setup ops (Some off) (bi_memory_regions bi) (is_world st) = Ret (mapper, w1)"
      and fr: "length frames = 256" "distinct frames"
        "\<forall>f \<in> set frames. \<exists>r \<in> set (bi_memory_regions bi). mr_kind r = Usable \<and>
           unat (mr_start r) \<le> frame_start f \<and> frame_start f < unat (mr_end r)"
        "mapped w1 = (mapped w)(map (\<lambda>i. HEAP_START + 4096 * i) [0 ..< 256] [\<mapsto>] frames)"
    unfolding st(4) by blast
  obtain hw m where
    run: "hardware_init iops pops ops bi (machine_boot w) = Ret (hw, m)" "hardware_try_get m = Some hw"
      "hw_rsdt hw = Some (rsdt, offset_mapper_new off)" "hw_memory_offset hw = Some off" "hw_devices hw = []" "kiss_inv (hw_rng hw)"
      and m: "mc_intr m = st\<lparr>is_world := snd (setup_pci pops (Some off) w1)\<rparr>"
    using hardware_init_parts [OF st(1) rsdt(1) [folded assms(4,5)] mem [folded assms(4)], of pops] by (metis assms(4))
  have "get_rsdt_entries (bo_ram ops (is_world (mc_intr m))) hw = Some (table_entries (bo_ram ops (is_world (mc_intr m))) off ps)"
    using entries_found [OF spec [OF assms(6)] run(3) rsdt(2)] .
  moreover have "intr_inv (mc_intr m)" "is_enabled (mc_intr m)" using st(2,3) by (simp_all add: intr_inv_def m)
  moreover have "mapped (is_world (mc_intr m)) = (mapped w)(map (\<lambda>i. HEAP_START + 4096 * i) [0 ..< 256] [\<mapsto>] frames)"
    by (simp add: m setup_pci_keeps [OF assms(2)] fr(4))
  ultimately show ?thesis using run fr(1-3) by blast
qed

theorem hardware_ready_witness:
  "\<exists>hw m f. hardware_init (boot_idt :: (unit, nat \<Rightarrow> unit handler option, boot_world) idt_ops) boot_ports boot_paging boot_record (machine_boot ((0xff, 0xff), (0, one_card), Map.empty)) = Ret (hw, m) \<and>
     hw_devices hw = [] \<and> get_rsdt_entries (bo_ram boot_paging (is_world (mc_intr m))) hw =
       Some (table_entries (bo_ram boot_paging (is_world (mc_intr m))) 0x100000 [60]) \<and>
     snd (snd (is_world (mc_intr m))) HEAP_START = Some f \<and> 0x100000 \<le> f \<and> f < 0x800000"
proof -
  let ?w = "((0xff, 0xff), (0, one_card), Map.empty) :: boot_world"
  have rs: "bi_physical_memory_offset boot_record = Some 0x100000" "bi_rsdp_addr boot_record = Some 0"
      "regions_ok (bi_memory_regions boot_record)" "\<forall>w. acpi_at (bo_ram boot_paging w) 0x100000 0 20 4 [60]"
      "1024 \<le> length (usable_addresses (frame_allocator_init (bi_memory_regions boot_record)))"
    by (simp_all add: boot_record_def boot_tables_at regions_ok_def usable_addresses_def frame_allocator_init_def addr_steps_eq)
  from hardware_ready [OF boot_idt_laws boot_ports_keep boot_paging_laws rs(1,2,4,3,5), of ?w] obtain hw m frames where
    run: "hardware_init (boot_idt :: (unit, nat \<Rightarrow> unit handler option, boot_world) idt_ops) boot_ports boot_paging boot_record
        (machine_boot ?w) = Ret (hw, m)" "hw_devices hw = []"
      "get_rsdt_entries (bo_ram boot_paging (is_world (mc_intr m))) hw =
        Some (table_entries (bo_ram boot_paging (is_world (mc_intr m))) 0x100000 [60])"
      and fr: "length frames = 256" "\<forall>f \<in> set frames. \<exists>r \<in> set (bi_memory_regions boot_record). mr_kind r = Usable \<and>
          unat (mr_start r) \<le> id f \<and> id f < unat (mr_end r)"
        "snd (snd (is_world (mc_intr m))) = Map.empty(map (\<lambda>i. HEAP_START + 4096 * i) [0 ..< 256] [\<mapsto>] frames)"
    by (auto simp: split_def)
  have "snd (snd (is_world (mc_intr m))) HEAP_START = Some (frames ! 0)"
    unfolding fr(3) by (rule heap_first_page) (use fr(1) in simp_all)
  moreover have "0x100000 \<le> frames ! 0 \<and> frames ! 0 < 0x800000"
    using fr(1) bspec [OF fr(2), of "frames ! 0"] by (simp add: boot_record_def)
  ultimately show ?thesis using run by blast
qed

end
