(* ===== verification/Logging.thy ===== *)
theory Logging
  imports Rust_Prelude
begin

text \<open>
  \<^verbatim>\<open>extensions/logging.rs\<close> and \<^verbatim>\<open>extensions/logging/level.rs\<close>: the levels and their order, the
  subscriber that turns tracing events into messages, and the task that prints them with the name of
  the span they occur in.

  The queue between the two comes from \<^verbatim>\<open>nolock\<close>: its \<open>enqueue\<close> is a parameter on a world \<open>'w\<close>.
  The crate \<^verbatim>\<open>tracing\<close> calls the subscriber; of a span it gives the name, of an event the level and
  the fields with their debug texts.
\<close>

section \<open>Levels\<close>

datatype log_level = Debug | Trace | Info | Warn | Error

datatype cmp_ordering = Ord_Less | Ord_Equal | Ord_Greater

definition level_partial_cmp :: "log_level \<Rightarrow> log_level \<Rightarrow> cmp_ordering option" where
  "level_partial_cmp s t =
     (if s = t then Some Ord_Equal
      else
        (case (s, t) of
           (Trace, _) \<Rightarrow> Some Ord_Less
         | (Debug, Trace) \<Rightarrow> Some Ord_Greater
         | (Debug, _) \<Rightarrow> Some Ord_Less
         | (Info, Trace) \<Rightarrow> Some Ord_Greater
         | (Info, Debug) \<Rightarrow> Some Ord_Greater
         | (Info, _) \<Rightarrow> Some Ord_Less
         | (Warn, Trace) \<Rightarrow> Some Ord_Greater
         | (Warn, Debug) \<Rightarrow> Some Ord_Greater
         | (Warn, Info) \<Rightarrow> Some Ord_Greater
         | (Warn, _) \<Rightarrow> Some Ord_Less
         | (Error, Trace) \<Rightarrow> Some Ord_Greater
         | (Error, Debug) \<Rightarrow> Some Ord_Greater
         | (Error, Info) \<Rightarrow> Some Ord_Greater
         | (Error, Warn) \<Rightarrow> Some Ord_Greater
         | (Error, _) \<Rightarrow> Some Ord_Less))"

text \<open>The operator \<^verbatim>\<open>>=\<close> of a \<^verbatim>\<open>PartialOrd\<close>.\<close>

definition level_ge :: "log_level \<Rightarrow> log_level \<Rightarrow> bool" where
  "level_ge s t \<longleftrightarrow> level_partial_cmp s t \<in> {Some Ord_Greater, Some Ord_Equal}"

datatype tracing_level = T_DEBUG | T_TRACE | T_INFO | T_WARN | T_ERROR

fun level_from :: "tracing_level \<Rightarrow> log_level" where
  "level_from T_DEBUG = Debug"
| "level_from T_TRACE = Trace"
| "level_from T_INFO = Info"
| "level_from T_WARN = Warn"
| "level_from T_ERROR = Error"

fun level_display :: "log_level \<Rightarrow> string" where
  "level_display Debug = ''D''"
| "level_display Trace = ''T''"
| "level_display Info = ''I''"
| "level_display Warn = ''W''"
| "level_display Error = ''E''"

text \<open>The levels in the order of their severity.\<close>

fun level_rank :: "log_level \<Rightarrow> nat" where
  "level_rank Trace = 0"
| "level_rank Debug = 1"
| "level_rank Info = 2"
| "level_rank Warn = 3"
| "level_rank Error = 4"

lemma level_rank_inject [simp]: "level_rank s = level_rank t \<longleftrightarrow> s = t"
  by (cases s; cases t) simp_all

instantiation log_level :: linorder
begin

definition less_eq_log_level :: "log_level \<Rightarrow> log_level \<Rightarrow> bool" where
  "less_eq_log_level s t \<longleftrightarrow> level_rank s \<le> level_rank t"

definition less_log_level :: "log_level \<Rightarrow> log_level \<Rightarrow> bool" where
  "less_log_level s t \<longleftrightarrow> level_rank s < level_rank t"

instance
  by standard (auto simp: less_eq_log_level_def less_log_level_def)

end

lemma level_partial_cmp_linear:
  "level_partial_cmp s t = Some (if s < t then Ord_Less else if s = t then Ord_Equal else Ord_Greater)"
  by (cases s; cases t) (simp_all add: level_partial_cmp_def less_log_level_def)

lemma level_ge_linear: "level_ge s t \<longleftrightarrow> t \<le> s"
  by (auto simp: level_ge_def level_partial_cmp_linear)

section \<open>The subscriber\<close>

datatype subscriber_message =
    NewSpan (sm_id: u64) (sm_name: string)
  | Enter u64
  | Exit u64
  | Event (sm_content: string) (sm_level: log_level)

record serial_subscriber =
  ss_id_counter :: u64
  ss_level :: log_level

type_synonym 'w log_queue = "subscriber_message \<Rightarrow> 'w \<Rightarrow> unit option \<times> 'w"

definition subscriber_enabled :: "serial_subscriber \<Rightarrow> tracing_level \<Rightarrow> bool" where
  "subscriber_enabled sub metadata_level \<longleftrightarrow> level_ge (level_from metadata_level) (ss_level sub)"

definition log_enqueue :: "'w log_queue \<Rightarrow> subscriber_message \<Rightarrow> 'w \<Rightarrow> 'w exec" where
  "log_enqueue enq m w = (case enq m w of (r, w) \<Rightarrow> xbind (unwrap r) (\<lambda>_. Ret w))"

text \<open>\<^verbatim>\<open>fetch_add\<close> wraps; \<^verbatim>\<open>Id::from_u64\<close> does not accept 0.\<close>

definition subscriber_new_span ::
  "'w log_queue \<Rightarrow> serial_subscriber \<Rightarrow> string \<Rightarrow> 'w \<Rightarrow> (u64 \<times> serial_subscriber \<times> 'w) exec" where
  "subscriber_new_span enq sub name w =
     (let span_id = ss_id_counter sub; sub = sub\<lparr>ss_id_counter := span_id + 1\<rparr> in
      if span_id = 0 then Panic ExplicitPanic
      else xbind (log_enqueue enq (NewSpan span_id name) w) (\<lambda>w. Ret (span_id, sub, w)))"

text \<open>The visitor appends the debug text of each field named \<^verbatim>\<open>message\<close>.\<close>

definition record_debug :: "string \<Rightarrow> string \<times> string \<Rightarrow> string" where
  "record_debug content f = (if fst f = ''message'' then content @ snd f else content)"

definition subscriber_event ::
  "'w log_queue \<Rightarrow> (string \<times> string) list \<Rightarrow> tracing_level \<Rightarrow> 'w \<Rightarrow> 'w exec" where
  "subscriber_event enq values metadata_level w =
     (let content = foldl record_debug [] values
      in log_enqueue enq (Event content (level_from metadata_level)) w)"

definition subscriber_enter :: "'w log_queue \<Rightarrow> u64 \<Rightarrow> 'w \<Rightarrow> 'w exec" where
  "subscriber_enter enq span w = log_enqueue enq (Enter span) w"

definition subscriber_exit :: "'w log_queue \<Rightarrow> u64 \<Rightarrow> 'w \<Rightarrow> 'w exec" where
  "subscriber_exit enq span w = log_enqueue enq (Exit span) w"

definition serial_new :: "log_level \<Rightarrow> serial_subscriber" where
  "serial_new level = \<lparr>ss_id_counter = 1, ss_level = level\<rparr>"

section \<open>The logger task\<close>

record logger_state =
  lg_span_names :: "u64 \<rightharpoonup> string"
  lg_current_name :: "string list"
  lg_printed :: "(log_level \<times> string \<times> string) list"

definition logger_start :: logger_state where
  "logger_start = \<lparr>lg_span_names = Map.empty, lg_current_name = [], lg_printed = []\<rparr>"

text \<open>One entry of the queue; a printed line is its level, span name and content.\<close>

fun logger_step :: "subscriber_message \<Rightarrow> logger_state \<Rightarrow> logger_state" where
  "logger_step (NewSpan i name) st = st\<lparr>lg_span_names := (lg_span_names st)(i \<mapsto> name)\<rparr>"
| "logger_step (Enter i) st =
     (case lg_span_names st i of
        Some name \<Rightarrow> st\<lparr>lg_current_name := lg_current_name st @ [name]\<rparr>
      | None \<Rightarrow> st)"
| "logger_step (Exit i) st =
     (case lg_span_names st i of
        None \<Rightarrow> st
      | Some exit_name \<Rightarrow>
          if lg_current_name st \<noteq> [] \<and> last (lg_current_name st) = exit_name
          then st\<lparr>lg_current_name := butlast (lg_current_name st)\<rparr> else st)"
| "logger_step (Event content level) st =
     (let name = (if lg_current_name st = [] then [] else last (lg_current_name st))
      in st\<lparr>lg_printed := lg_printed st @ [(level, name, content)]\<rparr>)"

definition logger_line :: "log_level \<times> string \<times> string \<Rightarrow> string" where
  "logger_line l = ''['' @ level_display (fst l) @ ''][''  @ fst (snd l) @ ''] '' @ snd (snd l)"

text \<open>
  The loop of the task over the results of \<^verbatim>\<open>dequeue\<close>, one after the other: an error of the queue is
  skipped.
\<close>

fun logger :: "subscriber_message option list \<Rightarrow> logger_state \<Rightarrow> logger_state" where
  "logger [] st = st"
| "logger (None # rs) st = logger rs st"
| "logger (Some entry # rs) st = logger rs (logger_step entry st)"

lemma logger_fold: "logger rs st = fold logger_step (List.map_filter id rs) st"
  by (induction rs st rule: logger.induct) (simp_all add: List.map_filter_simps)

section \<open>The extension\<close>

record log_extension =
  le_level :: log_level

definition log_extension_new :: "log_level \<Rightarrow> log_extension" where
  "log_extension_new level = \<lparr>le_level = level\<rparr>"

text \<open>
  \<^verbatim>\<open>set_global_default\<close> of \<^verbatim>\<open>tracing\<close> is a parameter: it fails when a subscriber has been set before. The
  task returned starts as \<open>logger_start\<close>.
\<close>

definition log_extension_setup ::
  "(serial_subscriber \<Rightarrow> 'w \<Rightarrow> unit option \<times> 'w) \<Rightarrow> log_extension \<Rightarrow> 'w \<Rightarrow> (logger_state \<times> 'w) exec" where
  "log_extension_setup set_global_default self w =
     (let sub = serial_new (le_level self) in
      case set_global_default sub w of (r, w) \<Rightarrow> xbind (unwrap r) (\<lambda>_. Ret (logger_start, w)))"

section \<open>Well-nested logs\<close>

text \<open>Events and spans as a program produces them: what is entered is left again.\<close>

datatype span_tree = Ev string log_level | Sp u64 "span_tree list"

fun tree_msgs :: "span_tree \<Rightarrow> subscriber_message list" where
  "tree_msgs (Ev content level) = [Event content level]"
| "tree_msgs (Sp i ts) = Enter i # concat (map tree_msgs ts) @ [Exit i]"

text \<open>The lines to be printed, each with the name of the innermost span around it.\<close>

fun tree_lines :: "(u64 \<rightharpoonup> string) \<Rightarrow> string \<Rightarrow> span_tree \<Rightarrow> (log_level \<times> string \<times> string) list" where
  "tree_lines names outer (Ev content level) = [(level, outer, content)]"
| "tree_lines names outer (Sp i ts) = concat (map (tree_lines names (the (names i))) ts)"

fun tree_named :: "(u64 \<rightharpoonup> string) \<Rightarrow> span_tree \<Rightarrow> bool" where
  "tree_named names (Ev content level) = True"
| "tree_named names (Sp i ts) = (names i \<noteq> None \<and> list_all (tree_named names) ts)"

definition innermost :: "string list \<Rightarrow> string" where
  "innermost names = (if names = [] then [] else last names)"

definition prints :: "(log_level \<times> string \<times> string) list \<Rightarrow> logger_state \<Rightarrow> logger_state" where
  "prints ls st = st\<lparr>lg_printed := lg_printed st @ ls\<rparr>"

lemma prints_prints [simp]: "prints ls (prints ks st) = prints (ks @ ls) st" "prints [] st = st"
  by (simp_all add: prints_def)

lemma prints_sel [simp]:
  "lg_span_names (prints ls st) = lg_span_names st" "lg_current_name (prints ls st) = lg_current_name st"
  by (simp_all add: prints_def)

lemma logger_list:
  assumes "\<And>t st. t \<in> set ts \<Longrightarrow> lg_span_names st = names \<Longrightarrow>
      fold logger_step (tree_msgs t) st = prints (tree_lines names (innermost (lg_current_name st)) t) st"
    and "lg_span_names st = names"
  shows "fold logger_step (concat (map tree_msgs ts)) st =
    prints (concat (map (tree_lines names (innermost (lg_current_name st))) ts)) st"
  using assms by (induction ts arbitrary: st) simp_all

lemma logger_tree:
  "tree_named names t \<Longrightarrow> lg_span_names st = names \<Longrightarrow>
    fold logger_step (tree_msgs t) st = prints (tree_lines names (innermost (lg_current_name st)) t) st"
proof (induction t arbitrary: st)
  case (Ev content level)
  then show ?case by (simp add: prints_def innermost_def Let_def)
next
  case (Sp i ts)
  obtain name where name: "names i = Some name" using Sp.prems(1) by auto
  let ?st = "st\<lparr>lg_current_name := lg_current_name st @ [name]\<rparr>"
  have "fold logger_step (concat (map tree_msgs ts)) ?st =
      prints (concat (map (tree_lines names (innermost (lg_current_name ?st))) ts)) ?st"
    using Sp by (intro logger_list) (auto simp: list_all_iff)
  then show ?case using Sp.prems(2) name by (simp add: innermost_def prints_def)
qed

section \<open>Properties\<close>

text \<open>
  C40: a message is let through exactly when its level is at least the configured one, in the order trace,
  debug, info, warn, error; and a well-nested log with named spans is printed with every event under the
  name of its innermost span, leaving the stack of spans as it was.
\<close>

theorem logger_nested:
  assumes "tree_named (lg_span_names st) t"
  shows "(subscriber_enabled sub l \<longleftrightarrow> level_rank (ss_level sub) \<le> level_rank (level_from l)) \<and>
    logger (map Some (tree_msgs t)) st =
      st\<lparr>lg_printed := lg_printed st @ tree_lines (lg_span_names st) (innermost (lg_current_name st)) t\<rparr>"
  using logger_tree [OF assms refl]
  by (simp add: subscriber_enabled_def level_ge_linear less_eq_log_level_def prints_def logger_fold List.map_filter_def comp_def)

theorem logger_nested_witness:
  "lg_printed (logger (map Some (tree_msgs (Sp 1 [Ev ''a'' Info, Sp 2 [Ev ''b'' Warn], Ev ''c'' Debug])))
     (logger_start\<lparr>lg_span_names := [1 \<mapsto> ''outer'', 2 \<mapsto> ''inner'']\<rparr>)) =
   [(Info, ''outer'', ''a''), (Warn, ''inner'', ''b''), (Debug, ''outer'', ''c'')]"
proof -
  have named: "tree_named (lg_span_names (logger_start\<lparr>lg_span_names := [1 \<mapsto> ''outer'', 2 \<mapsto> ''inner'']\<rparr>))
      (Sp 1 [Ev ''a'' Info, Sp 2 [Ev ''b'' Warn], Ev ''c'' Debug])"
    by simp
  show ?thesis
    using logger_nested [OF named, THEN conjunct2] by (simp only:) (simp add: logger_start_def)
qed

end
