(* ===== verification/Kernel_Main.thy ===== *)
theory Kernel_Main
  imports Hardware Kernel_Exec Logging Net_Setup
begin

text \<open>
  \<^verbatim>\<open>kernel_main\<close> of \<^verbatim>\<open>main.rs\<close>: the machine is initialised, the extensions are added to the executor, the
  tables of the firmware are printed and the run loop starts with three tasks; and the two tasks written in
  the same file, \<^verbatim>\<open>ping\<close> and \<^verbatim>\<open>tetris\<close>.

  The world of the executor is a pair: the queues and the logging framework, which are parameters on \<open>'q\<close>, and the
  rest of the kernel's state, \<open>system\<close>.
\<close>

section \<open>State\<close>

datatype console_line = Line_Apic | Line_Fadt | Line_Hpet | Line_Waet | Line_Unknown bytes

record ('f, 'e, 't, 'w) system =
  sys_machine :: "('f, 'e, 't, 'w) machine"
  sys_net :: "'w net_statics"
  sys_printed :: "console_line list"

definition net_statics_boot :: "'w net_statics" where
  "net_statics_boot = \<lparr>ns_int_devices = None, ns_device_queues = None, ns_handle_queue = False, ns_ips = None\<rparr>"

text \<open>The operations of the executor's queues, on the pair.\<close>

definition paired_ops :: "('f, 'q) kern_ops \<Rightarrow> ('f, 'q \<times> 's) kern_ops" where
  "paired_ops ops =
     \<lparr>run_enqueue = (\<lambda>tid (q, s). apsnd (\<lambda>q. (q, s)) (run_enqueue ops tid q)),
      run_dequeue = (\<lambda>(q, s). apsnd (\<lambda>q. (q, s)) (run_dequeue ops q)),
      add_enqueue = (\<lambda>t (q, s). apsnd (\<lambda>q. (q, s)) (add_enqueue ops t q)),
      add_try_dequeue = (\<lambda>(q, s). apsnd (\<lambda>q. (q, s)) (add_try_dequeue ops q))\<rparr>"

section \<open>The ping task\<close>

text \<open>
  The states of the compiled \<^verbatim>\<open>async fn\<close>: before its first poll, waiting for the address, for the reply, and for
  \<^verbatim>\<open>yield_now\<close>. The receiving end of the answer queue and \<^verbatim>\<open>yield_now\<close> are parameters: \<open>pt_arp_poll\<close> gives no result
  while the queue is empty, and then the answer or, on a closed queue, none.
\<close>

datatype 'y ping_task =
    Ping_Start ip4
  | Ping_Mac ip4 nat
  | Ping_Reply ip4 mac ping_future
  | Ping_Yield ip4 mac 'y

record ('y, 'w) ping_ops =
  pt_arp_poll :: "nat \<Rightarrow> nat \<Rightarrow> 'w \<Rightarrow> mac option option \<times> 'w"
  pt_yield_new :: 'y
  pt_yield_poll :: "nat \<Rightarrow> 'y \<Rightarrow> 'w \<Rightarrow> bool \<times> 'y \<times> 'w"

text \<open>From one await point to the next; the flag says whether the task goes on.\<close>

fun ping_step ::
  "'w net_ops \<Rightarrow> ('y, 'w) ping_ops \<Rightarrow> bool \<Rightarrow> nat \<Rightarrow> 'y ping_task \<Rightarrow> 'w handler_state \<Rightarrow>
     (bool \<times> 'y ping_task \<times> 'w handler_state) exec" where
  "ping_step ops pt ready waker (Ping_Start target_ip) st =
     xbind (get_mac ops ready target_ip (hs_world st)) (\<lambda>(queue, w).
     xbind (unwrap queue) (\<lambda>queue. Ret (True, Ping_Mac target_ip queue, st\<lparr>hs_world := w\<rparr>)))"
| "ping_step ops pt ready waker (Ping_Mac target_ip queue) st =
     (case pt_arp_poll pt queue waker (hs_world st) of
        (None, w) \<Rightarrow> Ret (False, Ping_Mac target_ip queue, st\<lparr>hs_world := w\<rparr>)
      | (Some answer, w) \<Rightarrow>
          xbind (unwrap answer) (\<lambda>mac.
          case raw_ping target_ip mac (st\<lparr>hs_world := w\<rparr>) of (fut, st) \<Rightarrow> Ret (True, Ping_Reply target_ip mac fut, st)))"
| "ping_step ops pt ready waker (Ping_Reply target_ip mac fut) st =
     xbind (ping_future_poll ops ready waker fut st) (\<lambda>(r, fut, st).
     case r of
       Ping_Pending \<Rightarrow> Ret (False, Ping_Reply target_ip mac fut, st)
     | Ping_Ready \<Rightarrow> Ret (True, Ping_Yield target_ip mac (pt_yield_new pt), st))"
| "ping_step ops pt ready waker (Ping_Yield target_ip mac y) st =
     (case pt_yield_poll pt waker y (hs_world st) of
        (False, y, w) \<Rightarrow> Ret (False, Ping_Yield target_ip mac y, st\<lparr>hs_world := w\<rparr>)
      | (True, y, w) \<Rightarrow>
          (case raw_ping target_ip mac (st\<lparr>hs_world := w\<rparr>) of (fut, st) \<Rightarrow> Ret (True, Ping_Reply target_ip mac fut, st)))"

partial_function (option) ping_task_poll ::
  "'w net_ops \<Rightarrow> ('y, 'w) ping_ops \<Rightarrow> bool \<Rightarrow> nat \<Rightarrow> 'y ping_task \<Rightarrow> 'w handler_state \<Rightarrow>
     ('y ping_task \<times> 'w handler_state) exec option" where
  "ping_task_poll ops pt ready waker task st =
     (case ping_step ops pt ready waker task st of
        Panic p \<Rightarrow> Some (Panic p)
      | Ret r \<Rightarrow> if fst r then ping_task_poll ops pt ready waker (fst (snd r)) (snd (snd r)) else Some (Ret (snd r)))"

section \<open>The tetris task\<close>

text \<open>The five rows drawn between two waits, and the values for the next time.\<close>

definition tetris_step :: "nat \<Rightarrow> u8 \<Rightarrow> video_statics \<Rightarrow> (nat \<times> u8 \<times> video_statics) exec" where
  "tetris_step y color st =
     xbind (add_usize y 5) (\<lambda>y_end.
     let pixels = concat (map (\<lambda>y_pos. map (\<lambda>x. (x, y_pos)) [0 ..< 100]) [y ..< y_end]) in
     xbind (fold (\<lambda>(x, y_pos) r. xbind r (video_draw x y_pos \<lparr>px_red = color, px_green = color, px_blue = color\<rparr>)) pixels (Ret st)) (\<lambda>st.
     Ret (y_end, color + 2, st)))"

section \<open>The main function\<close>

datatype ('w, 'y) kernel_task =
    Task_Logger logger_state
  | Task_Network "'w net_future"
  | Task_Ping "'y ping_task"

definition log_ext_setup ::
  "(serial_subscriber \<Rightarrow> 'q \<Rightarrow> unit option \<times> 'q) \<Rightarrow> log_extension \<Rightarrow> 'q \<times> 's \<Rightarrow>
     (('w, 'y) kernel_task \<times> 'q \<times> 's) exec option" where
  "log_ext_setup set_global_default self qs =
     (case qs of (q, s) \<Rightarrow>
        lift_x (xbind (log_extension_setup set_global_default self q) (\<lambda>(lg, q). Ret (Task_Logger lg, q, s))))"

definition net_ext_setup ::
  "'w port_ops \<Rightarrow> 'w card_ops \<Rightarrow> (driver_entry, 't, 'w) idt_ops \<Rightarrow> 'w hardware \<Rightarrow> 'q \<times> ('f, 'e, 't, 'w) system \<Rightarrow>
     (('w, 'y) kernel_task \<times> 'q \<times> ('f, 'e, 't, 'w) system) exec option" where
  "net_ext_setup pops cops iops hw qs =
     (case qs of (q, s) \<Rightarrow>
        lbind (network_setup pops cops iops (hw_memory_offset hw) (sys_net s) (mc_intr (sys_machine s))) (\<lambda>(fut, ns, st).
        lift_x (Ret (Task_Network fut, q, s\<lparr>sys_net := ns, sys_machine := (sys_machine s)\<lparr>mc_intr := st\<rparr>\<rparr>))))"

fun entry_line :: "acip_entry \<Rightarrow> console_line exec" where
  "entry_line (Apic _) = Ret Line_Apic"
| "entry_line (FADT _) = Ret Line_Fadt"
| "entry_line (HighPrecisionEventTimer _ _) = Ret Line_Hpet"
| "entry_line (WindowsACPIEmulatedDevices _ _) = Ret Line_Waet"
| "entry_line (Acip_Unknown header _) = xbind (sdt_signature_str header) (\<lambda>signature. Ret (Line_Unknown signature))"

definition print_entries :: "ram \<Rightarrow> 'w hardware \<Rightarrow> console_line list exec" where
  "print_entries mem hw =
     (case get_rsdt_entries mem hw of
        None \<Rightarrow> Ret []
      | Some entries \<Rightarrow> xbind entries (traverse entry_line))"

text \<open>The empty datagram sent over a network device of the instance.\<close>

definition main_send_empty :: "'w net_ops \<Rightarrow> 'w network_device \<Rightarrow> 'w \<Rightarrow> ('w network_device \<times> 'w) exec" where
  "main_send_empty ops device w =
     (let ip = ipv4_builder_destination (ipv4_builder_source (ipv4_builder_protocol (ipv4_builder_ttl
            (ipv4_builder_identification (ipv4_builder_dscp ipv4_builder_new 0) 0x2345) 20) protocol.Udp)
            (Ip4 0 0 0 0) (nm_mac (nd_metadata device))) (Ip4 255 255 255 255) (Mac 0xff 0xff 0xff 0xff 0xff 0xff)
      in xbind (udp_finish (udp_builder_destination_port (udp_builder_source_port udp_builder_new 68) 67) ip
           (\<lambda>buf. Ret (buf, Some 0)) 0) (\<lambda>r.
         xbind (unwrap r) (\<lambda>packet.
         xbind (packet_queue_enqueue ops (nd_packet_queue device) packet w) (\<lambda>w. Ret (device, w)))))"

definition kernel_prepare ::
  "(driver_entry, 't, 'w) idt_ops \<Rightarrow> 'w port_ops \<Rightarrow> ('f, 'e, 'w) boot_ops \<Rightarrow> 'w card_ops \<Rightarrow>
     (('w, 'y) kernel_task, 'q) kern_ops \<Rightarrow> (serial_subscriber \<Rightarrow> 'q \<Rightarrow> unit option \<times> 'q) \<Rightarrow>
     boot_info \<Rightarrow> 'q \<Rightarrow> ('f, 'e, 't, 'w) machine \<Rightarrow>
     (('w, 'y) kernel_task, 'q \<times> ('f, 'e, 't, 'w) system) kernel exec option" where
  "kernel_prepare iops pops bops cops kops set_global_default boot_info q m =
     lbind (lift_x (hardware_init iops pops bops boot_info m)) (\<lambda>(hw, m).
     let kernel = kernel_setup (q, \<lparr>sys_machine = m, sys_net = net_statics_boot, sys_printed = []\<rparr>) in
     lbind (kernel_add_extension (paired_ops kops) (log_ext_setup set_global_default (log_extension_new Debug)) kernel) (\<lambda>kernel.
     lbind (kernel_add_extension (paired_ops kops) (net_ext_setup pops cops iops hw) kernel) (\<lambda>kernel.
     case ke_world (k_env kernel) of (q, s) \<Rightarrow>
     let st = mc_intr (sys_machine s) in
     lbind (lift_x (print_entries (bo_ram bops (is_world st)) hw)) (\<lambda>lines.
     lbind (lift_x (with_networking_device (main_send_empty (co_net cops)) hw (is_world st))) (\<lambda>(hw, w).
     let s = s\<lparr>sys_printed := lines, sys_machine := (sys_machine s)\<lparr>mc_intr := st\<lparr>is_world := w\<rparr>, mc_kernel_instance := Some hw\<rparr>\<rparr>;
         env = (k_env kernel)\<lparr>ke_world := (q, s)\<rparr>;
         env = handle_add_task (paired_ops kops) (Task_Ping (Ping_Start (Ip4 192 168 178 20))) env
     in lift_x (Ret (kernel\<lparr>k_env := env\<rparr>)))))))"

text \<open>The polls of the tasks are a parameter; the run loop is only left by a panic.\<close>

definition kernel_main ::
  "(driver_entry, 't, 'w) idt_ops \<Rightarrow> 'w port_ops \<Rightarrow> ('f, 'e, 'w) boot_ops \<Rightarrow> 'w card_ops \<Rightarrow>
     (('w, 'y) kernel_task, 'q) kern_ops \<Rightarrow> (serial_subscriber \<Rightarrow> 'q \<Rightarrow> unit option \<times> 'q) \<Rightarrow>
     (('w, 'y) kernel_task, 'q \<times> ('f, 'e, 't, 'w) system) poll_fn \<Rightarrow>
     boot_info \<Rightarrow> 'q \<Rightarrow> ('f, 'e, 't, 'w) machine \<Rightarrow> unit exec option" where
  "kernel_main iops pops bops cops kops set_global_default poll boot_info q m =
     lbind (kernel_prepare iops pops bops cops kops set_global_default boot_info q m) (\<lambda>kernel.
     lbind (kernel_run (paired_ops kops) poll kernel) (\<lambda>_. lift_x (Panic ExplicitPanic)))"

section \<open>Lemmas\<close>

lemma paired_ops_laws:
  assumes "kernel_laws ops rq aq"
  shows "kernel_laws (paired_ops ops) (\<lambda>qs. rq (fst qs)) (\<lambda>qs. aq (fst qs))"
  using assms by (auto simp: kernel_laws_def paired_ops_def apsnd_def map_prod_def split_def)

lemma paired_add_task:
  "snd (ke_world (handle_add_task (paired_ops ops) fut env)) = snd (ke_world env)"
  "ke_wakers (handle_add_task (paired_ops ops) fut env) = ke_wakers env"
  by (simp_all add: handle_add_task_def paired_ops_def Let_def split_def)

text \<open>Tasks added one after the other and not collected yet.\<close>

definition queued ::
  "('q \<Rightarrow> nat list) \<Rightarrow> ('q \<Rightarrow> 'f task list) \<Rightarrow> 'f list \<Rightarrow> ('q \<times> 's) kernel_env \<Rightarrow> bool" where
  "queued rq aq fs env \<longleftrightarrow>
     rq (fst (ke_world env)) = [0 ..< length fs] \<and>
     aq (fst (ke_world env)) = map2 (\<lambda>i f. \<lparr>task_id = i, task_future = f\<rparr>) [0 ..< length fs] fs \<and>
     ke_count env = length fs \<and> ke_wakers env = Map.empty"

lemma queued_add:
  assumes "kernel_laws ops rq aq" and "queued rq aq fs env" and "length fs + 1 < 2 ^ 64"
  shows "queued rq aq (fs @ [f]) (handle_add_task (paired_ops ops) f env)"
  using assms(2,3) handle_add_task_queues [OF paired_ops_laws [OF assms(1)], of f env]
  by (simp add: queued_def paired_add_task)

lemma queued_world: "queued rq aq fs env \<Longrightarrow> queued rq aq fs (env\<lparr>ke_world := (fst (ke_world env), s)\<rparr>)"
  by (simp add: queued_def)

lemma queued_inv:
  assumes "queued rq aq fs env" and "length fs < 2 ^ 64"
  shows "kernel_inv (\<lambda>qs. rq (fst qs)) (\<lambda>qs. aq (fst qs)) \<lparr>k_tasks = [], k_env = env\<rparr>"
proof -
  have ids: "map task_id (aq (fst (ke_world env))) = [0 ..< length fs]"
    using assms(1) by (simp add: queued_def comp_def split_def map_fst_zip)
  have "rq (fst (ke_world env)) = [0 ..< length fs]" "ke_count env = length fs" "ke_wakers env = Map.empty"
    using assms(1) by (simp_all add: queued_def)
  with assms(2) show ?thesis by (simp add: kernel_inv_def env_inv_def Let_def ids del: set_map)
qed

lemma ping_poll_step:
  "ping_step ops pt ready waker task st = Ret (True, task', st') \<Longrightarrow>
     ping_task_poll ops pt ready waker task st = ping_task_poll ops pt ready waker task' st'"
  "ping_step ops pt ready waker task st = Ret (False, task', st') \<Longrightarrow>
     ping_task_poll ops pt ready waker task st = Some (Ret (task', st'))"
  by (simp_all add: ping_task_poll.simps [of ops pt ready waker task st])

text \<open>The first poll asks for the address of the target once and, the answer being out, waits for it.\<close>

lemma ping_task_asks:
  assumes "op_arp_new ops (hs_world st) = (queue, w1)"
    and "op_msg_enqueue ops (Msg_Action (SendArpRequest ip queue)) w1 = (Some (), w2)"
    and "pt_arp_poll pt queue waker w2 = (None, w3)"
  shows "ping_task_poll ops pt True waker (Ping_Start ip) st = Some (Ret (Ping_Mac ip queue, st\<lparr>hs_world := w3\<rparr>))"
proof -
  have "ping_step ops pt True waker (Ping_Start ip) st = Ret (True, Ping_Mac ip queue, st\<lparr>hs_world := w2\<rparr>)"
    by (simp add: get_mac_def assms(1,2))
  moreover have "ping_step ops pt True waker (Ping_Mac ip queue) (st\<lparr>hs_world := w2\<rparr>) =
      Ret (False, Ping_Mac ip queue, st\<lparr>hs_world := w3\<rparr>)" by (simp add: assms(3))
  ultimately show ?thesis by (simp only: ping_poll_step)
qed

text \<open>When the answer is there, the same poll sends the echo request to it and waits for the reply.\<close>

lemma ping_task_pings:
  assumes "pt_arp_poll pt queue waker (hs_world st) = (Some (Some mac), w1)"
    and "op_msg_enqueue ops (Msg_Action (PingRequest waker ip mac (hs_next_flag st))) w1 = (r, w2)"
  shows "\<exists>fut. ping_task_poll ops pt True waker (Ping_Mac ip queue) st =
    Some (Ret (Ping_Reply ip mac fut, st\<lparr>hs_flags := (hs_flags st)(hs_next_flag st := False),
      hs_next_flag := Suc (hs_next_flag st), hs_world := w2\<rparr>)) \<and> pf_send fut \<and> pf_returned fut = hs_next_flag st"
proof -
  let ?fut = "\<lparr>pf_ip = Some ip, pf_mac = Some mac, pf_send = False, pf_returned = hs_next_flag st\<rparr>"
  let ?st = "st\<lparr>hs_world := w1, hs_flags := (hs_flags st)(hs_next_flag st := False), hs_next_flag := Suc (hs_next_flag st)\<rparr>"
  have "ping_step ops pt True waker (Ping_Mac ip queue) st = Ret (True, Ping_Reply ip mac ?fut, ?st)"
    by (simp add: assms(1) raw_ping_def)
  moreover have "ping_step ops pt True waker (Ping_Reply ip mac ?fut) ?st =
      Ret (False, Ping_Reply ip mac (?fut\<lparr>pf_mac := None, pf_ip := None, pf_send := True\<rparr>), ?st\<lparr>hs_world := w2\<rparr>)"
    by (simp add: ping_future_poll_def assms(2) Let_def)
  ultimately have "ping_task_poll ops pt True waker (Ping_Mac ip queue) st =
      Some (Ret (Ping_Reply ip mac (?fut\<lparr>pf_mac := None, pf_ip := None, pf_send := True\<rparr>), ?st\<lparr>hs_world := w2\<rparr>))"
    by (simp only: ping_poll_step)
  then show ?thesis by simp
qed

lemma instance_devices:
  assumes "hardware_init iops pops bops bi m = Ret (hw, m')" and "mc_kernel_instance m = None"
  shows "hw_devices hw = []"
proof -
  define f where "f = (\<lambda>w. snd (setup_pci pops (bi_physical_memory_offset bi) w))"
  have "setup_pci pops (bi_physical_memory_offset bi) = (\<lambda>w. ([], f w))"
    by (rule ext) (simp add: f_def prod_eq_iff setup_pci_empty)
  then show ?thesis using assms by (auto simp: hardware_init_def xbind_Ret_iff Let_def)
qed

section \<open>Properties\<close>


text \<open>A machine without cards and without firmware tables, and tasks that are never ready.\<close>

definition bare_ports :: "boot_world port_ops" where
  "bare_ports = \<lparr>port_write = (\<lambda>_ _ w. w), port_read = (\<lambda>_ w. (0xffffffff, w))\<rparr>"

definition bare_net :: "boot_world net_ops" where
  "bare_net = \<lparr>op_queue_new = (\<lambda>w. (0, w)), op_enqueue = (\<lambda>_ _ w. (Some (), w)), op_try_dequeue = (\<lambda>_ w. (None, w)),
     op_msg_enqueue = (\<lambda>_ w. (Some (), w)), op_arp_new = (\<lambda>w. (0, w)), op_arp_try_enqueue = (\<lambda>_ _ w. (Some (), w)),
     op_udp_try_enqueue = (\<lambda>_ _ w. (Some (), w)), op_wake = (\<lambda>_ w. w)\<rparr>"

definition bare_card :: "boot_world card_ops" where
  "bare_card = \<lparr>mmio_write = (\<lambda>_ _ w. w), mmio_read = (\<lambda>_ w. (0, w)), co_net = bare_net,
     rx_desc_read = (\<lambda>_ w. (rx_desc_default, w)), rx_desc_write = (\<lambda>_ _ w. w), tx_desc_read = (\<lambda>_ w. (tx_desc_default, w)),
     tx_desc_write = (\<lambda>_ _ w. w), mem_slice = (\<lambda>_ n _. replicate n 0), box_into_raw = (\<lambda>_ w. (0x2000, w)),
     box_drop = (\<lambda>_ w. w), heap_alloc = (\<lambda>_ _ w. (0x1000, w)), mapping_ready = (\<lambda>_. True), translate_addr = (\<lambda>a _. Some a)\<rparr>"

definition bare_record :: boot_info where
  "bare_record = boot_record\<lparr>bi_rsdp_addr := None\<rparr>"

lemma bare_keeps: "boot_keeps boot_idt bare_ports (\<lambda>(m, c, t). t)"
  by (simp add: boot_keeps_def boot_idt_def table_idt_ops_keep bare_ports_def split_def)

lemma bare_slots: "setup_slots bare_ports cops offset i slots w = lift_x (Ret ([], w))"
proof -
  have "load_device bare_ports bus device w = (None, w)" for bus device
    by (simp add: load_device_def pci_read_word_def bare_ports_def Let_def)
  then show ?thesis by (induction slots) auto
qed

lemma bare_machine:
  obtains hw m where "hardware_init (boot_idt :: (driver_entry, _, _) idt_ops) bare_ports boot_paging bare_record (machine_boot ((0xff, 0xff), (0, one_card), Map.empty)) = Ret (hw, m)"
    and "hw_rsdt hw = None" and "hw_memory_offset hw = Some 0x100000" and "intr_inv (mc_intr m)" and "is_idt (mc_intr m) = Initial"
proof -
  let ?w = "((0xff, 0xff), (0, one_card), Map.empty) :: boot_world"
  obtain st where st: "basic_init (boot_idt :: (driver_entry, _, _) idt_ops) (intr_boot ?w) = Ret st" "intr_inv st" "is_idt st = Initial" "snd (snd (is_world st)) = Map.empty"
    using basic_init_run [OF boot_idt_laws bare_keeps, of ?w] by (auto simp: split_def)
  have rs: "regions_ok (bi_memory_regions boot_record)"
      "1024 \<le> length (usable_addresses (frame_allocator_init (bi_memory_regions boot_record)))"
    by (simp_all add: boot_record_def regions_ok_def usable_addresses_def frame_allocator_init_def addr_steps_eq)
  obtain mapper w1 where mem: "memory_setup boot_paging (Some 0x100000) (bi_memory_regions boot_record) (is_world st) = Ret (mapper, w1)"
    using memory_setup_run [OF boot_paging_laws rs, of "is_world st"] st(4) by (auto simp: split_def)
  have b: "bi_physical_memory_offset bare_record = Some 0x100000" "bi_memory_regions bare_record = bi_memory_regions boot_record"
      "bi_rsdp_addr bare_record = None" by (simp_all add: bare_record_def boot_record_def)
  have "rsdp_acip_setup (bo_ram boot_paging (is_world st)) (bi_rsdp_addr bare_record) (bi_physical_memory_offset bare_record) = Ret None"
    by (simp add: b rsdp_acip_setup_def)
  from hardware_init_parts [OF st(1) this mem [folded b], of bare_ports] obtain hw m where
    run: "hardware_init (boot_idt :: (driver_entry, _, _) idt_ops) bare_ports boot_paging bare_record (machine_boot ?w) = Ret (hw, m)"
      "hw_rsdt hw = None" "hw_memory_offset hw = Some 0x100000"
      and m: "mc_intr m = st\<lparr>is_world := snd (setup_pci bare_ports (bi_physical_memory_offset bare_record) w1)\<rparr>" unfolding b(1) by metis
  have "intr_inv (mc_intr m)" "is_idt (mc_intr m) = Initial" using st(2,3) by (simp_all add: intr_inv_def m)
  with run show ?thesis by (rule that)
qed

lemma pending_poll_ok: "poll_ok ops rq aq (\<lambda>waker f env. Some (Ret (False, f, env)))"
  by (simp add: poll_ok_def)

lemma pending_poll_total: "poll_total (\<lambda>waker f env. Some (Ret (False, f, env)))"
  unfolding poll_total_def by blast


end
