(* ===== verification/Console.thy ===== *)
theory Console
  imports Interrupts
begin

text \<open>
  \<^verbatim>\<open>serial.rs\<close>, the print macros and the exception and panic handlers, which print: the serial port behind its lock, what a
  print does to the interrupt flag, and how code that panics goes on in the panic handler. The port comes from
  the crate \<^verbatim>\<open>uart_16550\<close>: its operations are in \<open>console_ops\<close>, with the exit port of the emulator, the
  fault address register and the text of a panic.
\<close>

section \<open>State\<close>

text \<open>
  How running code can end: it returns, it panics, it stays in a final loop, or it waits for a lock that is
  never released. The state is the one it ends in.
\<close>

datatype panic_info = Info_Message string | Info_Cause panic

datatype 's outcome =
    Returned 's
  | Panicked panic_info 's
  | Halted 's
  | Spins 's

primrec andthen :: "'s outcome \<Rightarrow> ('s \<Rightarrow> 's outcome) \<Rightarrow> 's outcome" where
  "andthen (Returned s) f = f s"
| "andthen (Panicked i s) f = Panicked i s"
| "andthen (Halted s) f = Halted s"
| "andthen (Spins s) f = Spins s"

record 'w console_ops =
  uart_init :: "u16 \<Rightarrow> 'w \<Rightarrow> 'w"
  uart_write_str :: "u16 \<Rightarrow> string \<Rightarrow> 'w \<Rightarrow> bool \<times> 'w"
  port32_write :: "u16 \<Rightarrow> u32 \<Rightarrow> 'w \<Rightarrow> 'w"
  read_cr2 :: "'w \<Rightarrow> string"
  info_display :: "panic_info \<Rightarrow> string"

text \<open>\<open>gs_uart\<close> says whether the lazy static has been initialised, \<open>gs_locked\<close> whether its lock is taken.\<close>

record ('t, 'w) guest =
  gs_intr :: "('t, 'w) intr_state"
  gs_uart :: bool
  gs_locked :: bool

definition guest_boot :: "'w \<Rightarrow> ('t, 'w) guest" where
  "guest_boot w = \<lparr>gs_intr = intr_boot w, gs_uart = False, gs_locked = False\<rparr>"

definition gs_world :: "('t, 'w) guest \<Rightarrow> 'w" where
  "gs_world s = is_world (gs_intr s)"

definition set_world :: "'w \<Rightarrow> ('t, 'w) guest \<Rightarrow> ('t, 'w) guest" where
  "set_world w s = s\<lparr>gs_intr := (gs_intr s)\<lparr>is_world := w\<rparr>\<rparr>"

definition set_enabled :: "bool \<Rightarrow> ('t, 'w) guest \<Rightarrow> ('t, 'w) guest" where
  "set_enabled b s = s\<lparr>gs_intr := (gs_intr s)\<lparr>is_enabled := b\<rparr>\<rparr>"

section \<open>The serial port\<close>

definition SERIAL1 :: "'w console_ops \<Rightarrow> ('t, 'w) guest \<Rightarrow> ('t, 'w) guest" where
  "SERIAL1 ops s = (if gs_uart s then s else set_world (uart_init ops 0x3F8 (gs_world s)) (s\<lparr>gs_uart := True\<rparr>))"

text \<open>Formatted arguments are the pieces they are written in; the first failure ends the writing.\<close>

fun uart_write_fmt :: "'w console_ops \<Rightarrow> string list \<Rightarrow> 'w \<Rightarrow> bool \<times> 'w" where
  "uart_write_fmt ops [] w = (True, w)"
| "uart_write_fmt ops (p # ps) w =
     (case uart_write_str ops 0x3F8 p w of (ok, w) \<Rightarrow> if ok then uart_write_fmt ops ps w else (False, w))"

text \<open>The flag is restored after the closure has returned; a panic in it leaves interrupts off.\<close>

definition guest_without_interrupts :: "(('t, 'w) guest \<Rightarrow> ('t, 'w) guest outcome) \<Rightarrow> ('t, 'w) guest \<Rightarrow> ('t, 'w) guest outcome" where
  "guest_without_interrupts f s =
     andthen (f (set_enabled False s)) (\<lambda>s'. Returned (if is_enabled (gs_intr s) then set_enabled True s' else s'))"

text \<open>The guard of the lock lives until the end of the statement, so a failed \<^verbatim>\<open>expect\<close> panics with the lock taken.\<close>

definition serial_print :: "'w console_ops \<Rightarrow> string list \<Rightarrow> ('t, 'w) guest \<Rightarrow> ('t, 'w) guest outcome" where
  "serial_print ops args s =
     guest_without_interrupts (\<lambda>s.
       let s = SERIAL1 ops s in
       if gs_locked s then Spins s
       else (case uart_write_fmt ops args (gs_world s) of (ok, w) \<Rightarrow>
         let s = set_world w (s\<lparr>gs_locked := True\<rparr>) in
         if ok then Returned (s\<lparr>gs_locked := False\<rparr>)
         else Panicked (Info_Message ''Printing to serial failed: Error'') s)) s"

definition newline :: string where
  "newline = [CHR 0x0A]"

text \<open>\<^verbatim>\<open>println!\<close> prints its arguments and a line end through the serial port.\<close>

definition println :: "'w console_ops \<Rightarrow> string list \<Rightarrow> ('t, 'w) guest \<Rightarrow> ('t, 'w) guest outcome" where
  "println ops args s = serial_print ops (args @ [newline]) s"

section \<open>Formatting\<close>

definition digit :: "nat \<Rightarrow> char" where
  "digit n = (if n < 10 then char_of (48 + n) else char_of (87 + n))"

text \<open>The digits of a number in a base, most significant first.\<close>

fun digits :: "nat \<Rightarrow> nat \<Rightarrow> string" where
  "digits b n = (if n < b \<or> b < 2 then [digit n] else digits b (n div b) @ [digit (n mod b)])"

declare digits.simps [simp del]

definition padded_hex :: "nat \<Rightarrow> u64 \<Rightarrow> string" where
  "padded_hex k v = (let ds = digits 16 (unat v) in replicate (k - length ds) CHR ''0'' @ ds)"

definition show_bool :: "bool \<Rightarrow> string" where
  "show_bool b = (if b then ''true'' else ''false'')"

section \<open>Handlers\<close>

text \<open>\<^verbatim>\<open>hlt_loop\<close> does not return; stack frames and error codes come formatted.\<close>

definition hlt_loop :: "'s \<Rightarrow> 's outcome" where
  "hlt_loop s = Halted s"

definition breakpoint_handler :: "'w console_ops \<Rightarrow> string \<Rightarrow> ('t, 'w) guest \<Rightarrow> ('t, 'w) guest outcome" where
  "breakpoint_handler ops stack_frame s = println ops [''EXCEPTION: BREAKPOINT'' @ newline, stack_frame] s"

definition double_fault_handler :: "string \<Rightarrow> u64 \<Rightarrow> 's \<Rightarrow> 's outcome" where
  "double_fault_handler stack_frame error_code s =
     Panicked (Info_Message (''EXCEPTION: DOUBLE FAULT'' @ newline @ stack_frame)) s"

definition page_fault_handler :: "'w console_ops \<Rightarrow> string \<Rightarrow> string \<Rightarrow> ('t, 'w) guest \<Rightarrow> ('t, 'w) guest outcome" where
  "page_fault_handler ops stack_frame error_code s =
     andthen (println ops [''EXCEPTION: PAGE FAULT''] s) (\<lambda>s.
     andthen (println ops [''Accessed Address: '', read_cr2 ops (gs_world s)] s) (\<lambda>s.
     andthen (println ops [''Error Code: '', error_code] s) (\<lambda>s.
     andthen (println ops [stack_frame] s) hlt_loop)))"

text \<open>The fields of the error code: external, table and index.\<close>

definition general_protection_fields :: "u64 \<Rightarrow> bool \<times> u64 \<times> u64" where
  "general_protection_fields error_code =
     (error_code AND 0x1 \<noteq> 0, drop_bit 1 (error_code AND 0x3), drop_bit 3 (error_code AND 0xfff8))"

definition general_protection_handler :: "'w console_ops \<Rightarrow> string \<Rightarrow> u64 \<Rightarrow> ('t, 'w) guest \<Rightarrow> ('t, 'w) guest outcome" where
  "general_protection_handler ops stack_frame error_code s =
     (case general_protection_fields error_code of (external, tbl, index) \<Rightarrow>
      andthen (println ops [''Raw: '', padded_hex 8 error_code] s) (\<lambda>s.
      andthen (println ops [''External: '', show_bool external, '' - TBL: '', digits 10 (unat tbl),
        '' - Index: '', digits 10 (unat index)] s) (\<lambda>s.
      Panicked (Info_Message (''General Protection Exception: '' @ digits 10 (unat error_code) @
        '' '' @ newline @ '' '' @ stack_frame)) s)))"

definition alloc_error_handler :: "string \<Rightarrow> 's \<Rightarrow> 's outcome" where
  "alloc_error_handler layout s = Panicked (Info_Message (''allocation error: '' @ layout)) s"

text \<open>The panic handler of the kernel.\<close>

definition kernel_panic :: "'w console_ops \<Rightarrow> panic_info \<Rightarrow> ('t, 'w) guest \<Rightarrow> ('t, 'w) guest outcome" where
  "kernel_panic ops info s = andthen (println ops [info_display ops info] s) hlt_loop"

text \<open>
  Code runs under a panic handler: when it panics, the handler goes on in the state of the panic, and a panic
  of the handler calls the handler again.
\<close>

partial_function (option) under_handler :: "(panic_info \<Rightarrow> 's \<Rightarrow> 's outcome) \<Rightarrow> 's outcome \<Rightarrow> 's outcome option" where
  "under_handler handler r = (case r of Panicked info s \<Rightarrow> under_handler handler (handler info s) | _ \<Rightarrow> Some r)"

section \<open>Assumptions on the port\<close>

text \<open>
  Writing a string does not fail and appends it to what has been sent, \<open>out\<close>; the exit port keeps the codes
  written to it, \<open>exits\<close>; neither changes the other.
\<close>

definition console_laws :: "'w console_ops \<Rightarrow> ('w \<Rightarrow> string) \<Rightarrow> ('w \<Rightarrow> u32 list) \<Rightarrow> bool" where
  "console_laws ops out exits \<longleftrightarrow>
     (\<forall>p w. out (uart_init ops p w) = out w \<and> exits (uart_init ops p w) = exits w) \<and>
     (\<forall>p t w. \<exists>w'. uart_write_str ops p t w = (True, w') \<and> out w' = out w @ t \<and> exits w' = exits w) \<and>
     (\<forall>v w. out (port32_write ops 0xf4 v w) = out w \<and> exits (port32_write ops 0xf4 v w) = exits w @ [v])"

section \<open>Lemmas\<close>

lemma under_handler_simps [simp]:
  "under_handler h (Halted s) = Some (Halted s)" "under_handler h (Spins s) = Some (Spins s)"
  "under_handler h (Returned s) = Some (Returned s)" "under_handler h (Panicked info s) = under_handler h (h info s)"
  by (simp_all add: under_handler.simps)

lemma write_fmt_run:
  assumes "console_laws ops out exits"
  shows "\<exists>w'. uart_write_fmt ops ps w = (True, w') \<and> out w' = out w @ concat ps \<and> exits w' = exits w"
proof (induction ps arbitrary: w)
  case (Cons p ps)
  obtain w1 where w1: "uart_write_str ops 0x3F8 p w = (True, w1)" "out w1 = out w @ p" "exits w1 = exits w"
    using assms unfolding console_laws_def by blast
  with Cons [of w1] show ?case by auto
qed simp

text \<open>A state that differs only in the world, with the port initialised and free.\<close>

definition printed :: "'w \<Rightarrow> ('t, 'w) guest \<Rightarrow> ('t, 'w) guest" where
  "printed w s = set_world w (s\<lparr>gs_uart := True, gs_locked := False\<rparr>)"

lemma printed_simps [simp]:
  "gs_locked (printed w s) = False" "gs_world (printed w s) = w" "printed w (printed v s) = printed w s"
  "gs_intr (printed w s) = (gs_intr s)\<lparr>is_world := w\<rparr>" "set_world v (printed w s) = printed v s"
  by (simp_all add: printed_def set_world_def gs_world_def)

lemma serial_print_run:
  assumes "console_laws ops out exits" and "\<not> gs_locked s"
  shows "\<exists>w. serial_print ops ps s = Returned (printed w s) \<and> out w = out (gs_world s) @ concat ps \<and> exits w = exits (gs_world s)"
proof -
  define w0 where "w0 = gs_world (SERIAL1 ops (set_enabled False s))"
  have w0: "out w0 = out (gs_world s)" "exits w0 = exits (gs_world s)"
    using assms(1) by (simp_all add: w0_def SERIAL1_def set_enabled_def gs_world_def set_world_def console_laws_def)
  obtain w where w: "uart_write_fmt ops ps w0 = (True, w)" "out w = out w0 @ concat ps" "exits w = exits w0"
    using write_fmt_run [OF assms(1), of ps w0] by blast
  obtain st u l where s: "s = \<lparr>gs_intr = st, gs_uart = u, gs_locked = l\<rparr>" by (cases s)
  obtain i ld b n e v where st: "st = \<lparr>is_idt = i, is_loaded = ld, is_boxes = b, is_next_box = n, is_enabled = e, is_world = v\<rparr>"
    by (cases st)
  have "serial_print ops ps s = Returned (printed w s)"
    using assms(2) w(1) unfolding w0_def s st
    by (cases u; cases e)
      (simp_all add: serial_print_def guest_without_interrupts_def SERIAL1_def set_enabled_def gs_world_def set_world_def
        printed_def Let_def)
  with w w0 show ?thesis by auto
qed

lemma println_run:
  assumes "console_laws ops out exits" and "\<not> gs_locked s"
  shows "\<exists>w. println ops ps s = Returned (printed w s) \<and> out w = out (gs_world s) @ concat ps @ newline \<and> exits w = exits (gs_world s)"
  using serial_print_run [OF assms, of "ps @ [newline]"] by (simp add: println_def)

text \<open>
  A print that fails takes the lock with it: the panic handler's own print waits for it for ever, and no
  message is ever shown.
\<close>

lemma locked_print_spins:
  assumes "gs_locked s"
  shows "\<exists>s'. serial_print ops ps s = Spins s'"
  using assms by (simp add: serial_print_def guest_without_interrupts_def SERIAL1_def set_enabled_def set_world_def gs_world_def Let_def)

lemma failed_print_hangs:
  assumes "serial_print ops ps s = Panicked info s'"
  shows "\<exists>s''. under_handler (kernel_panic ops) (serial_print ops ps s) = Some (Spins s'')"
proof -
  have "gs_locked s'"
    using assms by (auto simp: serial_print_def guest_without_interrupts_def SERIAL1_def set_world_def Let_def
        split: if_splits prod.splits)
  then obtain s2 where "kernel_panic ops info s' = Spins s2"
    using locked_print_spins [of s' ops "[info_display ops info] @ [newline]"] by (auto simp: kernel_panic_def println_def)
  then show ?thesis unfolding assms by simp
qed

end
