(* ===== verification/Test_Harness.thy ===== *)
theory Test_Harness
  imports Console
begin

text \<open>
  The test framework of \<^verbatim>\<open>lib.rs\<close> and the test programs: running the tests one after the other, what is reported over the
  serial port, and the code written to the exit port of the emulator. A test is a name and a body on the
  state of the machine; \<^verbatim>\<open>int3\<close>, the instruction that raises a breakpoint, is a parameter.
\<close>

section \<open>The framework\<close>

datatype qemu_exit_code = Qemu_Success | Qemu_Failed

fun exit_code_as_u32 :: "qemu_exit_code \<Rightarrow> u32" where
  "exit_code_as_u32 Qemu_Success = 0x10"
| "exit_code_as_u32 Qemu_Failed = 0x11"

definition exit_qemu :: "'w console_ops \<Rightarrow> qemu_exit_code \<Rightarrow> ('t, 'w) guest \<Rightarrow> ('t, 'w) guest" where
  "exit_qemu ops exit_code s = set_world (port32_write ops 0xf4 (exit_code_as_u32 exit_code) (gs_world s)) s"

record ('t, 'w) test_case =
  tc_name :: string
  tc_body :: "('t, 'w) guest \<Rightarrow> ('t, 'w) guest outcome"

definition tab :: string where
  "tab = [CHR 0x09]"

definition testable_run :: "'w console_ops \<Rightarrow> ('t, 'w) test_case \<Rightarrow> ('t, 'w) guest \<Rightarrow> ('t, 'w) guest outcome" where
  "testable_run ops self s =
     andthen (serial_print ops [tc_name self, ''...'' @ tab] s) (\<lambda>s.
     andthen (tc_body self s) (\<lambda>s.
     serial_print ops [''[ok]'' @ newline] s))"

fun run_tests :: "'w console_ops \<Rightarrow> ('t, 'w) test_case list \<Rightarrow> ('t, 'w) guest \<Rightarrow> ('t, 'w) guest outcome" where
  "run_tests ops [] s = Returned s"
| "run_tests ops (t # ts) s = andthen (testable_run ops t s) (run_tests ops ts)"

definition test_runner :: "'w console_ops \<Rightarrow> ('t, 'w) test_case list \<Rightarrow> ('t, 'w) guest \<Rightarrow> ('t, 'w) guest outcome" where
  "test_runner ops tests s =
     andthen (serial_print ops [''Running '', digits 10 (length tests), '' tests'' @ newline] s) (\<lambda>s.
     andthen (run_tests ops tests s) (\<lambda>s.
     Returned (exit_qemu ops Qemu_Success s)))"

definition test_panic_handler :: "'w console_ops \<Rightarrow> panic_info \<Rightarrow> ('t, 'w) guest \<Rightarrow> ('t, 'w) guest outcome" where
  "test_panic_handler ops info s =
     andthen (serial_print ops [''[failed]'' @ newline @ newline] s) (\<lambda>s.
     andthen (serial_print ops [''Error: '', info_display ops info, newline @ newline] s) (\<lambda>s.
     hlt_loop (exit_qemu ops Qemu_Failed s)))"

section \<open>The test programs\<close>

text \<open>A panic of \<^verbatim>\<open>init\<close> is reported in the state \<^verbatim>\<open>init\<close> started in.\<close>

definition guest_init :: "('h, 't, 'w) idt_ops \<Rightarrow> ('t, 'w) guest \<Rightarrow> ('t, 'w) guest outcome" where
  "guest_init iops s =
     (case lib_init iops (gs_intr s) of Panic p \<Rightarrow> Panicked (Info_Cause p) s | Ret st \<Rightarrow> Returned (s\<lparr>gs_intr := st\<rparr>))"

definition test_kernel_main ::
  "'w console_ops \<Rightarrow> ('h, 't, 'w) idt_ops \<Rightarrow> ('t, 'w) test_case list \<Rightarrow> ('t, 'w) guest \<Rightarrow> ('t, 'w) guest outcome" where
  "test_kernel_main ops iops tests s =
     andthen (guest_init iops s) (\<lambda>s.
     andthen (test_runner ops tests s) hlt_loop)"

definition test_breakpoint_exception :: "(('t, 'w) guest \<Rightarrow> ('t, 'w) guest outcome) \<Rightarrow> ('t, 'w) guest \<Rightarrow> ('t, 'w) guest outcome" where
  "test_breakpoint_exception int3 s = int3 s"

text \<open>The tests of the library, of \<^verbatim>\<open>tests/boot.rs\<close> and of the kernel binary.\<close>

definition lib_tests :: "(('t, 'w) guest \<Rightarrow> ('t, 'w) guest outcome) \<Rightarrow> ('t, 'w) test_case list" where
  "lib_tests int3 =
     [\<lparr>tc_name = ''rucoonos::interrupts::test_breakpoint_exception'', tc_body = test_breakpoint_exception int3\<rparr>]"

definition test_println :: "'w console_ops \<Rightarrow> ('t, 'w) guest \<Rightarrow> ('t, 'w) guest outcome" where
  "test_println ops s = println ops [''test_println output''] s"

definition boot_start :: "'w console_ops \<Rightarrow> ('t, 'w) guest \<Rightarrow> ('t, 'w) guest outcome" where
  "boot_start ops s =
     andthen (test_runner ops [\<lparr>tc_name = ''boot::test_println'', tc_body = test_println ops\<rparr>] s) (\<lambda>s. Halted s)"

definition trivial_assertion :: "'s \<Rightarrow> 's outcome" where
  "trivial_assertion s = (if (1::int) = 1 then Returned s else Panicked (Info_Cause AssertionFailed) s)"

text \<open>The end of \<^verbatim>\<open>kernel_main\<close> in the test build: the tests, then \<^verbatim>\<open>panic!("Done")\<close>.\<close>

definition kernel_main_tests :: "'w console_ops \<Rightarrow> ('t, 'w) guest \<Rightarrow> ('t, 'w) guest outcome" where
  "kernel_main_tests ops s =
     andthen (test_runner ops [\<lparr>tc_name = ''rucoonos::trivial_assertion'', tc_body = trivial_assertion\<rparr>] s) (\<lambda>s.
     Panicked (Info_Message ''Done'') s)"

section \<open>What the tests do\<close>

text \<open>
  In a state that differs from \<open>st\<close> at most in the world, with the serial port free, the test prints \<open>noise\<close>
  and returns, or panics with the given information.
\<close>

definition test_does ::
  "('w \<Rightarrow> string) \<Rightarrow> ('w \<Rightarrow> u32 list) \<Rightarrow> ('t, 'w) intr_state \<Rightarrow> ('t, 'w) test_case \<Rightarrow> string \<times> panic_info option \<Rightarrow> bool" where
  "test_does out exits st t r \<longleftrightarrow>
     (\<forall>s. gs_intr s = st\<lparr>is_world := gs_world s\<rparr> \<and> gs_uart s \<and> \<not> gs_locked s \<longrightarrow>
        (\<exists>w. tc_body t s = (case snd r of None \<Rightarrow> Returned (printed w s) | Some info \<Rightarrow> Panicked info (printed w s)) \<and>
           out w = out (gs_world s) @ fst r \<and> exits w = exits (gs_world s)))"

text \<open>The report of the tests, up to the first that fails, and the verdict.\<close>

fun report :: "'w console_ops \<Rightarrow> ('t, 'w) test_case list \<Rightarrow> (string \<times> panic_info option) list \<Rightarrow> string" where
  "report ops (t # ts) ((noise, None) # rs) =
     tc_name t @ ''...'' @ tab @ noise @ ''[ok]'' @ newline @ report ops ts rs"
| "report ops (t # ts) ((noise, Some info) # rs) =
     tc_name t @ ''...'' @ tab @ noise @ ''[failed]'' @ newline @ newline @ ''Error: '' @ info_display ops info @ newline @ newline"
| "report ops _ _ = ''''"

definition verdict :: "(string \<times> panic_info option) list \<Rightarrow> u32" where
  "verdict rs = (if \<forall>r \<in> set rs. snd r = None then 0x10 else 0x11)"

text \<open>\<^verbatim>\<open>int3\<close> runs the handler the loaded table has for vector 3, with interrupts off, and returns behind the instruction.\<close>

definition int3_laws ::
  "'w console_ops \<Rightarrow> ('h, 't, 'w) idt_ops \<Rightarrow> ('t \<Rightarrow> nat \<Rightarrow> 'h handler option) \<Rightarrow> string \<Rightarrow> (('t, 'w) guest \<Rightarrow> ('t, 'w) guest outcome) \<Rightarrow> bool" where
  "int3_laws ops iops vec frame int3 \<longleftrightarrow>
     (\<forall>s t. is_loaded (gs_intr s) = Some (is_idt (gs_intr s)) \<and> storage_idt iops (is_idt (gs_intr s)) (gs_intr s) = Ret t \<and>
        vec t 3 = Some Breakpoint_Handler \<longrightarrow>
        int3 s = andthen (breakpoint_handler ops frame (set_enabled False s)) (\<lambda>s'. Returned (set_enabled (is_enabled (gs_intr s)) s')))"

section \<open>Lemmas\<close>

definition failure :: "'w console_ops \<Rightarrow> panic_info \<Rightarrow> string" where
  "failure ops info = ''[failed]'' @ newline @ newline @ ''Error: '' @ info_display ops info @ newline @ newline"

lemma exit_qemu_run:
  assumes "console_laws ops out exits"
  shows "\<exists>w'. exit_qemu ops code (printed w s) = printed w' s \<and> out w' = out w \<and> exits w' = exits w @ [exit_code_as_u32 code]"
  using assms by (intro exI [of _ "port32_write ops 0xf4 (exit_code_as_u32 code) w"]) (simp add: exit_qemu_def console_laws_def)

text \<open>The panic handler reports the failure.\<close>

lemma test_panic_run:
  assumes "console_laws ops out exits" and "\<not> gs_locked s"
  shows "\<exists>w. test_panic_handler ops info s = Halted (printed w s) \<and> exits w = exits (gs_world s) @ [0x11] \<and>
    out w = out (gs_world s) @ failure ops info"
proof -
  obtain w1 where w1: "serial_print ops [''[failed]'' @ newline @ newline] s = Returned (printed w1 s)"
      "out w1 = out (gs_world s) @ ''[failed]'' @ newline @ newline" "exits w1 = exits (gs_world s)"
    using serial_print_run [OF assms, of "[''[failed]'' @ newline @ newline]"] by auto
  obtain w2 where w2: "serial_print ops [''Error: '', info_display ops info, newline @ newline] (printed w1 s) = Returned (printed w2 s)"
      "out w2 = out w1 @ ''Error: '' @ info_display ops info @ newline @ newline" "exits w2 = exits w1"
    using serial_print_run [OF assms(1), of "printed w1 s" "[''Error: '', info_display ops info, newline @ newline]"] by auto
  obtain w3 where "exit_qemu ops Qemu_Failed (printed w2 s) = printed w3 s" "out w3 = out w2" "exits w3 = exits w2 @ [0x11]"
    using exit_qemu_run [OF assms(1), of Qemu_Failed w2 s] by auto
  with w1 w2 show ?thesis
    by (intro exI [of _ w3]) (simp add: test_panic_handler_def hlt_loop_def failure_def)
qed

text \<open>One test.\<close>

lemma testable_run_run:
  assumes "console_laws ops out exits" and "test_does out exits st t (noise, res)"
    and "gs_intr s = st\<lparr>is_world := gs_world s\<rparr>" and "\<not> gs_locked s"
  shows "\<exists>w p. exits w = exits (gs_world s) \<and> out w = out (gs_world s) @ tc_name t @ ''...'' @ tab @ noise @ p \<and>
    (case res of None \<Rightarrow> testable_run ops t s = Returned (printed w s) \<and> p = ''[ok]'' @ newline
     | Some info \<Rightarrow> testable_run ops t s = Panicked info (printed w s) \<and> p = [])"
proof -
  obtain w1 where w1: "serial_print ops [tc_name t, ''...'' @ tab] s = Returned (printed w1 s)"
      "out w1 = out (gs_world s) @ tc_name t @ ''...'' @ tab" "exits w1 = exits (gs_world s)"
    using serial_print_run [OF assms(1,4), of "[tc_name t, ''...'' @ tab]"] by auto
  have "gs_intr (printed w1 s) = st\<lparr>is_world := gs_world (printed w1 s)\<rparr>" "gs_uart (printed w1 s)" "\<not> gs_locked (printed w1 s)"
    using arg_cong [OF assms(3), of "\<lambda>x. x\<lparr>is_world := w1\<rparr>"] by (simp_all add: printed_def set_world_def gs_world_def)
  then obtain w2 where w2: "tc_body t (printed w1 s) = (case res of None \<Rightarrow> Returned (printed w2 s) | Some info \<Rightarrow> Panicked info (printed w2 s))"
      "out w2 = out w1 @ noise" "exits w2 = exits w1"
    using assms(2) unfolding test_does_def by (auto dest!: spec [of _ "printed w1 s"] split: option.splits)
  show ?thesis
  proof (cases res)
    case None
    obtain w3 where "serial_print ops [''[ok]'' @ newline] (printed w2 s) = Returned (printed w3 s)"
      "out w3 = out w2 @ ''[ok]'' @ newline" "exits w3 = exits w2"
      using serial_print_run [OF assms(1), of "printed w2 s" "[''[ok]'' @ newline]"] by auto
    with w1 w2 None show ?thesis by (intro exI [of _ w3]) (simp add: testable_run_def)
  next
    case (Some info)
    with w1 w2 show ?thesis by (intro exI [of _ w2]) (simp add: testable_run_def)
  qed
qed

text \<open>All tests, up to the first that fails.\<close>

lemma run_tests_run:
  assumes laws: "console_laws ops out exits" and "list_all2 (test_does out exits st) ts rs"
    and "gs_intr s = st\<lparr>is_world := gs_world s\<rparr>" and "\<not> gs_locked s"
  shows "\<exists>w p. exits w = exits (gs_world s) \<and> out w = out (gs_world s) @ p \<and>
    ((\<forall>r \<in> set rs. snd r = None) \<and> run_tests ops ts s = Returned (if ts = [] then s else printed w s) \<and> report ops ts rs = p \<or>
     (\<exists>r \<in> set rs. snd r \<noteq> None) \<and> (\<exists>info. run_tests ops ts s = Panicked info (printed w s) \<and> report ops ts rs = p @ failure ops info))"
  using assms(2-)
proof (induction ts rs arbitrary: s rule: list_all2_induct)
  case Nil
  show ?case by (intro exI [of _ "gs_world s"]) simp
next
  case (Cons t ts r rs)
  obtain noise res where r: "r = (noise, res)" by (cases r)
  obtain w1 p1 where w1: "exits w1 = exits (gs_world s)" "out w1 = out (gs_world s) @ tc_name t @ ''...'' @ tab @ noise @ p1"
      "case res of None \<Rightarrow> testable_run ops t s = Returned (printed w1 s) \<and> p1 = ''[ok]'' @ newline
       | Some info \<Rightarrow> testable_run ops t s = Panicked info (printed w1 s) \<and> p1 = []"
    using testable_run_run [OF laws Cons.hyps(1) [unfolded r] Cons.prems] by blast
  show ?case
  proof (cases res)
    case None
    have "gs_intr (printed w1 s) = st\<lparr>is_world := gs_world (printed w1 s)\<rparr>" "\<not> gs_locked (printed w1 s)"
      using arg_cong [OF Cons.prems(1), of "\<lambda>x. x\<lparr>is_world := w1\<rparr>"] by simp_all
    from Cons.IH [OF this] obtain w p where w: "exits w = exits w1" "out w = out w1 @ p"
        "(\<forall>r \<in> set rs. snd r = None) \<and> run_tests ops ts (printed w1 s) = Returned (if ts = [] then printed w1 s else printed w s) \<and> report ops ts rs = p \<or>
         (\<exists>r \<in> set rs. snd r \<noteq> None) \<and> (\<exists>info. run_tests ops ts (printed w1 s) = Panicked info (printed w s) \<and> report ops ts rs = p @ failure ops info)"
      by auto
    show ?thesis
    proof (cases "ts = []")
      case True
      with Cons.hyps(2) w1 None show ?thesis by (intro exI [of _ w1]) (simp add: r)
    next
      case False
      with w w1 None show ?thesis by (intro exI [of _ w]) (auto simp: r)
    qed
  next
    case (Some info)
    with w1 show ?thesis by (intro exI [of _ w1]) (simp add: r failure_def)
  qed
qed

text \<open>The runner under the panic handler, whatever follows it.\<close>

lemma test_runner_run:
  assumes laws: "console_laws ops out exits" and does: "list_all2 (test_does out exits (gs_intr s)) ts rs" and free: "\<not> gs_locked s"
  shows "\<exists>w. exits w = exits (gs_world s) @ [verdict rs] \<and>
    out w = out (gs_world s) @ ''Running '' @ digits 10 (length ts) @ '' tests'' @ newline @ report ops ts rs \<and>
    under_handler (test_panic_handler ops) (andthen (test_runner ops ts s) rest) =
      (if verdict rs = 0x10 then under_handler (test_panic_handler ops) (rest (printed w s)) else Some (Halted (printed w s)))"
proof -
  obtain w1 where w1: "serial_print ops [''Running '', digits 10 (length ts), '' tests'' @ newline] s = Returned (printed w1 s)"
      "out w1 = out (gs_world s) @ ''Running '' @ digits 10 (length ts) @ '' tests'' @ newline" "exits w1 = exits (gs_world s)"
    using serial_print_run [OF laws free, of "[''Running '', digits 10 (length ts), '' tests'' @ newline]"] by auto
  obtain w2 p where w2: "exits w2 = exits w1" "out w2 = out w1 @ p" and
    or: "(\<forall>r \<in> set rs. snd r = None) \<and> run_tests ops ts (printed w1 s) = Returned (if ts = [] then printed w1 s else printed w2 s) \<and> report ops ts rs = p \<or>
     (\<exists>r \<in> set rs. snd r \<noteq> None) \<and> (\<exists>info. run_tests ops ts (printed w1 s) = Panicked info (printed w2 s) \<and> report ops ts rs = p @ failure ops info)"
    using run_tests_run [OF laws does, of "printed w1 s"] by auto
  from or show ?thesis
  proof (elim disjE conjE exE)
    assume ok: "\<forall>r \<in> set rs. snd r = None" and run: "run_tests ops ts (printed w1 s) = Returned (if ts = [] then printed w1 s else printed w2 s)"
      and rep: "report ops ts rs = p"
    define w3 where "w3 = (if ts = [] then w1 else w2)"
    have w3: "out w3 = out w1 @ p" "exits w3 = exits w1" using w2 rep by (auto simp: w3_def)
    obtain w where w: "exit_qemu ops Qemu_Success (printed w3 s) = printed w s" "out w = out w3" "exits w = exits w3 @ [0x10]"
      using exit_qemu_run [OF laws, of Qemu_Success w3 s] by auto
    have "andthen (test_runner ops ts s) rest = rest (printed w s)"
      using w1(1) run w(1) by (simp add: test_runner_def w3_def split: if_splits)
    with ok w w1 w3 rep show ?thesis by (intro exI [of _ w]) (simp add: verdict_def)
  next
    fix info
    assume bad: "\<exists>r \<in> set rs. snd r \<noteq> None" and run: "run_tests ops ts (printed w1 s) = Panicked info (printed w2 s)"
      and rep: "report ops ts rs = p @ failure ops info"
    obtain w where w: "test_panic_handler ops info (printed w2 s) = Halted (printed w s)" "exits w = exits w2 @ [0x11]"
        "out w = out w2 @ failure ops info"
      using test_panic_run [OF laws, of "printed w2 s" info] by auto
    have "andthen (test_runner ops ts s) rest = Panicked info (printed w2 s)"
      using w1(1) run by (simp add: test_runner_def)
    moreover have "verdict rs = 0x11" using bad by (auto simp: verdict_def)
    ultimately show ?thesis using w w1 w2 rep by (intro exI [of _ w]) simp
  qed
qed

text \<open>What the tests of the repository do.\<close>

lemma test_println_does:
  assumes "console_laws ops out exits"
  shows "test_does out exits st \<lparr>tc_name = n, tc_body = test_println ops\<rparr> (''test_println output'' @ newline, None)"
  unfolding test_does_def
proof (intro allI impI)
  fix s
  assume "gs_intr s = st\<lparr>is_world := gs_world s\<rparr> \<and> gs_uart s \<and> \<not> gs_locked s"
  then show "\<exists>w. tc_body \<lparr>tc_name = n, tc_body = test_println ops\<rparr> s = (case snd (''test_println output'' @ newline, None) of
      None \<Rightarrow> Returned (printed w s) | Some info \<Rightarrow> Panicked info (printed w s)) \<and>
      out w = out (gs_world s) @ fst (''test_println output'' @ newline, None) \<and> exits w = exits (gs_world s)"
    using println_run [OF assms, of s "[''test_println output'']"] by (auto simp: test_println_def)
qed

lemma boot_start_passes:
  assumes "console_laws ops out exits"
  shows "\<exists>s. under_handler (test_panic_handler ops) (boot_start ops (guest_boot w)) = Some (Halted s) \<and>
    exits (gs_world s) = exits w @ [0x10]"
proof -
  have "list_all2 (test_does out exits (gs_intr (guest_boot w)))
      [\<lparr>tc_name = ''boot::test_println'', tc_body = test_println ops\<rparr>] [(''test_println output'' @ newline, None)]"
    using test_println_does [OF assms] by simp
  from test_runner_run [OF assms this, of "\<lambda>s. Halted s"] show ?thesis
    by (auto simp: boot_start_def verdict_def guest_boot_def gs_world_def intr_boot_def)
qed

lemma set_enabled_printed:
  "set_enabled (is_enabled (gs_intr s)) (printed w (set_enabled b s)) = printed w s"
  by (cases s; cases "gs_intr s") (simp add: set_enabled_def printed_def set_world_def)

lemma test_breakpoint_does:
  assumes "console_laws ops out exits" and "idt_laws iops vec masks" and "int3_laws ops iops vec frame int3"
    and "is_loaded st = Some Initial" "is_idt st = Initial"
  shows "list_all2 (test_does out exits st) (lib_tests int3) [(''EXCEPTION: BREAKPOINT'' @ newline @ frame @ newline, None)]"
proof -
  obtain t where t: "INITIAL_IDT iops = Ret t" "vec t = initial_vectors" by (rule initial_idt_vectors [OF assms(2)])
  have "\<exists>w. int3 s = Returned (printed w s) \<and> out w = out (gs_world s) @ ''EXCEPTION: BREAKPOINT'' @ newline @ frame @ newline \<and>
      exits w = exits (gs_world s)" if s: "gs_intr s = st\<lparr>is_world := gs_world s\<rparr>" "\<not> gs_locked s" for s
  proof -
    have "is_loaded (gs_intr s) = Some (is_idt (gs_intr s))" "storage_idt iops (is_idt (gs_intr s)) (gs_intr s) = Ret t"
        "vec t 3 = Some Breakpoint_Handler"
      by (subst s(1), subst s(1), simp add: assms(4,5)) (subst s(1), simp_all add: assms(5) t initial_vectors_def)
    then have int3: "int3 s = andthen (breakpoint_handler ops frame (set_enabled False s)) (\<lambda>s'. Returned (set_enabled (is_enabled (gs_intr s)) s'))"
      using assms(3) unfolding int3_laws_def by blast
    have "\<not> gs_locked (set_enabled False s)" "gs_world (set_enabled False s) = gs_world s"
      using s(2) by (simp_all add: set_enabled_def gs_world_def)
    then obtain w where "println ops [''EXCEPTION: BREAKPOINT'' @ newline, frame] (set_enabled False s) = Returned (printed w (set_enabled False s))"
        "out w = out (gs_world s) @ ''EXCEPTION: BREAKPOINT'' @ newline @ frame @ newline" "exits w = exits (gs_world s)"
      using println_run [OF assms(1), of "set_enabled False s" "[''EXCEPTION: BREAKPOINT'' @ newline, frame]"] by auto
    then show ?thesis by (intro exI [of _ w]) (simp add: int3 breakpoint_handler_def set_enabled_printed)
  qed
  then show ?thesis by (simp add: lib_tests_def test_does_def test_breakpoint_exception_def)
qed

text \<open>
  In the test build of the kernel the final panic writes a second exit code behind the verdict.
\<close>

lemma kernel_main_tests_exits:
  assumes "console_laws ops out exits" and "\<not> gs_locked s"
  shows "\<exists>s'. under_handler (test_panic_handler ops) (kernel_main_tests ops s) = Some (Halted s') \<and>
    exits (gs_world s') = exits (gs_world s) @ [0x10, 0x11]"
proof -
  let ?t = "\<lparr>tc_name = ''rucoonos::trivial_assertion'', tc_body = trivial_assertion\<rparr>"
  have "test_does out exits (gs_intr s) ?t ('''', None)"
    unfolding test_does_def
  proof (intro allI impI)
    fix s' assume "gs_intr s' = (gs_intr s)\<lparr>is_world := gs_world s'\<rparr> \<and> gs_uart s' \<and> \<not> gs_locked s'"
    then have "printed (gs_world s') s' = s'" by (cases s') (simp add: printed_def set_world_def gs_world_def)
    then show "\<exists>w. tc_body ?t s' = (case snd ('''', None) of None \<Rightarrow> Returned (printed w s') | Some info \<Rightarrow> Panicked info (printed w s')) \<and>
        out w = out (gs_world s') @ fst ('''', None) \<and> exits w = exits (gs_world s')"
      by (intro exI [of _ "gs_world s'"]) (simp add: trivial_assertion_def)
  qed
  then have "list_all2 (test_does out exits (gs_intr s)) [?t] [('''', None)]" by simp
  from test_runner_run [OF assms(1) this assms(2), of "Panicked (Info_Message ''Done'')"] obtain w where
    w: "exits w = exits (gs_world s) @ [0x10]"
      "under_handler (test_panic_handler ops) (kernel_main_tests ops s) = under_handler (test_panic_handler ops) (Panicked (Info_Message ''Done'') (printed w s))"
    by (auto simp: verdict_def kernel_main_tests_def)
  from test_panic_run [OF assms(1), of "printed w s" "Info_Message ''Done''"] w show ?thesis by auto
qed

text \<open>The test build of the library as a whole.\<close>

lemma test_kernel_main_run:
  assumes "console_laws ops out exits" and "idt_laws iops vec masks" and "init_keeps iops (\<lambda>w. (out w, exits w))"
    and "\<forall>st. is_enabled st \<and> intr_inv st \<and> is_idt st = Initial \<longrightarrow> list_all2 (test_does out exits st) ts rs"
  shows "\<exists>s. under_handler (test_panic_handler ops) (test_kernel_main ops iops ts (guest_boot w)) = Some (Halted s) \<and>
    exits (gs_world s) = exits w @ [if \<exists>r \<in> set rs. snd r \<noteq> None then 0x11 else 0x10] \<and>
    out (gs_world s) = out w @ ''Running '' @ digits 10 (length ts) @ '' tests'' @ newline @ report ops ts rs"
proof -
  obtain st where st: "lib_init iops (intr_boot w) = Ret st" "is_enabled st" "intr_inv st" "is_idt st = Initial"
      "out (is_world st) = out w" "exits (is_world st) = exits w"
    using lib_init_run [OF assms(2,3), of w] by auto
  define s where "s = (guest_boot w)\<lparr>gs_intr := st\<rparr>"
  have s: "gs_intr s = st" "\<not> gs_locked s" "gs_world s = is_world st"
    by (simp_all add: s_def guest_boot_def gs_world_def)
  have does: "list_all2 (test_does out exits (gs_intr s)) ts rs" using assms(4) st(2-4) by (simp add: s(1))
  have main: "test_kernel_main ops iops ts (guest_boot w) = andthen (test_runner ops ts s) hlt_loop"
    using st(1) by (simp add: test_kernel_main_def guest_init_def s_def guest_boot_def)
  obtain w' where "exits w' = exits (gs_world s) @ [verdict rs]"
      "out w' = out (gs_world s) @ ''Running '' @ digits 10 (length ts) @ '' tests'' @ newline @ report ops ts rs"
      "under_handler (test_panic_handler ops) (test_kernel_main ops iops ts (guest_boot w)) = Some (Halted (printed w' s))"
    using test_runner_run [OF assms(1) does s(2), of hlt_loop]
    unfolding main by (auto simp: hlt_loop_def split: if_splits)
  then show ?thesis using st(5,6) s(3) by (intro exI [of _ "printed w' s"]) (auto simp: verdict_def)
qed

section \<open>A console that keeps what is sent\<close>

record text_world =
  tw_out :: string
  tw_exits :: "u32 list"
  tw_masks :: "u8 \<times> u8"

definition text_ops :: "text_world console_ops" where
  "text_ops =
     \<lparr>uart_init = (\<lambda>_ w. w), uart_write_str = (\<lambda>_ t w. (True, w\<lparr>tw_out := tw_out w @ t\<rparr>)),
      port32_write = (\<lambda>_ v w. w\<lparr>tw_exits := tw_exits w @ [v]\<rparr>), read_cr2 = (\<lambda>_. ''VirtAddr(0x0)''),
      info_display = (\<lambda>i. case i of Info_Message m \<Rightarrow> m | Info_Cause _ \<Rightarrow> ''panicked'')\<rparr>"

definition text_idt :: "(unit, nat \<Rightarrow> unit handler option, text_world) idt_ops" where
  "text_idt = table_idt_ops tw_masks (\<lambda>m w. w\<lparr>tw_masks := m\<rparr>)"

lemma text_laws: "console_laws text_ops tw_out tw_exits"
  by (simp add: console_laws_def text_ops_def)

definition text_int3 :: "(nat \<Rightarrow> unit handler option, text_world) guest \<Rightarrow> (nat \<Rightarrow> unit handler option, text_world) guest outcome" where
  "text_int3 s = andthen (breakpoint_handler text_ops ''frame'' (set_enabled False s)) (\<lambda>s'. Returned (set_enabled (is_enabled (gs_intr s)) s'))"

lemma text_idt_laws: "idt_laws text_idt (\<lambda>t. t) tw_masks"
  unfolding text_idt_def by (rule table_idt_ops_laws) simp

lemma text_idt_keeps: "init_keeps text_idt (\<lambda>w. (tw_out w, tw_exits w))"
  unfolding text_idt_def by (rule table_idt_ops_keep)

lemma text_tests_do:
  "\<forall>st. is_enabled st \<and> intr_inv st \<and> is_idt st = Initial \<longrightarrow>
    list_all2 (test_does tw_out tw_exits st) (lib_tests text_int3) [(''EXCEPTION: BREAKPOINT'' @ newline @ ''frame'' @ newline, None)]"
proof (intro allI impI, rule test_breakpoint_does [OF text_laws text_idt_laws])
  show "int3_laws text_ops text_idt (\<lambda>t. t) ''frame'' text_int3" by (simp add: int3_laws_def text_int3_def)
qed (simp_all add: intr_inv_def)

section \<open>Properties\<close>

text \<open>
  C33: a test build of the library initialises the machine and runs its tests in order; the report on the
  serial port has a line for every test up to the first that panics, with the panic's text after it, and
  the machine ends in a halt with exactly one exit code written: success when no test panicked, failure
  otherwise.
\<close>

theorem test_verdict:
  assumes "console_laws ops out exits" and "idt_laws iops vec masks" and "init_keeps iops (\<lambda>w. (out w, exits w))"
    and "\<forall>st. is_enabled st \<and> intr_inv st \<and> is_idt st = Initial \<longrightarrow> list_all2 (test_does out exits st) ts rs"
  shows "\<exists>s. under_handler (test_panic_handler ops) (test_kernel_main ops iops ts (guest_boot w)) = Some (Halted s) \<and>
    exits (gs_world s) = exits w @ [if \<exists>r \<in> set rs. snd r \<noteq> None then 0x11 else 0x10] \<and>
    out (gs_world s) = out w @ ''Running '' @ digits 10 (length ts) @ '' tests'' @ newline @ report ops ts rs"
  by (rule test_kernel_main_run [OF assms])

theorem test_verdict_witness:
  "\<exists>s. under_handler (test_panic_handler text_ops)
      (test_kernel_main text_ops text_idt (lib_tests text_int3) (guest_boot \<lparr>tw_out = [], tw_exits = [], tw_masks = (0xff, 0xff)\<rparr>)) = Some (Halted s) \<and>
    tw_exits (gs_world s) = [0x10] \<and>
    tw_out (gs_world s) = ''Running 1 tests'' @ newline @ ''rucoonos::interrupts::test_breakpoint_exception...'' @ tab @
      ''EXCEPTION: BREAKPOINT'' @ newline @ ''frame'' @ newline @ ''[ok]'' @ newline"
proof -
  have one: "digits 10 (Suc 0) = ''1''" by (simp add: digits.simps digit_def char_of_def bit_0)
  from test_verdict [OF text_laws text_idt_laws text_idt_keeps text_tests_do, of "\<lparr>tw_out = [], tw_exits = [], tw_masks = (0xff, 0xff)\<rparr>"]
  show ?thesis by (simp add: lib_tests_def one)
qed

end
