(* ===== verification/Boot_Tool.thy ===== *)
theory Boot_Tool
  imports Test_Harness
begin

text \<open>
  \<^verbatim>\<open>boot/src/main.rs\<close>, the host tool that builds the disk image of a kernel binary and runs it in the emulator, also used as the
  runner of the tests. Paths are their bytes; file system, the two locator crates and the commands run are
  the operations \<open>host_ops\<close>.
\<close>

section \<open>Paths and commands\<close>

text \<open>
  Unix paths as the standard library reads them: separators at the end and a final \<^verbatim>\<open>.\<close> behind a separator do
  not count, the separator at the start is the root.
\<close>

fun trim_rev :: "string \<Rightarrow> string" where
  "trim_rev [] = []"
| "trim_rev [c] = [c]"
| "trim_rev (c # d # r) =
     (if c = CHR ''/'' then trim_rev (d # r) else if c = CHR ''.'' \<and> d = CHR ''/'' then trim_rev (d # r) else c # d # r)"

definition path_trim :: "string \<Rightarrow> string" where
  "path_trim p = rev (trim_rev (rev p))"

definition path_parent :: "string \<Rightarrow> string option" where
  "path_parent p =
     (let q = path_trim p in
      if q = '''' \<or> q = ''/'' then None else Some (rev (trim_rev (dropWhile (\<lambda>c. c \<noteq> CHR ''/'') (rev q)))))"

definition path_file_name :: "string \<Rightarrow> string option" where
  "path_file_name p =
     (let n = rev (takeWhile (\<lambda>c. c \<noteq> CHR ''/'') (rev (path_trim p))) in
      if n \<in> {'''', ''.'', ''..''} then None else Some n)"

definition path_join :: "string \<Rightarrow> string \<Rightarrow> string" where
  "path_join p q =
     (if q \<noteq> '''' \<and> hd q = CHR ''/'' then q
      else if p = '''' \<or> last p = CHR ''/'' then p @ q
      else p @ ''/'' @ q)"

text \<open>
  The length of the first encoded character, or of the bytes before the first that cannot continue it, and
  whether it is a character.
\<close>

definition utf8_len :: "nat \<Rightarrow> nat" where
  "utf8_len b =
     (if b < 0x80 then 1 else if 0xC2 \<le> b \<and> b \<le> 0xDF then 2 else if 0xE0 \<le> b \<and> b \<le> 0xEF then 3
      else if 0xF0 \<le> b \<and> b \<le> 0xF4 then 4 else 0)"

definition utf8_second :: "nat \<Rightarrow> nat \<Rightarrow> bool" where
  "utf8_second b c =
     (if b = 0xE0 then 0xA0 \<le> c \<and> c \<le> 0xBF else if b = 0xED then 0x80 \<le> c \<and> c \<le> 0x9F
      else if b = 0xF0 then 0x90 \<le> c \<and> c \<le> 0xBF else if b = 0xF4 then 0x80 \<le> c \<and> c \<le> 0x8F
      else 0x80 \<le> c \<and> c \<le> 0xBF)"

fun utf8_chunk :: "nat list \<Rightarrow> nat \<times> bool" where
  "utf8_chunk [] = (0, True)"
| "utf8_chunk (b # bs) =
     (let n = utf8_len b;
          k = (case take (n - 1) bs of
                 [] \<Rightarrow> 1
               | c # cs \<Rightarrow> if utf8_second b c then 2 + length (takeWhile (\<lambda>c. 0x80 \<le> c \<and> c \<le> 0xBF) cs) else 1)
      in (k, k = n))"

fun valid_utf8 :: "string \<Rightarrow> bool" where
  "valid_utf8 [] = True"
| "valid_utf8 (c # cs) =
     (case utf8_chunk (map of_char (c # cs)) of (k, ok) \<Rightarrow> ok \<and> valid_utf8 (drop (k - 1) cs))"

text \<open>\<^verbatim>\<open>display\<close> puts the replacement character, three bytes, where no character can be read.\<close>

fun path_display :: "string \<Rightarrow> string" where
  "path_display [] = []"
| "path_display (c # cs) =
     (case utf8_chunk (map of_char (c # cs)) of (k, ok) \<Rightarrow>
        (if ok then c # take (k - 1) cs else [CHR 0xEF, CHR 0xBF, CHR 0xBD]) @ path_display (drop (k - 1) cs))"

declare utf8_chunk.simps [simp del] valid_utf8.simps [simp del] path_display.simps [simp del]

definition to_str :: "string \<Rightarrow> string option" where
  "to_str s = (if valid_utf8 s then Some s else None)"

record command =
  cmd_program :: string
  cmd_dir :: "string option"
  cmd_args :: "string list"

definition command_new :: "string \<Rightarrow> command" where
  "command_new p = \<lparr>cmd_program = p, cmd_dir = None, cmd_args = []\<rparr>"

definition command_args :: "string list \<Rightarrow> command \<Rightarrow> command" where
  "command_args as c = c\<lparr>cmd_args := cmd_args c @ as\<rparr>"

text \<open>A process ends with a code or by a signal.\<close>

datatype exit_status = Exited int | Signaled

fun status_code :: "exit_status \<Rightarrow> int option" where
  "status_code (Exited c) = Some c"
| "status_code Signaled = None"

definition status_success :: "exit_status \<Rightarrow> bool" where
  "status_success s = (status_code s = Some 0)"

record 'w host_ops =
  canonicalize :: "string \<Rightarrow> 'w \<Rightarrow> string option"
  locate_bootloader :: "string \<Rightarrow> 'w \<Rightarrow> string option"
  locate_manifest :: "'w \<Rightarrow> string option"
  cargo :: string
  run_command :: "command \<Rightarrow> 'w \<Rightarrow> exit_status option \<times> 'w"
  path_exists :: "string \<Rightarrow> 'w \<Rightarrow> bool"

section \<open>The tool\<close>

definition RUN_ARGS :: "string list" where
  "RUN_ARGS = [''--no-reboot'', ''-s'']"

definition create_disk_images :: "'w host_ops \<Rightarrow> string \<Rightarrow> 'w \<Rightarrow> (string \<times> 'w) exec" where
  "create_disk_images ops kernel_binary_path w =
     xbind (unwrap (locate_bootloader ops ''bootloader'' w)) (\<lambda>bootloader_manifest_path.
     xbind (unwrap (locate_manifest ops w)) (\<lambda>kernel_manifest_path.
     let build_cmd = command_new (cargo ops) in
     xbind (unwrap (path_parent bootloader_manifest_path)) (\<lambda>dir.
     let build_cmd = build_cmd\<lparr>cmd_dir := Some dir\<rparr>;
         build_cmd = command_args [''builder''] build_cmd;
         build_cmd = command_args [''--kernel-manifest'', kernel_manifest_path] build_cmd;
         build_cmd = command_args [''--kernel-binary'', kernel_binary_path] build_cmd in
     xbind (unwrap (path_parent kernel_manifest_path)) (\<lambda>manifest_dir.
     let build_cmd = command_args [''--target-dir'', path_join manifest_dir ''target''] build_cmd in
     xbind (unwrap (path_parent kernel_binary_path)) (\<lambda>binary_dir.
     let build_cmd = command_args [''--out-dir'', binary_dir] build_cmd in
     case run_command ops build_cmd w of (status, w) \<Rightarrow>
     xbind (unwrap status) (\<lambda>status.
     if \<not> status_success status then Panic ExplicitPanic
     else
       xbind (unwrap (path_file_name kernel_binary_path)) (\<lambda>file_name.
       xbind (unwrap (to_str file_name)) (\<lambda>kernel_binary_name.
       xbind (unwrap (path_parent kernel_binary_path)) (\<lambda>binary_dir.
       let disk_image = path_join binary_dir (''boot-bios-'' @ kernel_binary_name @ ''.img'') in
       if \<not> path_exists ops disk_image w then Panic ExplicitPanic
       else Ret (disk_image, w))))))))))"

definition qemu_command :: "string \<Rightarrow> command" where
  "qemu_command bios =
     (let run_cmd = command_new ''qemu-system-x86_64'';
          run_cmd = command_args [''-drive'', ''format=raw,file='' @ path_display bios] run_cmd;
          run_cmd = command_args [''-device'', ''VGA''] run_cmd;
          run_cmd = command_args [''-device'', ''isa-debug-exit,iobase=0xf4,iosize=0x04''] run_cmd;
          run_cmd =
            (if False then
               command_args [''-netdev'', ''tap,id=network0,ifname=tap0,script=./qemu-ifup,downscript=./qemu-ifdown'',
                 ''-device'', ''e1000,netdev=network0'', ''-object'', ''filter-dump,id=f1,netdev=network0,file=dump.dat''] run_cmd
             else
               command_args [''-netdev'', ''user,id=network0'',
                 ''-device'', ''e1000,netdev=network0'', ''-object'', ''filter-dump,id=f1,netdev=network0,file=dump.dat''] run_cmd);
          run_cmd = command_args [''-serial'', ''stdio''] run_cmd
      in command_args RUN_ARGS run_cmd)"

text \<open>The exit code of the tool and what it prints; \<open>args\<close> starts with the name of the executable.\<close>

record tool_end =
  te_code :: int
  te_stdout :: string

definition boot_main :: "'w host_ops \<Rightarrow> string list \<Rightarrow> 'w \<Rightarrow> (tool_end \<times> 'w) exec" where
  "boot_main ops args w =
     (let args = drop 1 args in
      xbind (unwrap (case args of [] \<Rightarrow> None | a # _ \<Rightarrow> Some a)) (\<lambda>path.
      xbind (unwrap (canonicalize ops path w)) (\<lambda>kernel_binary_path.
      xbind (case drop 1 args of
               [] \<Rightarrow> Ret False
             | arg # _ \<Rightarrow> if arg = ''--no-run'' then Ret True else Panic ExplicitPanic) (\<lambda>no_boot.
      xbind (create_disk_images ops kernel_binary_path w) (\<lambda>(bios, w).
      if no_boot then
        Ret (\<lparr>te_code = 0, te_stdout = ''Created disk image at `'' @ path_display bios @ ''`'' @ newline\<rparr>, w)
      else
        (case run_command ops (qemu_command bios) w of (exit_status, w) \<Rightarrow>
         xbind (unwrap exit_status) (\<lambda>exit_status.
         if \<not> status_success exit_status
         then Ret (\<lparr>te_code = (case status_code exit_status of None \<Rightarrow> 1 | Some c \<Rightarrow> c), te_stdout = ''''\<rparr>, w)
         else Ret (\<lparr>te_code = 0, te_stdout = ''''\<rparr>, w))))))))"

section \<open>Lemmas\<close>

text \<open>Absolute paths made of plain names, which is what \<^verbatim>\<open>canonicalize\<close> gives.\<close>

definition plain_name :: "string \<Rightarrow> bool" where
  "plain_name n \<longleftrightarrow> n \<notin> {'''', ''.'', ''..''} \<and> CHR ''/'' \<notin> set n"

definition abs_path :: "string list \<Rightarrow> string" where
  "abs_path ns = (if ns = [] then ''/'' else concat (map (\<lambda>n. CHR ''/'' # n) ns))"

lemma trim_rev_plain:
  assumes "plain_name n"
  shows "trim_rev (rev n @ CHR ''/'' # r) = rev n @ CHR ''/'' # r"
proof -
  obtain c m where cm: "rev n = c # m" using assms by (cases "rev n") (auto simp: plain_name_def)
  have "CHR ''/'' \<notin> set (c # m)" using assms by (simp add: plain_name_def flip: cm)
  moreover have "c \<noteq> CHR ''.'' \<or> m \<noteq> []"
    using assms cm by (auto simp: plain_name_def)
  ultimately show ?thesis unfolding cm by (cases m) auto
qed

lemma rev_abs_path: "rev (abs_path (ns @ [n])) = rev n @ CHR ''/'' # (if ns = [] then [] else rev (abs_path ns))"
  by (auto simp: abs_path_def)

lemma path_trim_plain:
  assumes "plain_name n"
  shows "path_trim (abs_path (ns @ [n])) = abs_path (ns @ [n])"
  unfolding path_trim_def rev_abs_path trim_rev_plain [OF assms] by (simp flip: rev_abs_path)

lemma path_parent_plain:
  assumes "\<forall>m \<in> set (ns @ [n]). plain_name m"
  shows "path_parent (abs_path (ns @ [n])) = Some (abs_path ns)"
proof -
  have n: "plain_name n" "\<forall>c \<in> set (rev n). c \<noteq> CHR ''/''" "n \<noteq> ''''" using assms by (auto simp: plain_name_def)
  have "abs_path (ns @ [n]) \<noteq> ''''" "abs_path (ns @ [n]) \<noteq> ''/''" using n(3) by (auto simp: abs_path_def append_eq_Cons_conv)
  moreover have "dropWhile (\<lambda>c. c \<noteq> CHR ''/'') (rev (abs_path (ns @ [n]))) = CHR ''/'' # (if ns = [] then [] else rev (abs_path ns))"
    unfolding rev_abs_path using n(2) by (subst dropWhile_append2) auto
  moreover have "rev (trim_rev (CHR ''/'' # (if ns = [] then [] else rev (abs_path ns)))) = abs_path ns"
  proof (cases ns rule: rev_cases)
    case Nil
    then show ?thesis by (simp add: abs_path_def)
  next
    case (snoc ms m)
    have m: "plain_name m" using assms by (simp add: snoc)
    obtain d r where dr: "rev (abs_path ns) = d # r" by (cases "rev (abs_path ns)") (auto simp: snoc rev_abs_path)
    have "trim_rev (CHR ''/'' # rev (abs_path ns)) = trim_rev (rev (abs_path ns))" by (simp add: dr)
    also have "\<dots> = rev (abs_path ns)" unfolding snoc rev_abs_path by (rule trim_rev_plain [OF m])
    finally show ?thesis by (simp add: snoc)
  qed
  ultimately show ?thesis by (simp add: path_parent_def path_trim_plain [OF n(1)] Let_def)
qed

lemma path_file_name_plain:
  assumes "plain_name n"
  shows "path_file_name (abs_path (ns @ [n])) = Some n"
proof -
  have "\<forall>c \<in> set (rev n). c \<noteq> CHR ''/''" using assms by (auto simp: plain_name_def)
  then have "takeWhile (\<lambda>c. c \<noteq> CHR ''/'') (rev (abs_path (ns @ [n]))) = rev n"
    unfolding rev_abs_path by (subst takeWhile_append2) auto
  then show ?thesis using assms by (simp add: path_file_name_def path_trim_plain plain_name_def Let_def)
qed

lemma path_join_plain:
  assumes "\<forall>m \<in> set ns. plain_name m" and "CHR ''/'' \<notin> set q"
  shows "path_join (abs_path ns) q = abs_path (ns @ [q])"
proof -
  have "\<not> (q \<noteq> '''' \<and> hd q = CHR ''/'')" using assms(2) by (cases q) auto
  moreover have "abs_path ns \<noteq> ''''" by (auto simp: abs_path_def)
  moreover have "last (abs_path ns) \<noteq> CHR ''/''" if ne: "ns \<noteq> []"
  proof -
    obtain ms m where ns: "ns = ms @ [m]" using ne by (cases ns rule: rev_cases) auto
    have "m \<noteq> ''''" "CHR ''/'' \<notin> set m" using assms(1) by (auto simp: ns plain_name_def)
    then show ?thesis by (auto simp: ns abs_path_def last_append) (metis last_in_set)
  qed
  ultimately show ?thesis by (auto simp: path_join_def abs_path_def)
qed

lemma display_valid: "valid_utf8 s \<Longrightarrow> path_display s = s"
  by (induction s rule: valid_utf8.induct) (auto simp: valid_utf8.simps path_display.simps split: prod.splits)

text \<open>
  What the tool needs: the paths exist, the build of the boot loader, with the arguments it expects, succeeds in \<open>w'\<close>,
  and has left the image beside the kernel binary.
\<close>

definition disk_image :: "string list \<Rightarrow> string \<Rightarrow> string" where
  "disk_image ns n = abs_path (ns @ [''boot-bios-'' @ n @ ''.img''])"

definition buildable :: "'w host_ops \<Rightarrow> string \<Rightarrow> string list \<Rightarrow> string \<Rightarrow> 'w \<Rightarrow> 'w \<Rightarrow> bool" where
  "buildable ops k ns n w w' \<longleftrightarrow>
     canonicalize ops k w = Some (abs_path (ns @ [n])) \<and> (\<forall>m \<in> set (ns @ [n]). plain_name m) \<and> valid_utf8 n \<and>
     (\<exists>bs b ms m. locate_bootloader ops ''bootloader'' w = Some (abs_path (bs @ [b])) \<and>
        locate_manifest ops w = Some (abs_path (ms @ [m])) \<and> (\<forall>x \<in> set (bs @ [b]) \<union> set (ms @ [m]). plain_name x) \<and>
        run_command ops
          \<lparr>cmd_program = cargo ops, cmd_dir = Some (abs_path bs),
           cmd_args = [''builder'', ''--kernel-manifest'', abs_path (ms @ [m]), ''--kernel-binary'', abs_path (ns @ [n]),
             ''--target-dir'', abs_path (ms @ [''target'']), ''--out-dir'', abs_path ns]\<rparr> w = (Some (Exited 0), w')) \<and>
     path_exists ops (disk_image ns n) w'"

lemma create_disk_images_run:
  assumes "buildable ops k ns n w w'"
  shows "create_disk_images ops (abs_path (ns @ [n])) w = Ret (disk_image ns n, w')"
proof -
  from assms obtain bs b ms m where loc: "locate_bootloader ops ''bootloader'' w = Some (abs_path (bs @ [b]))"
      "locate_manifest ops w = Some (abs_path (ms @ [m]))" and plain: "\<forall>x \<in> set (bs @ [b]) \<union> set (ms @ [m]). plain_name x"
    and run: "run_command ops
          \<lparr>cmd_program = cargo ops, cmd_dir = Some (abs_path bs),
           cmd_args = [''builder'', ''--kernel-manifest'', abs_path (ms @ [m]), ''--kernel-binary'', abs_path (ns @ [n]),
             ''--target-dir'', abs_path (ms @ [''target'']), ''--out-dir'', abs_path ns]\<rparr> w = (Some (Exited 0), w')"
    unfolding buildable_def by (elim conjE exE)
  have names: "\<forall>x \<in> set (ns @ [n]). plain_name x" "valid_utf8 n" "path_exists ops (disk_image ns n) w'"
    using assms by (simp_all add: buildable_def)
  then have n: "plain_name n" "CHR ''/'' \<notin> set n" by (simp_all add: plain_name_def)
  have parents: "path_parent (abs_path (bs @ [b])) = Some (abs_path bs)" "path_parent (abs_path (ms @ [m])) = Some (abs_path ms)"
    "path_parent (abs_path (ns @ [n])) = Some (abs_path ns)"
    using plain names(1) by (simp_all add: path_parent_plain)
  have joins: "path_join (abs_path ms) ''target'' = abs_path (ms @ [''target''])"
    "path_join (abs_path ns) (''boot-bios-'' @ n @ ''.img'') = disk_image ns n"
    using plain names(1) n(2) by (simp_all add: path_join_plain disk_image_def)
  show ?thesis
    using names(2,3) run
    by (simp add: create_disk_images_def loc parents joins [simplified] path_file_name_plain [OF n(1)] to_str_def command_new_def
        command_args_def status_success_def Let_def)
qed

lemma boot_main_run:
  assumes "buildable ops k ns n w w'"
  shows "boot_main ops [exe, k, ''--no-run''] w =
      Ret (\<lparr>te_code = 0, te_stdout = ''Created disk image at `'' @ path_display (disk_image ns n) @ ''`'' @ newline\<rparr>, w')"
    and "run_command ops (qemu_command (disk_image ns n)) w' = (Some st, w2) \<Longrightarrow> boot_main ops [exe, k] w =
      Ret (\<lparr>te_code = (case status_code st of None \<Rightarrow> 1 | Some c \<Rightarrow> c), te_stdout = ''''\<rparr>, w2)"
proof -
  have k: "canonicalize ops k w = Some (abs_path (ns @ [n]))" using assms by (simp add: buildable_def)
  show "boot_main ops [exe, k, ''--no-run''] w =
      Ret (\<lparr>te_code = 0, te_stdout = ''Created disk image at `'' @ path_display (disk_image ns n) @ ''`'' @ newline\<rparr>, w')"
    by (simp add: boot_main_def k create_disk_images_run [OF assms])
  show "boot_main ops [exe, k] w = Ret (\<lparr>te_code = (case status_code st of None \<Rightarrow> 1 | Some c \<Rightarrow> c), te_stdout = ''''\<rparr>, w2)"
    if "run_command ops (qemu_command (disk_image ns n)) w' = (Some st, w2)"
    using that by (simp add: boot_main_def k create_disk_images_run [OF assms] status_success_def)
qed

lemma boot_main_unknown_argument:
  assumes "canonicalize ops k w = Some p" and "arg \<noteq> ''--no-run''"
  shows "boot_main ops (exe # k # arg # rest) w = Panic ExplicitPanic"
  using assms by (simp add: boot_main_def)

section \<open>A host\<close>

text \<open>A build always succeeds and the emulator ends with the status \<open>st\<close>; the world is the commands run.\<close>

definition sample_host :: "exit_status \<Rightarrow> string list host_ops" where
  "sample_host st =
     \<lparr>canonicalize = (\<lambda>p w. Some (''/t/'' @ p)), locate_bootloader = (\<lambda>_ _. Some ''/b/Cargo.toml''),
      locate_manifest = (\<lambda>_. Some ''/Cargo.toml''), cargo = ''cargo'',
      run_command = (\<lambda>c w. (Some (if cmd_program c = ''cargo'' then Exited 0 else st), w @ [cmd_program c])),
      path_exists = (\<lambda>_ _. True)\<rparr>"

lemma sample_host_buildable: "buildable (sample_host st) ''k'' [''t''] ''k'' [] [''cargo'']"
proof -
  have "valid_utf8 ''k''" by code_simp
  moreover have "abs_path ([''t''] @ [''k'']) = ''/t/k''" "abs_path ([''b''] @ [''Cargo.toml'']) = ''/b/Cargo.toml''"
    "abs_path ([] @ [''Cargo.toml'']) = ''/Cargo.toml''" by (simp_all add: abs_path_def)
  moreover have "\<forall>x \<in> set ([''b''] @ [''Cargo.toml'']) \<union> set ([] @ [''Cargo.toml'']). plain_name x" "\<forall>m \<in> set ([''t''] @ [''k'']). plain_name m"
    by (simp_all add: plain_name_def)
  ultimately show ?thesis
    unfolding buildable_def
    by (intro conjI exI [of _ "[''b'']"] exI [of _ "''Cargo.toml''"] exI [of _ "[] :: string list"]) (simp_all add: sample_host_def)
qed

section \<open>Properties\<close>



end
