(* ===== verification/Spec2Isabelle.thy ===== *)
theory Spec2Isabelle
  imports Net_Properties Net_Task Kernel_Main Boot_Tool
begin

text \<open>
  A verification library for the rucoonos kernel, an operating system kernel for x86-64 with a cooperative executor and a
  network stack.

  \<^bold>\<open>How the parts work together.\<close> \<^verbatim>\<open>main.rs\<close> initialises the machine (\<^verbatim>\<open>hardware.rs\<close>), creates the executor (\<^verbatim>\<open>kernel/src\<close>) and
  adds the extensions. The logging extension starts the task that prints log messages. The network extension enumerates the
  PCI bus, brings up every E1000 card, installs the network interrupt and starts the handler task. A card's interrupt puts
  received frames on the handler's queue and sends waiting ones; the handler takes the messages off the queue, answers ARP,
  runs the DHCP exchange, and delivers replies to the tasks that wait for them.

  \<^bold>\<open>Execution model\<close> (\<^verbatim>\<open>Rust_Prelude\<close>). The kernel is built in the development profile: an arithmetic overflow, an index out of
  range, a failed \<^verbatim>\<open>unwrap\<close> or \<^verbatim>\<open>assert\<close> and a \<^verbatim>\<open>todo!\<close> panic. A function that can panic returns \<^verbatim>\<open>'a exec\<close>, either \<^verbatim>\<open>Ret v\<close> or
  \<^verbatim>\<open>Panic kind\<close>; \<^verbatim>\<open>Result<T, ()>\<close> is an option inside it. A function with a loop that may not end returns \<^verbatim>\<open>'a exec option\<close>, with
  \<^verbatim>\<open>None\<close> for not returning, and is defined by \<^verbatim>\<open>partial_function\<close>; there is no fuel anywhere. Slices are lists, machine integers
  are words, \<^verbatim>\<open>usize\<close> is a natural number with the overflow check written out, heap objects shared by reference are entries of
  a map from addresses, and statics are fields of a record. Code outside the repository (queues of nolock, x86-64 ports and
  tables, page tables, device memory, the log framework) is a record of operations on a world \<^verbatim>\<open>'w\<close>, and what is relied on
  is a named predicate on that record, each one shown to be satisfiable by an instance the witnesses use.

  \<^bold>\<open>Network protocols\<close> (\<^verbatim>\<open>src/src/extensions/networking/protocols\<close>).
  \<^item> \<^verbatim>\<open>Net_Buffer\<close>: \<^verbatim>\<open>buffer.rs\<close> and \<^verbatim>\<open>protocols.rs\<close>, the frame buffer and the address cache; \<^verbatim>\<open>Ethernet\<close>: \<^verbatim>\<open>ethernet.rs\<close>; \<^verbatim>\<open>Arp\<close>: \<^verbatim>\<open>arp.rs\<close>;
    \<^verbatim>\<open>Checksum\<close> and \<^verbatim>\<open>Ipv4\<close>: \<^verbatim>\<open>ipv4.rs\<close>; \<^verbatim>\<open>Udp\<close>: \<^verbatim>\<open>udp.rs\<close>; \<^verbatim>\<open>Icmp\<close>: \<^verbatim>\<open>icmp.rs\<close>; \<^verbatim>\<open>Dhcp\<close>: \<^verbatim>\<open>dhcp.rs\<close>. Parsers and typestate builders are functions
    of the same shape as the code; the closures passed to \<^verbatim>\<open>finish\<close> are arguments.
  \<^item> Shown: what a builder makes a parser reads back, checksums verify, and on arbitrary received bytes each parser's panics and
    errors are characterised exactly. The interfaces are the locales \<^verbatim>\<open>wire_enum\<close> (a number and its enumeration) and
    \<^verbatim>\<open>payload_writer\<close> (what a builder expects of its closure), interpreted for every use the code makes of them.

  \<^bold>\<open>Network handler\<close> (\<^verbatim>\<open>Net_Device\<close>, \<^verbatim>\<open>Net_Handler\<close>, \<^verbatim>\<open>Net_Api\<close>, \<^verbatim>\<open>Net_Properties\<close>): \<^verbatim>\<open>device.rs\<close>, \<^verbatim>\<open>handler.rs\<close>, \<^verbatim>\<open>api.rs\<close>, \<^verbatim>\<open>interrupt.rs\<close>.
  \<^item> \<^verbatim>\<open>handle_message\<close> is the body of the task's loop, over the state \<^verbatim>\<open>handler_state\<close> of its devices and binding tables.
  \<^item> Shown: a refinement of the DHCP exchange given as a step relation on the metadata of a device, an invariant of every
    reachable state under interference, the handshake, ARP answers and deliveries, the round trip of a ping and the
    panic an echo request causes. \<^verbatim>\<open>networking_device\<close> is the contract of the trait, interpreted for the card.

  \<^bold>\<open>Executor\<close> (\<^verbatim>\<open>Kernel_Exec\<close>): \<^verbatim>\<open>kernel/src/lib.rs\<close>, \<^verbatim>\<open>handle.rs\<close>, \<^verbatim>\<open>task.rs\<close>. A round of the run loop, tasks, wakers as boxes. Shown: a round
  always finds its task and keeps the invariant, and no spawned task starves, whatever polls do through the handle and their
  wakers.

  \<^bold>\<open>Network card\<close> (\<^verbatim>\<open>Pci\<close>, \<^verbatim>\<open>E1000_Regs\<close>, \<^verbatim>\<open>E1000_Card\<close>, \<^verbatim>\<open>E1000_Rings\<close>, \<^verbatim>\<open>E1000_Properties\<close>, \<^verbatim>\<open>Net_Setup\<close>, \<^verbatim>\<open>Net_Wire\<close>): \<^verbatim>\<open>pci.rs\<close>, \<^verbatim>\<open>e1000.rs\<close> with its modules,
  \<^verbatim>\<open>device.rs\<close>, \<^verbatim>\<open>networking.rs\<close>. Registers as records with their bit layout, the rings in device memory, the interrupt handler, the
  enumeration and the set-up of the extension. Shown: the enumeration finds exactly the devices present, register contents
  round trip, an interrupt is safe whatever the hardware does, delivers every filled descriptor and hands out waiting
  packets, the reclaiming loop ends exactly for a valid head, and the set-up leaves one device per supported card with the
  interrupt installed. \<^verbatim>\<open>Net_Wire\<close> puts driver and handler together: requests the card has received come back as replies in
  its transmit ring. \<^verbatim>\<open>Net_Task\<close> runs the handler as a task of the executor: its future with the states the await leaves it in, and what
  a poll does. Shown: interrupts and one round of the run loop are enough to answer the requests, and leave the
  handler waiting again.

  \<^bold>\<open>Machine\<close>.
  \<^item> \<^verbatim>\<open>Gdt\<close>: \<^verbatim>\<open>gdt.rs\<close>. The segment tables and the order they are loaded in. \<^verbatim>\<open>Interrupts\<close>: \<^verbatim>\<open>interrupts.rs\<close> and its modules, \<^verbatim>\<open>lib.rs\<close>.
    The descriptor table's storage and masks; shown: after any installations the loaded table is the current one and has the
    right entries, and nothing is leaked.
  \<^item> \<^verbatim>\<open>Console\<close>: \<^verbatim>\<open>serial.rs\<close>, the print macros, the exception and panic handlers. How code ends is an \<^verbatim>\<open>outcome\<close> with the state it ends in,
    so that the panic handler goes on from there; shown: what a print sends, and that a failed print hangs the panic handler.
  \<^item> \<^verbatim>\<open>Test_Harness\<close>: the test framework of \<^verbatim>\<open>lib.rs\<close>, \<^verbatim>\<open>tests/boot.rs\<close>; \<^verbatim>\<open>Boot_Tool\<close>: \<^verbatim>\<open>boot/src/main.rs\<close>. Shown: the report and the exit code of a
    test build, and the status the tool that runs it ends with.
  \<^item> \<^verbatim>\<open>Acpi\<close>: \<^verbatim>\<open>acpi.rs\<close> and its modules. The firmware tables as bytes in memory; shown: the entries of a table are read back exactly.
  \<^item> \<^verbatim>\<open>Memory_Frames\<close>: \<^verbatim>\<open>memory.rs\<close>, \<^verbatim>\<open>allocator.rs\<close>. 1024 frames are enough for the heap: 256 for its pages and at most three for the
    page tables of each.
  \<^item> \<^verbatim>\<open>Vga\<close>: \<^verbatim>\<open>vga.rs\<close>, \<^verbatim>\<open>video.rs\<close>; \<^verbatim>\<open>Kiss_Rng\<close>: \<^verbatim>\<open>rng.rs\<close>; \<^verbatim>\<open>Logging\<close>: \<^verbatim>\<open>logging.rs\<close>, \<^verbatim>\<open>level.rs\<close>. Each is shown to agree with a reference
    definition.
  \<^item> \<^verbatim>\<open>Hardware\<close>: \<^verbatim>\<open>hardware.rs\<close>. The initialisation as a whole.
  \<^item> \<^verbatim>\<open>Kernel_Main\<close>: \<^verbatim>\<open>main.rs\<close>. The main function down to its first polls, the ping task and the drawing of \<^verbatim>\<open>tetris\<close>.

  \<^bold>\<open>Not modelled.\<close> Printed lines and log messages a function outside \<^verbatim>\<open>Console\<close> emits on its way are formatting only; the
  logging task itself is modelled. \<^verbatim>\<open>futures.rs\<close> is one call into a crate outside the repository. The polls of the tasks are a
  parameter of the executor: the bodies of the tasks are modelled, what the compiler makes of their await points is modelled
  only for the network handler, for \<^verbatim>\<open>ping\<close> and for the futures written by hand. Interrupts are handled between the steps of the model, not inside
  them. \<^verbatim>\<open>tests/heap_allocation.rs\<close> does not compile, since the library does not export the module it uses, and
  \<^verbatim>\<open>tests/stack_overflow.rs\<close> depends on how the processor delivers a fault without a usable stack.
\<close>

end
